(* ===== verification/Nova_Prelude.thy ===== *)
theory Nova_Prelude
  imports Main
begin

text \<open>
  Shared by every component of the development: the collections of simplification facts, the
  tables of rows looked up and updated by a key, signed sums over the rows of a table, and
  the calculus in which the services are written and verified. A service method is a function
  from the world to a result (an exception or a value) and the next world; \<open>wp\<close> is its
  weakest precondition, and the rules collected in \<open>wp_rules\<close> turn a method into the
  conditions on its branches.
\<close>

named_theorems wp_rules
named_theorems table_simps
named_theorems invariant_simps

section \<open>Rows of a table, by key\<close>

definition row_lookup :: "('row \<Rightarrow> 'k) \<Rightarrow> 'k \<Rightarrow> 'row list \<Rightarrow> 'row option" where
  "row_lookup key k rows = find (\<lambda>r. key r = k) rows"

definition row_update :: "('row \<Rightarrow> 'k) \<Rightarrow> 'k \<Rightarrow> ('row \<Rightarrow> 'row) \<Rightarrow> 'row list \<Rightarrow> 'row list" where
  "row_update key k f rows = map (\<lambda>r. if key r = k then f r else r) rows"

lemma row_lookup_Nil [simp]: "row_lookup key k [] = None"
  by (simp add: row_lookup_def)

lemma row_lookup_Cons [simp]:
  "row_lookup key k (r # rows) = (if key r = k then Some r else row_lookup key k rows)"
  by (simp add: row_lookup_def)

lemma row_lookup_append:
  "row_lookup key k (rows @ rows') =
     (case row_lookup key k rows of None \<Rightarrow> row_lookup key k rows' | Some r \<Rightarrow> Some r)"
  by (induction rows) auto

lemma row_lookup_SomeD:
  assumes "row_lookup key k rows = Some r"
  shows "r \<in> set rows \<and> key r = k"
  using assms by (induction rows) (auto split: if_splits)

lemma row_lookup_in: "row_lookup key k rows = Some r \<Longrightarrow> r \<in> set rows"
  by (blast dest: row_lookup_SomeD)

lemma row_lookup_key: "row_lookup key k rows = Some r \<Longrightarrow> key r = k"
  by (blast dest: row_lookup_SomeD)

lemma row_lookup_None_iff: "row_lookup key k rows = None \<longleftrightarrow> k \<notin> key ` set rows"
  by (induction rows) auto

lemma row_lookup_distinct:
  "distinct (map key rows) \<Longrightarrow> r \<in> set rows \<Longrightarrow> row_lookup key (key r) rows = Some r"
  by (induction rows) force+

lemma row_update_Nil [simp]: "row_update key k f [] = []"
  by (simp add: row_update_def)

lemma row_update_Cons [simp]:
  "row_update key k f (r # rows) = (if key r = k then f r else r) # row_update key k f rows"
  by (simp add: row_update_def)

lemma set_row_update: "set (row_update key k f rows) = (\<lambda>r. if key r = k then f r else r) ` set rows"
  by (simp add: row_update_def)

lemma length_row_update [simp]: "length (row_update key k f rows) = length rows"
  by (simp add: row_update_def)

lemma map_key_row_update:
  "(\<And>r. key (f r) = key r) \<Longrightarrow> map key (row_update key k f rows) = map key rows"
  by (simp add: row_update_def)

lemma row_lookup_row_update:
  assumes "\<And>r. key (f r) = key r"
  shows "row_lookup key j (row_update key k f rows) =
           (if j = k then map_option f (row_lookup key k rows) else row_lookup key j rows)"
  using assms by (induction rows) auto

lemma row_update_absent: "k \<notin> key ` set rows \<Longrightarrow> row_update key k f rows = rows"
  by (induction rows) auto

text \<open>
  A table whose rows carry a primary key. The repositories rely on it through these
  operations only: a statement writes the row of one key and leaves every other row and the
  order of the rows as they were.
\<close>

locale keyed_table =
  fixes key :: "'row \<Rightarrow> 'k"
    and fetch :: "'k \<Rightarrow> 'db \<Rightarrow> 'row option"
    and rows_of :: "'db \<Rightarrow> 'row list"
    and write_row :: "'k \<Rightarrow> ('row \<Rightarrow> 'row) \<Rightarrow> 'db \<Rightarrow> 'db"
  assumes fetch_rows: "fetch k db = row_lookup key k (rows_of db)"
    and rows_write: "rows_of (write_row k f db) = row_update key k f (rows_of db)"
begin

lemma fetch_key: "fetch k db = Some r \<Longrightarrow> key r = k"
  unfolding fetch_rows by (rule row_lookup_key)

lemma fetch_in: "fetch k db = Some r \<Longrightarrow> r \<in> set (rows_of db)"
  unfolding fetch_rows by (rule row_lookup_in)

lemma fetch_write:
  assumes "\<And>r. key (f r) = key r"
  shows "fetch j (write_row k f db) = (if j = k then map_option f (fetch k db) else fetch j db)"
  unfolding fetch_rows rows_write by (rule row_lookup_row_update [where key = key and f = f, OF assms])

lemma fetch_write_other:
  assumes "\<And>r. key (f r) = key r" and "j \<noteq> k"
  shows "fetch j (write_row k f db) = fetch j db"
  using assms(2) by (simp add: fetch_write [where f = f, OF assms(1)])

end

section \<open>Dictionaries\<close>

text \<open>Assignment to a key of a \<open>dict\<close>, which keeps the place of a key that is there.\<close>

fun dict_set :: "string \<Rightarrow> 'v \<Rightarrow> (string \<times> 'v) list \<Rightarrow> (string \<times> 'v) list" where
  "dict_set k v [] = [(k, v)]"
| "dict_set k v ((k', v') # d) = (if k' = k then (k, v) # d else (k', v') # dict_set k v d)"

definition dict_get :: "(string \<times> 'v) list \<Rightarrow> string \<Rightarrow> 'v \<Rightarrow> 'v" where
  "dict_get d k absent = (case map_of d k of None \<Rightarrow> absent | Some v \<Rightarrow> v)"

section \<open>Sums over the rows of a table\<close>

definition sum_rows :: "('row \<Rightarrow> bool) \<Rightarrow> ('row \<Rightarrow> int) \<Rightarrow> 'row list \<Rightarrow> int" where
  "sum_rows P f rows = sum_list (map f (filter P rows))"

lemma sum_rows_Nil [simp]: "sum_rows P f [] = 0"
  by (simp add: sum_rows_def)

lemma sum_rows_Cons [simp]:
  "sum_rows P f (r # rows) = (if P r then f r else 0) + sum_rows P f rows"
  by (simp add: sum_rows_def)

lemma sum_rows_append [simp]: "sum_rows P f (xs @ ys) = sum_rows P f xs + sum_rows P f ys"
  by (simp add: sum_rows_def)

lemma sum_rows_none: "(\<And>r. r \<in> set rows \<Longrightarrow> \<not> P r) \<Longrightarrow> sum_rows P f rows = 0"
  by (induction rows) auto

lemma sum_rows_cong:
  assumes "\<And>r. r \<in> set rows \<Longrightarrow> P r = Q r" and "\<And>r. r \<in> set rows \<Longrightarrow> Q r \<Longrightarrow> f r = g r"
  shows "sum_rows P f rows = sum_rows Q g rows"
  using assms by (induction rows) auto

lemma sum_rows_nonneg: "(\<And>r. r \<in> set rows \<Longrightarrow> P r \<Longrightarrow> 0 \<le> f r) \<Longrightarrow> 0 \<le> sum_rows P f rows"
  by (induction rows) auto

lemma sum_rows_split:
  "sum_rows P f rows = sum_rows (\<lambda>r. P r \<and> Q r) f rows + sum_rows (\<lambda>r. P r \<and> \<not> Q r) f rows"
  by (induction rows) auto

text \<open>The sum changes by the difference at the one row that a keyed update touches.\<close>

lemma sum_rows_row_update:
  assumes "distinct (map key rows)" and "row_lookup key k rows = Some r"
    and "\<And>x. key (g x) = key x"
  shows "sum_rows P f (row_update key k g rows) =
           sum_rows P f rows - (if P r then f r else 0) + (if P (g r) then f (g r) else 0)"
  using assms
proof (induction rows)
  case Nil
  then show ?case by simp
next
  case (Cons x rows)
  show ?case
  proof (cases "key x = k")
    case True
    with Cons.prems have "k \<notin> key ` set rows" and "x = r" by auto
    with True show ?thesis by (simp add: row_update_absent)
  next
    case False
    with Cons show ?thesis by simp
  qed
qed

lemma sum_rows_image_absent:
  "k \<notin> key ` set rows \<Longrightarrow> sum_rows (\<lambda>r. key r = k \<and> P r) f rows = 0"
  by (rule sum_rows_none) auto

section \<open>Methods with exceptions over a world\<close>

type_synonym ('w, 'e, 'a) action = "'w \<Rightarrow> ('e + 'a) \<times> 'w"

definition done_with :: "'a \<Rightarrow> ('w, 'e, 'a) action" where
  "done_with a = (\<lambda>w. (Inr a, w))"

definition raise_exn :: "'e \<Rightarrow> ('w, 'e, 'a) action" where
  "raise_exn e = (\<lambda>w. (Inl e, w))"

definition and_then :: "('w, 'e, 'a) action \<Rightarrow> ('a \<Rightarrow> ('w, 'e, 'b) action) \<Rightarrow> ('w, 'e, 'b) action" where
  "and_then m f = (\<lambda>w. case m w of (Inl e, w') \<Rightarrow> (Inl e, w') | (Inr a, w') \<Rightarrow> f a w')"

definition gets_world :: "('w \<Rightarrow> 'a) \<Rightarrow> ('w, 'e, 'a) action" where
  "gets_world f = (\<lambda>w. (Inr (f w), w))"

definition catching :: "('w, 'e, 'a) action \<Rightarrow> ('e \<Rightarrow> ('w, 'e, 'a) action) \<Rightarrow> ('w, 'e, 'a) action" where
  "catching m h = (\<lambda>w. case m w of (Inl e, w') \<Rightarrow> h e w' | (Inr a, w') \<Rightarrow> (Inr a, w'))"

lemma done_with_and_then [simp]: "and_then (done_with a) f = f a"
  by (rule ext) (simp add: and_then_def done_with_def)

lemma raise_exn_and_then [simp]: "and_then (raise_exn e) f = raise_exn e"
  by (rule ext) (simp add: and_then_def raise_exn_def)

lemma and_then_assoc: "and_then (and_then m f) g = and_then m (\<lambda>a. and_then (f a) g)"
  by (rule ext) (simp add: and_then_def split: prod.split sum.split)

definition wp :: "('w, 'e, 'a) action \<Rightarrow> ('e + 'a \<Rightarrow> 'w \<Rightarrow> bool) \<Rightarrow> 'w \<Rightarrow> bool" where
  "wp m Q w = (case m w of (r, w') \<Rightarrow> Q r w')"

lemma wp_done_with [wp_rules]: "wp (done_with a) Q w = Q (Inr a) w"
  by (simp add: wp_def done_with_def)

lemma wp_raise_exn [wp_rules]: "wp (raise_exn e) Q w = Q (Inl e) w"
  by (simp add: wp_def raise_exn_def)

lemma wp_gets_world [wp_rules]: "wp (gets_world f) Q w = Q (Inr (f w)) w"
  by (simp add: wp_def gets_world_def)

lemma wp_and_then [wp_rules]:
  "wp (and_then m f) Q w =
     wp m (\<lambda>r w'. case r of Inl e \<Rightarrow> Q (Inl e) w' | Inr a \<Rightarrow> wp (f a) Q w') w"
  by (simp add: wp_def and_then_def split: prod.split sum.split)

lemma wp_catching [wp_rules]:
  "wp (catching m h) Q w =
     wp m (\<lambda>r w'. case r of Inl e \<Rightarrow> wp (h e) Q w' | Inr a \<Rightarrow> Q (Inr a) w') w"
  by (simp add: wp_def catching_def split: prod.split sum.split)

lemma wp_if [wp_rules]: "wp (if b then m else m') Q w = (if b then wp m Q w else wp m' Q w)"
  by simp

lemma wp_case_option [wp_rules]:
  "wp (case x of None \<Rightarrow> m | Some a \<Rightarrow> f a) Q w =
     (case x of None \<Rightarrow> wp m Q w | Some a \<Rightarrow> wp (f a) Q w)"
  by (cases x) auto

lemma wp_Let [wp_rules]: "wp (let a = x in f a) Q w = (let a = x in wp (f a) Q w)"
  by (simp add: Let_def)

lemma wp_mono: "wp m Q w \<Longrightarrow> (\<And>r w'. Q r w' \<Longrightarrow> R r w') \<Longrightarrow> wp m R w"
  by (auto simp: wp_def split: prod.splits)

lemma wp_conj: "wp m Q w \<Longrightarrow> wp m R w \<Longrightarrow> wp m (\<lambda>r w'. Q r w' \<and> R r w') w"
  by (auto simp: wp_def split: prod.splits)

lemma wp_result: "wp m Q w \<longleftrightarrow> Q (fst (m w)) (snd (m w))"
  by (simp add: wp_def case_prod_beta)

lemma wp_eqI: "wp m (\<lambda>r w'. r = a \<and> w' = v) w \<Longrightarrow> m w = (a, v)"
  by (simp add: wp_def split: prod.splits)

end
