(* ===== verification/Py_Text.thy ===== *)
theory Py_Text
  imports Nova_Prelude "HOL-Library.Word"
begin

text \<open>
  The text operations of the Python standard library that the service uses: \<open>str(int)\<close>,
  \<open>int(bytes)\<close>, \<open>str(uuid)\<close>, \<open>str.strip\<close>, \<open>str.split\<close> and \<open>str.startswith\<close>. A \<open>str\<close> or a
  \<open>bytes\<close> value is a list of characters with codes below 256. The lemmas give the round trip
  of integers through their text and the injectivity of the text of a UUID, on which the
  cache keys rest.
\<close>

type_synonym uuid = "128 word"

section \<open>Integers as text\<close>

definition digit_char :: "nat \<Rightarrow> char" where
  "digit_char d = char_of (48 + d)"

definition is_digit :: "char \<Rightarrow> bool" where
  "is_digit c \<longleftrightarrow> 48 \<le> (of_char c :: nat) \<and> (of_char c :: nat) \<le> 57"

definition digit_value :: "char \<Rightarrow> nat" where
  "digit_value c = of_char c - 48"

fun nat_digits :: "nat \<Rightarrow> string" where
  "nat_digits n = (if n < 10 then [digit_char n] else nat_digits (n div 10) @ [digit_char (n mod 10)])"

declare nat_digits.simps [simp del]

definition py_str_int :: "int \<Rightarrow> string" where
  "py_str_int i = (if i < 0 then CHR ''-'' # nat_digits (nat (- i)) else nat_digits (nat i))"

definition ascii_space :: "char \<Rightarrow> bool" where
  "ascii_space c \<longleftrightarrow> (of_char c :: nat) \<in> {9, 10, 11, 12, 13, 32}"

definition strip_by :: "(char \<Rightarrow> bool) \<Rightarrow> string \<Rightarrow> string" where
  "strip_by p s = rev (dropWhile p (rev (dropWhile p s)))"

text \<open>
  The digits of \<open>int\<close>: an underscore is accepted between two digits only. The flag says
  that the previous character was a digit.
\<close>

fun digits_value :: "bool \<Rightarrow> nat \<Rightarrow> string \<Rightarrow> nat option" where
  "digits_value prev acc [] = (if prev then Some acc else None)"
| "digits_value prev acc (c # cs) =
     (if is_digit c then digits_value True (10 * acc + digit_value c) cs
      else if c = CHR ''_'' \<and> prev then digits_value False acc cs
      else None)"

text \<open>The interpreter's limit on the digits of an integer read from text.\<close>

definition max_str_digits :: nat where
  "max_str_digits = 4300"

text \<open>
  \<open>int(value)\<close> of a \<open>bytes\<close> value, \<open>None\<close> where Python raises \<open>ValueError\<close> (also for more
  digits than the limit).
\<close>

definition py_int_of_bytes :: "string \<Rightarrow> int option" where
  "py_int_of_bytes s =
     (let t = strip_by ascii_space s;
          number = (\<lambda>ds. if max_str_digits < length (filter is_digit ds) then None
                         else digits_value False 0 ds)
      in case t of
           [] \<Rightarrow> None
         | c # cs \<Rightarrow>
             if c = CHR ''-'' then map_option (\<lambda>n. - int n) (number cs)
             else if c = CHR ''+'' then map_option int (number cs)
             else map_option int (number (c # cs)))"

lemma of_char_digit_char: "d < 10 \<Longrightarrow> (of_char (digit_char d) :: nat) = 48 + d"
  by (simp add: digit_char_def of_char_of)

lemma is_digit_digit_char [simp]: "d < 10 \<Longrightarrow> is_digit (digit_char d)"
  by (simp add: is_digit_def of_char_digit_char)

lemma digit_value_digit_char [simp]: "d < 10 \<Longrightarrow> digit_value (digit_char d) = d"
  by (simp add: digit_value_def of_char_digit_char)

lemma digits_value_True_append:
  "\<forall>d \<in> set ds. is_digit d \<Longrightarrow>
   digits_value True acc (ds @ es) = digits_value True (foldl (\<lambda>a c. 10 * a + digit_value c) acc ds) es"
  by (induction ds arbitrary: acc) auto

lemma digits_value_append:
  "ds \<noteq> [] \<Longrightarrow> \<forall>d \<in> set ds. is_digit d \<Longrightarrow>
   digits_value prev acc (ds @ es) =
     digits_value True (foldl (\<lambda>a c. 10 * a + digit_value c) acc ds) es"
  by (cases ds) (simp_all add: digits_value_True_append)

lemma nat_digits_digits: "\<forall>c \<in> set (nat_digits n). is_digit c"
proof (induction n rule: nat_digits.induct)
  case (1 n)
  then show ?case by (subst nat_digits.simps) auto
qed

lemma nat_digits_not_Nil: "nat_digits n \<noteq> []"
  by (subst nat_digits.simps) simp

lemma nat_digits_value:
  "foldl (\<lambda>a c. 10 * a + digit_value c) 0 (nat_digits n) = n"
proof (induction n rule: nat_digits.induct)
  case (1 n)
  show ?case
  proof (cases "n < 10")
    case True
    then show ?thesis by (subst nat_digits.simps) simp
  next
    case False
    with 1 have "foldl (\<lambda>a c. 10 * a + digit_value c) 0 (nat_digits (n div 10)) = n div 10"
      by simp
    with False show ?thesis by (subst nat_digits.simps) simp
  qed
qed

lemma length_nat_digits: "n < 10 ^ Suc k \<Longrightarrow> length (nat_digits n) \<le> Suc k"
proof (induction k arbitrary: n)
  case 0
  then show ?case by (subst nat_digits.simps) simp
next
  case (Suc k)
  have "n div 10 < 10 ^ Suc k" using Suc.prems by (simp add: less_mult_imp_div_less mult.commute)
  then have "length (nat_digits (n div 10)) \<le> Suc k" by (rule Suc.IH)
  then show ?case by (subst nat_digits.simps) simp
qed

lemma digits_value_nat_digits: "digits_value False 0 (nat_digits n) = Some n"
  using digits_value_append [of "nat_digits n" False 0 "[]"]
  by (simp add: nat_digits_not_Nil nat_digits_digits nat_digits_value)

lemma strip_by_none:
  assumes "\<forall>c \<in> set s. \<not> p c"
  shows "strip_by p s = s"
proof -
  have "dropWhile p s = s" if "\<forall>c \<in> set s. \<not> p c" for s
    using that by (cases s) auto
  from this [of s] this [of "rev s"] assms show ?thesis by (simp add: strip_by_def)
qed

lemma digit_not_space: "is_digit c \<Longrightarrow> \<not> ascii_space c"
  by (auto simp: is_digit_def ascii_space_def)

lemma digit_not_sign: "is_digit c \<Longrightarrow> c \<noteq> CHR ''-'' \<and> c \<noteq> CHR ''+''"
  by (auto simp: is_digit_def)

lemma strip_nat_digits:
  "strip_by ascii_space (nat_digits n) = nat_digits n"
  "strip_by ascii_space (CHR ''-'' # nat_digits n) = CHR ''-'' # nat_digits n"
  using nat_digits_digits [of n]
  by (auto intro!: strip_by_none simp: digit_not_space) (auto simp: ascii_space_def)

lemma length_digits_filter: "length (filter is_digit (nat_digits n)) = length (nat_digits n)"
  using nat_digits_digits [of n] by simp

lemma py_int_of_bytes_nat:
  assumes "length (nat_digits n) \<le> max_str_digits"
  shows "py_int_of_bytes (nat_digits n) = Some (int n)"
    and "py_int_of_bytes (CHR ''-'' # nat_digits n) = Some (- int n)"
proof -
  obtain c cs where c: "nat_digits n = c # cs"
    using nat_digits_not_Nil [of n] by (cases "nat_digits n") auto
  then have d: "is_digit c" using nat_digits_digits [of n] by simp
  have v: "digits_value False 0 (c # cs) = Some n" using digits_value_nat_digits [of n] c by simp
  have l: "\<not> max_str_digits < length (filter is_digit (c # cs))"
    using assms length_digits_filter [of n] c by simp
  have s: "strip_by ascii_space (c # cs) = c # cs"
    "strip_by ascii_space (CHR ''-'' # c # cs) = CHR ''-'' # c # cs"
    using strip_nat_digits [of n] c by simp_all
  show "py_int_of_bytes (nat_digits n) = Some (int n)"
    unfolding py_int_of_bytes_def Let_def c s
    using digit_not_sign [OF d] v l by (simp del: digits_value.simps filter.simps)
  show "py_int_of_bytes (CHR ''-'' # nat_digits n) = Some (- int n)"
    unfolding py_int_of_bytes_def Let_def c s
    using v l by (simp del: digits_value.simps filter.simps)
qed

text \<open>What \<open>int\<close> reads from the text that \<open>str\<close> wrote is the number written.\<close>

lemma py_int_str_roundtrip:
  assumes "\<bar>i\<bar> < 10 ^ 18"
  shows "py_int_of_bytes (py_str_int i) = Some i"
proof -
  have short: "length (nat_digits (nat \<bar>i\<bar>)) \<le> max_str_digits"
    using length_nat_digits [of "nat \<bar>i\<bar>" 17] assms
    by (simp add: nat_less_iff max_str_digits_def)
  show ?thesis
  proof (cases "i < 0")
    case True
    with short have "length (nat_digits (nat (- i))) \<le> max_str_digits" by simp
    with True show ?thesis by (simp add: py_str_int_def py_int_of_bytes_nat)
  next
    case False
    with short have "length (nat_digits (nat i)) \<le> max_str_digits" by simp
    with False show ?thesis by (simp add: py_str_int_def py_int_of_bytes_nat)
  qed
qed

section \<open>UUIDs as text\<close>

definition hex_char :: "nat \<Rightarrow> char" where
  "hex_char d = (if d < 10 then char_of (48 + d) else char_of (87 + d))"

fun hex_digits :: "nat \<Rightarrow> nat \<Rightarrow> string" where
  "hex_digits 0 n = []"
| "hex_digits (Suc k) n = hex_digits k (n div 16) @ [hex_char (n mod 16)]"

definition uuid_str :: "uuid \<Rightarrow> string" where
  "uuid_str u =
     (let h = hex_digits 32 (unat u)
      in take 8 h @ ''-'' @ take 4 (drop 8 h) @ ''-'' @ take 4 (drop 12 h) @ ''-''
         @ take 4 (drop 16 h) @ ''-'' @ drop 20 h)"

lemma length_hex_digits [simp]: "length (hex_digits k n) = k"
  by (induction k arbitrary: n) auto

lemma hex_char_inj:
  assumes "d < 16" and "e < 16" and "hex_char d = hex_char e"
  shows "d = e"
proof -
  have "of_char (hex_char d) = (of_char (hex_char e) :: nat)" using assms(3) by simp
  then show ?thesis using assms(1,2) by (auto simp: hex_char_def of_char_of split: if_splits)
qed

lemma hex_digits_inj:
  "m < 16 ^ k \<Longrightarrow> n < 16 ^ k \<Longrightarrow> hex_digits k m = hex_digits k n \<Longrightarrow> m = n"
proof (induction k arbitrary: m n)
  case 0
  then show ?case by simp
next
  case (Suc k)
  from Suc.prems have "m div 16 < 16 ^ k" and "n div 16 < 16 ^ k"
    by (simp_all add: less_mult_imp_div_less mult.commute)
  with Suc have d: "m div 16 = n div 16" by simp
  from Suc.prems(3) have "m mod 16 = n mod 16" by (auto intro: hex_char_inj)
  with d show ?case by (metis div_mult_mod_eq)
qed

lemma uuid_str_inj: "uuid_str u = uuid_str v \<Longrightarrow> u = v"
proof -
  assume eq: "uuid_str u = uuid_str v"
  define g where "g = hex_digits 32 (unat u)"
  define h where "h = hex_digits 32 (unat v)"
  have len: "length g = 32" "length h = 32" by (simp_all add: g_def h_def)
  from eq have parts: "take 8 g = take 8 h" "take 4 (drop 8 g) = take 4 (drop 8 h)"
    "take 4 (drop 12 g) = take 4 (drop 12 h)" "take 4 (drop 16 g) = take 4 (drop 16 h)"
    "drop 20 g = drop 20 h"
    by (simp_all add: uuid_str_def Let_def g_def [symmetric] h_def [symmetric] len)
  have join: "x = take 8 x @ take 4 (drop 8 x) @ take 4 (drop 12 x) @ take 4 (drop 16 x) @ drop 20 x"
    for x :: string
  proof -
    have "drop 16 x = take 4 (drop 16 x) @ drop 20 x"
      using append_take_drop_id [of 4 "drop 16 x"] by simp
    moreover have "drop 12 x = take 4 (drop 12 x) @ drop 16 x"
      using append_take_drop_id [of 4 "drop 12 x"] by simp
    moreover have "drop 8 x = take 4 (drop 8 x) @ drop 12 x"
      using append_take_drop_id [of 4 "drop 8 x"] by simp
    ultimately show ?thesis using append_take_drop_id [of 8 x] by metis
  qed
  have "g = h" using join [of g] join [of h] parts by simp
  moreover have "unat u < 16 ^ 32" "unat v < 16 ^ 32"
    using unsigned_less [of u] unsigned_less [of v] by simp_all
  ultimately have "unat u = unat v" unfolding g_def h_def by (rule hex_digits_inj [rotated 2])
  then show ?thesis by (simp add: word_unat_eq_iff)
qed

section \<open>Strings\<close>

text \<open>The characters below 256 that \<open>str.strip()\<close> removes.\<close>

definition py_space :: "char \<Rightarrow> bool" where
  "py_space c \<longleftrightarrow> (of_char c :: nat) \<in> {9, 10, 11, 12, 13, 28, 29, 30, 31, 32, 133, 160}"

definition py_strip :: "string \<Rightarrow> string" where
  "py_strip s = strip_by py_space s"

fun py_split :: "char \<Rightarrow> string \<Rightarrow> string list" where
  "py_split sep [] = [[]]"
| "py_split sep (c # cs) =
     (if c = sep then [] # py_split sep cs
      else case py_split sep cs of [] \<Rightarrow> [[c]] | t # ts \<Rightarrow> (c # t) # ts)"

definition py_startswith :: "string \<Rightarrow> string \<Rightarrow> bool" where
  "py_startswith s p \<longleftrightarrow> take (length p) s = p"

lemma py_startswith_iff: "py_startswith s p \<longleftrightarrow> (\<exists>r. s = p @ r)"
  by (metis append_eq_conv_conj append_take_drop_id py_startswith_def)

lemma py_split_not_Nil [simp]: "py_split sep s \<noteq> []"
  by (induction s) (auto split: list.splits)

lemma py_split_no_sep: "t \<in> set (py_split sep s) \<Longrightarrow> sep \<notin> set t"
proof (induction s arbitrary: t)
  case Nil
  then show ?case by simp
next
  case (Cons c cs)
  then show ?case by (cases "py_split sep cs") (auto split: if_splits)
qed

lemma py_split_no_sep_id: "sep \<notin> set s \<Longrightarrow> py_split sep s = [s]"
  by (induction s) auto

lemma py_split_append: "sep \<notin> set s \<Longrightarrow> py_split sep (s @ sep # t) = s # py_split sep t"
  by (induction s) auto

lemma strip_by_edges:
  assumes "strip_by p s = c # cs"
  shows "\<not> p c" and "\<not> p (last (c # cs))"
proof -
  define d where "d = dropWhile p s"
  have e: "rev (dropWhile p (rev d)) = c # cs" using assms by (simp add: strip_by_def d_def)
  then have ne: "dropWhile p (rev d) \<noteq> []" by auto
  have "last (c # cs) = hd (dropWhile p (rev d))"
    using e ne by (metis last_rev)
  then show "\<not> p (last (c # cs))" using hd_dropWhile [OF ne] by simp
  have "d = (c # cs) @ rev (takeWhile p (rev d))"
    using e by (metis rev_append rev_rev_ident takeWhile_dropWhile_id)
  then have "d \<noteq> []" and "hd d = c" by (metis append_Cons list.distinct(1), metis append_Cons list.sel(1))
  then show "\<not> p c" using hd_dropWhile [of p s] by (simp add: d_def)
qed

section \<open>Letters\<close>

text \<open>\<open>upper\<close> and \<open>title\<close> on ASCII letters; what is not an ASCII letter stays as it is.\<close>

definition lower_letter :: "char \<Rightarrow> bool" where
  "lower_letter c \<longleftrightarrow> of_char c \<in> {97..122 :: nat}"

definition upper_letter :: "char \<Rightarrow> bool" where
  "upper_letter c \<longleftrightarrow> of_char c \<in> {65..90 :: nat}"

definition upper_char :: "char \<Rightarrow> char" where
  "upper_char c = (if lower_letter c then char_of (of_char c - 32 :: nat) else c)"

definition lower_char :: "char \<Rightarrow> char" where
  "lower_char c = (if upper_letter c then char_of (of_char c + 32 :: nat) else c)"

definition py_upper :: "string \<Rightarrow> string" where
  "py_upper s = map upper_char s"

fun title_after :: "bool \<Rightarrow> string \<Rightarrow> string" where
  "title_after letter [] = []"
| "title_after letter (c # cs) =
     (if letter then lower_char c else upper_char c) # title_after (lower_letter c \<or> upper_letter c) cs"

definition py_title :: "string \<Rightarrow> string" where
  "py_title s = title_after False s"

definition py_rstrip :: "char \<Rightarrow> string \<Rightarrow> string" where
  "py_rstrip c s = rev (dropWhile (\<lambda>x. x = c) (rev s))"

fun py_join :: "string \<Rightarrow> string list \<Rightarrow> string" where
  "py_join sep [] = []"
| "py_join sep [s] = s"
| "py_join sep (s # t # ts) = s @ sep @ py_join sep (t # ts)"

end
