(* ===== verification/Py_Decimal.thy ===== *)
theory Py_Decimal
  imports Py_Text
begin

text \<open>
  The part of the \<open>decimal\<close> module that the service uses: exact coefficients with a power of
  ten, products rounded to the 28 digits of the default context, and \<open>quantize\<close> to two places
  with rounding half to even. The sign is that of the coefficient (a negative zero never
  arises here), and the exponents stay far inside the limits of the context. The lemmas show
  that amounts of money within the columns of the schema are never rounded.
\<close>

datatype decimal = Dec (coefficient: int) (exponent: int)

definition dec_precision :: nat where
  "dec_precision = 28"

definition dec_digits :: "int \<Rightarrow> nat" where
  "dec_digits c = length (nat_digits (nat \<bar>c\<bar>))"

text \<open>Division by a positive power of ten, ties to the even neighbour.\<close>

definition round_half_even :: "int \<Rightarrow> int \<Rightarrow> int" where
  "round_half_even c m =
     (let q = c div m; r = c mod m
      in if 2 * r < m then q else if m < 2 * r then q + 1 else if even q then q else q + 1)"

definition dec_fix :: "decimal \<Rightarrow> decimal" where
  "dec_fix d =
     (let n = dec_digits (coefficient d)
      in if n \<le> dec_precision then d
         else let k = n - dec_precision; c = round_half_even (coefficient d) (10 ^ k)
              in if dec_digits c \<le> dec_precision then Dec c (exponent d + int k)
                 else Dec (c div 10) (exponent d + int k + 1))"

definition dec_mult :: "decimal \<Rightarrow> decimal \<Rightarrow> decimal" where
  "dec_mult a b = dec_fix (Dec (coefficient a * coefficient b) (exponent a + exponent b))"

definition dec_of_int :: "int \<Rightarrow> decimal" where
  "dec_of_int n = Dec n 0"

text \<open>
  \<open>d.quantize(Decimal("0.01"))\<close>: \<open>None\<close> where the result has more digits than the context
  and \<open>InvalidOperation\<close> is raised.
\<close>

definition dec_quantize2 :: "decimal \<Rightarrow> decimal option" where
  "dec_quantize2 d =
     (let c = (if - 2 \<le> exponent d then coefficient d * 10 ^ nat (exponent d + 2)
               else round_half_even (coefficient d) (10 ^ nat (- 2 - exponent d)))
      in if dec_digits c \<le> dec_precision then Some (Dec c (- 2)) else None)"

text \<open>The whole number of cents a decimal denotes, when it denotes one.\<close>

definition dec_cents :: "decimal \<Rightarrow> int option" where
  "dec_cents d =
     (if - 2 \<le> exponent d then Some (coefficient d * 10 ^ nat (exponent d + 2))
      else if coefficient d mod 10 ^ nat (- 2 - exponent d) = 0
           then Some (coefficient d div 10 ^ nat (- 2 - exponent d))
           else None)"

definition money :: "int \<Rightarrow> decimal" where
  "money cents = Dec cents (- 2)"

lemma dec_digits_le:
  assumes "\<bar>c\<bar> < 10 ^ 28"
  shows "dec_digits c \<le> dec_precision"
proof -
  have "nat \<bar>c\<bar> < 10 ^ Suc 27" using assms by (simp add: nat_less_iff)
  then show ?thesis unfolding dec_digits_def dec_precision_def
    using length_nat_digits [of "nat \<bar>c\<bar>" 27] by simp
qed

lemma dec_fix_exact: "\<bar>coefficient d\<bar> < 10 ^ 28 \<Longrightarrow> dec_fix d = d"
  using dec_digits_le [of "coefficient d"] by (simp add: dec_fix_def Let_def)

lemma dec_mult_money: "\<bar>c * n\<bar> < 10 ^ 28 \<Longrightarrow> dec_mult (money c) (dec_of_int n) = money (c * n)"
  using dec_fix_exact [of "Dec (c * n) (- 2)"]
  by (simp add: dec_mult_def money_def dec_of_int_def)

lemma dec_quantize2_money: "\<bar>c\<bar> < 10 ^ 28 \<Longrightarrow> dec_quantize2 (money c) = Some (money c)"
  using dec_digits_le [of c] by (simp add: dec_quantize2_def money_def)

lemma dec_quantize2_zero: "dec_quantize2 (Dec 0 0) = Some (money 0)"
  using dec_digits_le [of 0] by (simp add: dec_quantize2_def money_def)

lemma dec_cents_money [simp]: "dec_cents (money c) = Some c"
  by (simp add: dec_cents_def money_def)

text \<open>Rounding moves the value by at most half a unit.\<close>

lemma round_half_even_error:
  assumes "0 < m"
  shows "2 * \<bar>c - m * round_half_even c m\<bar> \<le> m"
proof -
  define q r where "q = c div m" and "r = c mod m"
  have r: "c - m * q = r" "c - m * (q + 1) = r - m" "0 \<le> r" "r < m"
    using assms by (simp_all add: q_def r_def minus_mult_div_eq_mod algebra_simps)
  have "round_half_even c m = q \<and> 2 * r \<le> m \<or> round_half_even c m = q + 1 \<and> m \<le> 2 * r"
    by (auto simp: round_half_even_def Let_def q_def r_def)
  then show ?thesis using r by auto
qed

lemma dec_quantize2_cents:
  assumes "dec_cents d = Some c" and "\<bar>c\<bar> < 10 ^ 28"
  shows "dec_quantize2 d = Some (money c)"
proof -
  have m: "round_half_even x m = x div m" if "x mod m = 0" "0 < m" for x m
    using that by (simp add: round_half_even_def)
  from assms show ?thesis using dec_digits_le [of c]
    by (auto simp: dec_cents_def dec_quantize2_def money_def Let_def m split: if_splits)
qed

end
