(* ===== verification/Domain.thy ===== *)
theory Domain
  imports Py_Decimal
begin

text \<open>
  The domain layer: the order state machine and the movement types of \<open>app/domain/enums.py\<close>,
  the rows of the three tables of \<open>app/domain/models\<close>, and the exceptions of
  \<open>app/core/exceptions.py\<close> together with those that the database layer and the framework
  raise through the services. Prices are kept as whole numbers of cents, the values of a
  \<open>NUMERIC(10, 2)\<close> column; instants are microseconds since the epoch in UTC.
\<close>

section \<open>Order status and movement types\<close>

datatype order_status = PENDING | CONFIRMED | SHIPPED | DELIVERED | CANCELLED | REJECTED

datatype movement_kind = DEDUCTION | RESTORATION | ADJUSTMENT

fun order_status_value :: "order_status \<Rightarrow> string" where
  "order_status_value PENDING = ''PENDING''"
| "order_status_value CONFIRMED = ''CONFIRMED''"
| "order_status_value SHIPPED = ''SHIPPED''"
| "order_status_value DELIVERED = ''DELIVERED''"
| "order_status_value CANCELLED = ''CANCELLED''"
| "order_status_value REJECTED = ''REJECTED''"

fun movement_kind_value :: "movement_kind \<Rightarrow> string" where
  "movement_kind_value DEDUCTION = ''DEDUCTION''"
| "movement_kind_value RESTORATION = ''RESTORATION''"
| "movement_kind_value ADJUSTMENT = ''ADJUSTMENT''"

definition terminal_states :: "order_status set" where
  "terminal_states = {REJECTED, DELIVERED, CANCELLED}"

definition stock_holding_states :: "order_status set" where
  "stock_holding_states = {CONFIRMED, SHIPPED, DELIVERED}"

fun valid_transitions :: "order_status \<rightharpoonup> order_status set" where
  "valid_transitions PENDING = Some {CONFIRMED, REJECTED, CANCELLED}"
| "valid_transitions CONFIRMED = Some {SHIPPED, CANCELLED}"
| "valid_transitions SHIPPED = Some {DELIVERED, CANCELLED}"
| "valid_transitions DELIVERED = Some {}"
| "valid_transitions CANCELLED = Some {}"
| "valid_transitions REJECTED = Some {}"

definition can_transition_to :: "order_status \<Rightarrow> order_status \<Rightarrow> bool" where
  "can_transition_to s next_status =
     (next_status \<in> (case valid_transitions s of None \<Rightarrow> {} | Some ts \<Rightarrow> ts))"

lemma can_transition_to_simps [simp]:
  "can_transition_to PENDING t \<longleftrightarrow> t = CONFIRMED \<or> t = REJECTED \<or> t = CANCELLED"
  "can_transition_to CONFIRMED t \<longleftrightarrow> t = SHIPPED \<or> t = CANCELLED"
  "can_transition_to SHIPPED t \<longleftrightarrow> t = DELIVERED \<or> t = CANCELLED"
  "can_transition_to DELIVERED t \<longleftrightarrow> False"
  "can_transition_to CANCELLED t \<longleftrightarrow> False"
  "can_transition_to REJECTED t \<longleftrightarrow> False"
  by (auto simp: can_transition_to_def)

lemma order_status_value_inj: "order_status_value s = order_status_value t \<Longrightarrow> s = t"
  by (cases s; cases t) simp_all

text \<open>
  The declaration order of the members, as the linear order of the type; the transitions go
  up in it.
\<close>

fun status_rank :: "order_status \<Rightarrow> nat" where
  "status_rank PENDING = 0"
| "status_rank CONFIRMED = 1"
| "status_rank SHIPPED = 2"
| "status_rank DELIVERED = 3"
| "status_rank CANCELLED = 4"
| "status_rank REJECTED = 5"

lemma status_rank_inj: "status_rank s = status_rank t \<Longrightarrow> s = t"
  by (cases s; cases t) simp_all

instantiation order_status :: linorder
begin

definition less_eq_order_status :: "order_status \<Rightarrow> order_status \<Rightarrow> bool" where
  "less_eq_order_status s t \<longleftrightarrow> status_rank s \<le> status_rank t"

definition less_order_status :: "order_status \<Rightarrow> order_status \<Rightarrow> bool" where
  "less_order_status s t \<longleftrightarrow> status_rank s < status_rank t"

instance
  by standard (auto simp: less_eq_order_status_def less_order_status_def dest: status_rank_inj)

end

lemma can_transition_increases: "can_transition_to s t \<Longrightarrow> s < t"
  by (cases s) (auto simp: less_order_status_def)

inductive transitions_path :: "order_status \<Rightarrow> order_status list \<Rightarrow> bool" where
  path_end: "transitions_path s []"
| path_step: "can_transition_to s t \<Longrightarrow> transitions_path t ts \<Longrightarrow> transitions_path s (t # ts)"

inductive_simps transitions_path_Nil: "transitions_path s []"
inductive_simps transitions_path_Cons: "transitions_path s (t # ts)"

section \<open>Rows\<close>

record menu_item =
  item_id :: uuid
  item_name :: string
  item_description :: "string option"
  item_price :: int
  stock_quantity :: int
  low_stock_threshold :: int
  item_version :: int
  item_created_at :: int
  item_updated_at :: int

record order =
  order_id :: uuid
  order_item_id :: uuid
  quantity :: int
  status :: order_status
  customer_ref :: "string option"
  order_version :: int
  order_created_at :: int
  order_updated_at :: int

record stock_movement =
  mv_id :: uuid
  mv_item_id :: uuid
  mv_order_id :: "uuid option"
  movement_type :: movement_kind
  quantity_delta :: int
  stock_before :: int
  stock_after :: int
  reason :: "string option"
  mv_created_at :: int

text \<open>
  An object that has been constructed and not yet inserted: a function of the identifier and
  the instants that its column defaults supply at the INSERT. \<open>setdefault\<close> supplies the
  keyword arguments that the caller left out.
\<close>

definition menu_item_init ::
  "string \<Rightarrow> string option \<Rightarrow> int \<Rightarrow> int option \<Rightarrow> int option \<Rightarrow> int option
     \<Rightarrow> uuid \<Rightarrow> int \<Rightarrow> int \<Rightarrow> menu_item" where
  "menu_item_init name description price stock threshold version iid created updated =
     \<lparr>item_id = iid, item_name = name, item_description = description, item_price = price,
      stock_quantity = (case stock of None \<Rightarrow> 0 | Some n \<Rightarrow> n),
      low_stock_threshold = (case threshold of None \<Rightarrow> 10 | Some n \<Rightarrow> n),
      item_version = (case version of None \<Rightarrow> 1 | Some n \<Rightarrow> n),
      item_created_at = created, item_updated_at = updated\<rparr>"

definition is_low_stock :: "menu_item \<Rightarrow> bool" where
  "is_low_stock it \<longleftrightarrow> stock_quantity it \<le> low_stock_threshold it"

definition order_init ::
  "uuid \<Rightarrow> int \<Rightarrow> order_status option \<Rightarrow> string option \<Rightarrow> uuid \<Rightarrow> int \<Rightarrow> int \<Rightarrow> order" where
  "order_init iid qty st ref oid created updated =
     \<lparr>order_id = oid, order_item_id = iid, quantity = qty,
      status = (case st of None \<Rightarrow> PENDING | Some s \<Rightarrow> s), customer_ref = ref,
      order_version = 1, order_created_at = created, order_updated_at = updated\<rparr>"

definition stock_movement_init ::
  "uuid \<Rightarrow> uuid option \<Rightarrow> movement_kind \<Rightarrow> int \<Rightarrow> int \<Rightarrow> int \<Rightarrow> string option
     \<Rightarrow> uuid \<Rightarrow> int \<Rightarrow> stock_movement" where
  "stock_movement_init iid oid kind delta before after why mid created =
     \<lparr>mv_id = mid, mv_item_id = iid, mv_order_id = oid, movement_type = kind,
      quantity_delta = delta, stock_before = before, stock_after = after, reason = why,
      mv_created_at = created\<rparr>"

section \<open>Exceptions\<close>

datatype exn =
    NotFoundError string uuid
  | InsufficientStockError uuid int int
  | InvalidTransitionError order_status order_status
  | ConflictError string uuid
  | IntegrityError
  | DBAPIError
  | StaleDataError
  | InvalidRequestError
  | PendingRollbackError
  | InvalidOperation
  | RateLimitExceeded
  | RequestValidationError
  | ResponseValidationError
  | HTTPException int string

text \<open>\<open>str(e)\<close> of the domain exceptions, the detail of the responses.\<close>

fun exn_message :: "exn \<Rightarrow> string" where
  "exn_message (NotFoundError resource rid) = resource @ '' '' @ uuid_str rid @ '' not found''"
| "exn_message (InsufficientStockError iid requested available) =
     ''Insufficient stock for item '' @ uuid_str iid @ '': requested '' @ py_str_int requested
     @ '', available '' @ py_str_int available"
| "exn_message (InvalidTransitionError current requested) =
     ''Cannot transition order from '' @ order_status_value current @ '' to ''
     @ order_status_value requested"
| "exn_message (ConflictError resource rid) =
     ''Concurrent update conflict on '' @ resource @ '' '' @ uuid_str rid"
| "exn_message (HTTPException code detail) = detail"
| "exn_message _ = []"

fun is_HTTPException :: "exn \<Rightarrow> bool" where
  "is_HTTPException (HTTPException code detail) = True"
| "is_HTTPException _ = False"

section \<open>Properties of the state machine\<close>

text \<open>
  The state machine of \<open>enums.py\<close> is consistent with its sets: the terminal states are
  exactly the states with no way out, every transition goes strictly up in the declared
  order, so a lifecycle never returns to a state, and a lifecycle takes at most three
  transitions.
\<close>

theorem order_lifecycle:
  "(\<forall>s. s \<in> terminal_states \<longleftrightarrow> (\<forall>t. \<not> can_transition_to s t)) \<and>
   (\<forall>s t. can_transition_to s t \<longrightarrow> s < t) \<and>
   (\<forall>s ts. transitions_path s ts \<longrightarrow> length ts \<le> 3 \<and> distinct (s # ts) \<and>
        (length ts = 3 \<longrightarrow> s = PENDING \<and> last ts \<in> terminal_states))"
proof -
  have terminal: "s \<in> terminal_states \<longleftrightarrow> (\<forall>t. \<not> can_transition_to s t)" for s
    by (cases s) (auto simp: terminal_states_def)
  have shape: "ts \<in> {[], [REJECTED], [CANCELLED], [CONFIRMED], [CONFIRMED, CANCELLED],
      [CONFIRMED, SHIPPED], [CONFIRMED, SHIPPED, CANCELLED], [CONFIRMED, SHIPPED, DELIVERED]} \<and> s = PENDING \<or>
    ts \<in> {[], [CANCELLED], [SHIPPED], [SHIPPED, CANCELLED], [SHIPPED, DELIVERED]} \<and> s = CONFIRMED \<or>
    ts \<in> {[], [CANCELLED], [DELIVERED]} \<and> s = SHIPPED \<or>
    ts = [] \<and> s \<in> {DELIVERED, CANCELLED, REJECTED}"
    if "transitions_path s ts" for s ts
    using that
  proof (induction rule: transitions_path.induct)
    case (path_end s)
    show ?case by (cases s) simp_all
  next
    case (path_step s t ts)
    then show ?case by (cases s) auto
  qed
  have "length ts \<le> 3 \<and> distinct (s # ts) \<and>
      (length ts = 3 \<longrightarrow> s = PENDING \<and> last ts \<in> terminal_states)"
    if "transitions_path s ts" for s ts
    using shape [OF that] by (auto simp: terminal_states_def)
  then show ?thesis using terminal can_transition_increases by blast
qed

theorem order_lifecycle_witness:
  "transitions_path PENDING [CONFIRMED, SHIPPED, DELIVERED] \<and> (PENDING < CONFIRMED) \<and>
   distinct [PENDING, CONFIRMED, SHIPPED, DELIVERED]"
proof -
  have p: "transitions_path PENDING [CONFIRMED, SHIPPED, DELIVERED]"
    by (simp add: transitions_path_Cons transitions_path_Nil)
  have d: "distinct (PENDING # [CONFIRMED, SHIPPED, DELIVERED])" and l: "PENDING < CONFIRMED"
    using p order_lifecycle by (blast, simp)
  from p d l show ?thesis by simp
qed

end
