(* ===== verification/Settings.thy ===== *)
theory Settings
  imports Domain
begin

text \<open>
  \<open>app/core/config.py\<close> and \<open>app/core/constants.py\<close>: the settings with their defaults and
  derived properties, the builders of cache keys and the header names. The lemmas show that
  the API keys are the stripped, non-empty, comma-separated parts of the setting and that two
  items never share a cache key.
\<close>

record settings =
  db_host :: string
  db_port :: int
  db_name :: string
  db_user :: string
  db_password :: string
  redis_url :: string
  cache_ttl_seconds :: int
  enable_cache :: bool
  require_auth :: bool
  api_keys :: string
  rate_limit_stock_read :: string
  rate_limit_default :: string
  environment :: string
  log_level :: string
  low_stock_default_threshold :: int

definition default_settings :: settings where
  "default_settings =
     \<lparr>db_host = ''localhost'', db_port = 5432, db_name = ''nova_inventory'',
      db_user = ''postgres'', db_password = ''postgres'',
      redis_url = ''redis://localhost:6379'', cache_ttl_seconds = 300, enable_cache = True,
      require_auth = False, api_keys = [], rate_limit_stock_read = ''100/minute'',
      rate_limit_default = ''200/minute'', environment = ''development'',
      log_level = ''INFO'', low_stock_default_threshold = 10\<rparr>"

definition database_url :: "settings \<Rightarrow> string" where
  "database_url s =
     ''postgresql+asyncpg://'' @ db_user s @ '':'' @ db_password s
     @ ''@'' @ db_host s @ '':'' @ py_str_int (db_port s) @ ''/'' @ db_name s"

definition valid_api_keys :: "settings \<Rightarrow> string set" where
  "valid_api_keys s =
     (if api_keys s = [] then {}
      else set (map py_strip (filter (\<lambda>k. py_strip k \<noteq> []) (py_split (CHR '','') (api_keys s)))))"

definition is_production :: "settings \<Rightarrow> bool" where
  "is_production s \<longleftrightarrow> environment s = ''production''"

definition STOCK_PREFIX :: string where
  "STOCK_PREFIX = ''nova:stock:''"

definition cache_key_stock :: "uuid \<Rightarrow> string" where
  "cache_key_stock iid = STOCK_PREFIX @ uuid_str iid"

definition header_API_KEY :: string where
  "header_API_KEY = ''X-API-Key''"

definition header_REQUEST_ID :: string where
  "header_REQUEST_ID = ''X-Request-ID''"

lemma py_strip_no_char:
  assumes "c \<notin> set s"
  shows "c \<notin> set (py_strip s)"
  using assms by (auto simp: py_strip_def strip_by_def dest!: set_dropWhileD)

text \<open>
  Every configured API key is non-empty, holds no comma and neither starts nor ends with
  white space; an empty setting configures none, so with authentication on and no key set
  no key is accepted.
\<close>

theorem valid_api_keys_shape:
  "(\<forall>s k. k \<in> valid_api_keys s \<longrightarrow>
       k \<noteq> [] \<and> CHR '','' \<notin> set k \<and> \<not> py_space (hd k) \<and> \<not> py_space (last k)) \<and>
   (\<forall>s. api_keys s = [] \<longrightarrow> valid_api_keys s = {})"
proof -
  have "k \<noteq> [] \<and> CHR '','' \<notin> set k \<and> \<not> py_space (hd k) \<and> \<not> py_space (last k)"
    if "k \<in> valid_api_keys s" for s k
  proof -
    from that obtain t where t: "t \<in> set (py_split (CHR '','') (api_keys s))"
      and k: "k = py_strip t" "py_strip t \<noteq> []"
      by (auto simp: valid_api_keys_def split: if_splits)
    from k have "k \<noteq> []" by simp
    then obtain c cs where c: "k = c # cs" by (metis neq_Nil_conv)
    have "strip_by py_space t = c # cs" using k(1) c by (simp add: py_strip_def)
    then have "\<not> py_space c" and "\<not> py_space (last (c # cs))" by (rule strip_by_edges)+
    moreover have "CHR '','' \<notin> set k"
      unfolding k(1) by (rule py_strip_no_char) (rule py_split_no_sep [OF t])
    ultimately show ?thesis unfolding c by simp
  qed
  moreover have "valid_api_keys s = {}" if "api_keys s = []" for s
    using that by (simp add: valid_api_keys_def)
  ultimately show ?thesis by blast
qed

theorem valid_api_keys_shape_witness:
  "valid_api_keys (default_settings\<lparr>api_keys := ''k1, k2 ,''\<rparr>) = {''k1'', ''k2''} \<and>
   CHR '','' \<notin> set ''k2'' \<and> valid_api_keys default_settings = {}"
proof -
  have v: "valid_api_keys (default_settings\<lparr>api_keys := ''k1, k2 ,''\<rparr>) = {''k1'', ''k2''}"
    by (simp add: valid_api_keys_def py_strip_def strip_by_def py_space_def)
  then have "''k2'' \<in> valid_api_keys (default_settings\<lparr>api_keys := ''k1, k2 ,''\<rparr>)" by simp
  then have "CHR '','' \<notin> set ''k2''" using valid_api_keys_shape by blast
  moreover have "valid_api_keys default_settings = {}"
    using valid_api_keys_shape by (simp add: default_settings_def)
  ultimately show ?thesis using v by blast
qed

text \<open>The key written back: a list of clean keys joined by commas is read as those keys.\<close>

fun join_commas :: "string list \<Rightarrow> string" where
  "join_commas [] = []"
| "join_commas [k] = k"
| "join_commas (k # ks) = k @ CHR '','' # join_commas ks"

lemma py_split_join_commas:
  "ks \<noteq> [] \<Longrightarrow> \<forall>k \<in> set ks. CHR '','' \<notin> set k \<Longrightarrow> py_split (CHR '','') (join_commas ks) = ks"
  by (induction ks rule: join_commas.induct) (simp_all add: py_split_append py_split_no_sep_id)

lemma py_strip_id: "\<forall>c \<in> set k. \<not> py_space c \<Longrightarrow> py_strip k = k"
  by (simp add: py_strip_def strip_by_none)

lemma join_commas_not_Nil: "ks \<noteq> [] \<Longrightarrow> \<forall>k \<in> set ks. k \<noteq> [] \<Longrightarrow> join_commas ks \<noteq> []"
  by (induction ks rule: join_commas.induct) auto

text \<open>
  Round trip of the API keys: keys without commas or white space, joined by commas, are
  read back by \<open>valid_api_keys\<close> as exactly these keys.
\<close>

theorem valid_api_keys_roundtrip:
  assumes "\<forall>k \<in> set ks. k \<noteq> [] \<and> CHR '','' \<notin> set k \<and> (\<forall>c \<in> set k. \<not> py_space c)"
  shows "valid_api_keys (s\<lparr>api_keys := join_commas ks\<rparr>) = set ks"
proof (cases "ks = []")
  case True
  then show ?thesis by (simp add: valid_api_keys_def)
next
  case False
  with assms have split: "py_split (CHR '','') (join_commas ks) = ks" and "join_commas ks \<noteq> []"
    by (simp_all add: py_split_join_commas join_commas_not_Nil)
  have strip: "py_strip k = k" if "k \<in> set ks" for k
    using assms that by (simp add: py_strip_id)
  have "set (map py_strip (filter (\<lambda>k. py_strip k \<noteq> []) ks)) = set ks"
    using assms strip by force
  with split \<open>join_commas ks \<noteq> []\<close> show ?thesis by (simp add: valid_api_keys_def)
qed

theorem valid_api_keys_roundtrip_witness:
  "valid_api_keys (default_settings\<lparr>api_keys := join_commas [''a1'', ''b2'']\<rparr>) = {''a1'', ''b2''}"
  using valid_api_keys_roundtrip [of "[''a1'', ''b2'']" default_settings]
  by (simp add: py_space_def)

lemma cache_key_stock_inj: "cache_key_stock i = cache_key_stock j \<longleftrightarrow> i = j"
  by (auto simp: cache_key_stock_def dest: uuid_str_inj)

end
