(* ===== verification/Store.thy ===== *)
theory Store
  imports Settings
begin

text \<open>
  The database as the services see it: the three tables with the constraints that
  \<open>app/domain/models\<close> and \<open>migrations/versions/0001_initial_schema.py\<close> declare, the session
  of a request (\<open>app/db/session.py\<close>) and its transaction. A transaction is the list of the
  statements it has executed; what it reads is the committed state with these statements
  applied, and a commit applies them to the committed state. Attributes that a service
  assigns on a loaded object are pending until the next flush writes them. The environment
  (identifiers, clock, Redis client) is a parameter.
\<close>

section \<open>Tables and statements\<close>

record tables =
  menu_items :: "menu_item list"
  order_rows :: "order list"
  stock_movements :: "stock_movement list"

datatype statement =
    InsertItem menu_item
  | UpdateItem uuid "int option" "int option" int
  | InsertOrder order
  | UpdateOrder uuid order_status int int
  | InsertMovement stock_movement

definition empty_tables :: tables where
  "empty_tables = \<lparr>menu_items = [], order_rows = [], stock_movements = []\<rparr>"

definition find_item :: "uuid \<Rightarrow> tables \<Rightarrow> menu_item option" where
  "find_item i t = row_lookup item_id i (menu_items t)"

definition find_order :: "uuid \<Rightarrow> tables \<Rightarrow> order option" where
  "find_order i t = row_lookup order_id i (order_rows t)"

text \<open>The columns that an UPDATE sets: the assigned ones, and \<open>updated_at\<close> by \<open>onupdate\<close>.\<close>

definition set_item_columns :: "int option \<Rightarrow> int option \<Rightarrow> int \<Rightarrow> menu_item \<Rightarrow> menu_item" where
  "set_item_columns stock version now it =
     it\<lparr>stock_quantity := (case stock of None \<Rightarrow> stock_quantity it | Some n \<Rightarrow> n),
        item_version := (case version of None \<Rightarrow> item_version it | Some n \<Rightarrow> n),
        item_updated_at := now\<rparr>"

definition set_order_columns :: "order_status \<Rightarrow> int \<Rightarrow> int \<Rightarrow> order \<Rightarrow> order" where
  "set_order_columns st version now r =
     r\<lparr>status := st, order_version := version, order_updated_at := now\<rparr>"

definition update_item_rows :: "uuid \<Rightarrow> (menu_item \<Rightarrow> menu_item) \<Rightarrow> tables \<Rightarrow> tables" where
  "update_item_rows i f t = t\<lparr>menu_items := row_update item_id i f (menu_items t)\<rparr>"

definition update_order_rows :: "uuid \<Rightarrow> (order \<Rightarrow> order) \<Rightarrow> tables \<Rightarrow> tables" where
  "update_order_rows i f t = t\<lparr>order_rows := row_update order_id i f (order_rows t)\<rparr>"

fun apply_statement :: "statement \<Rightarrow> tables \<Rightarrow> tables" where
  "apply_statement (InsertItem it) t = t\<lparr>menu_items := menu_items t @ [it]\<rparr>"
| "apply_statement (UpdateItem i stock version now) t =
     update_item_rows i (set_item_columns stock version now) t"
| "apply_statement (InsertOrder r) t = t\<lparr>order_rows := order_rows t @ [r]\<rparr>"
| "apply_statement (UpdateOrder i st version now) t =
     update_order_rows i (set_order_columns st version now) t"
| "apply_statement (InsertMovement m) t = t\<lparr>stock_movements := stock_movements t @ [m]\<rparr>"

definition apply_statements :: "statement list \<Rightarrow> tables \<Rightarrow> tables" where
  "apply_statements ws t = fold apply_statement ws t"

lemma apply_statements_simps [simp]:
  "apply_statements [] t = t"
  "apply_statements (s # ws) t = apply_statements ws (apply_statement s t)"
  "apply_statements (ws @ vs) t = apply_statements vs (apply_statements ws t)"
  by (simp_all add: apply_statements_def)

section \<open>Constraints\<close>

definition int4 :: "int \<Rightarrow> bool" where
  "int4 n \<longleftrightarrow> - (2 ^ 31) \<le> n \<and> n < 2 ^ 31"

text \<open>The types of the columns: 32-bit integers, \<open>VARCHAR(255)\<close> and \<open>NUMERIC(10, 2)\<close>.\<close>

definition item_types_ok :: "menu_item \<Rightarrow> bool" where
  "item_types_ok it \<longleftrightarrow> length (item_name it) \<le> 255 \<and> \<bar>item_price it\<bar> < 10 ^ 10 \<and>
     int4 (stock_quantity it) \<and> int4 (low_stock_threshold it) \<and> int4 (item_version it)"

definition order_types_ok :: "order \<Rightarrow> bool" where
  "order_types_ok r \<longleftrightarrow> int4 (quantity r) \<and> int4 (order_version r) \<and>
     (case customer_ref r of None \<Rightarrow> True | Some c \<Rightarrow> length c \<le> 255)"

definition movement_types_ok :: "stock_movement \<Rightarrow> bool" where
  "movement_types_ok m \<longleftrightarrow> int4 (quantity_delta m) \<and> int4 (stock_before m) \<and> int4 (stock_after m)"

definition item_checks_ok :: "menu_item \<Rightarrow> bool" where
  "item_checks_ok it \<longleftrightarrow> 0 \<le> stock_quantity it \<and> 0 < item_price it \<and> 0 \<le> low_stock_threshold it"

definition order_checks_ok :: "order \<Rightarrow> bool" where
  "order_checks_ok r \<longleftrightarrow> 0 < quantity r"

text \<open>
  The exception a statement ends in: a value outside the type of its column (\<open>DBAPIError\<close>),
  then a violated CHECK, primary key, UNIQUE or foreign key constraint (\<open>IntegrityError\<close>).
  An ORM update of a row that is not there is \<open>StaleDataError\<close>.
\<close>

fun statement_fault :: "tables \<Rightarrow> statement \<Rightarrow> exn option" where
  "statement_fault t (InsertItem it) =
     (if \<not> item_types_ok it then Some DBAPIError
      else if \<not> item_checks_ok it \<or> item_id it \<in> item_id ` set (menu_items t)
           \<or> item_name it \<in> item_name ` set (menu_items t) then Some IntegrityError
      else None)"
| "statement_fault t (UpdateItem i stock version now) =
     (case find_item i t of
        None \<Rightarrow> Some StaleDataError
      | Some it \<Rightarrow>
          let it' = set_item_columns stock version now it
          in if \<not> item_types_ok it' then Some DBAPIError
             else if \<not> item_checks_ok it' then Some IntegrityError else None)"
| "statement_fault t (InsertOrder r) =
     (if \<not> order_types_ok r then Some DBAPIError
      else if \<not> order_checks_ok r \<or> order_id r \<in> order_id ` set (order_rows t)
           \<or> find_item (order_item_id r) t = None then Some IntegrityError
      else None)"
| "statement_fault t (UpdateOrder i st version now) =
     (if \<not> int4 version then Some DBAPIError else None)"
| "statement_fault t (InsertMovement m) =
     (if \<not> movement_types_ok m then Some DBAPIError
      else if mv_id m \<in> mv_id ` set (stock_movements t) \<or> find_item (mv_item_id m) t = None
           \<or> (case mv_order_id m of None \<Rightarrow> False | Some oid \<Rightarrow> find_order oid t = None)
      then Some IntegrityError
      else None)"

section \<open>World\<close>

record 'r redis_client =
  redis_get :: "string \<Rightarrow> 'r \<Rightarrow> (string + string option) \<times> 'r"
  redis_setex :: "string \<Rightarrow> int \<Rightarrow> string \<Rightarrow> 'r \<Rightarrow> (string + unit) \<times> 'r"
  redis_delete :: "string \<Rightarrow> 'r \<Rightarrow> (string + unit) \<times> 'r"

text \<open>
  The parameters of the model: the identifiers that \<open>uuid4()\<close> draws and the instants that
  \<open>datetime.now(UTC)\<close> reads, call by call, the settings, the Redis client, and the sort keys
  of the collation in which the database orders names.
\<close>

record 'r env =
  env_uuid4 :: "nat \<Rightarrow> uuid"
  env_utc_now :: "nat \<Rightarrow> int"
  env_settings :: settings
  env_redis :: "'r redis_client"
  env_collation :: "string \<Rightarrow> nat list"

record item_patch =
  patch_id :: uuid
  patch_stock :: "int option"
  patch_version :: "int option"

record session =
  executed :: "statement list"
  pending :: "item_patch list"
  broken :: bool

record 'r world =
  db :: tables
  sess :: session
  redis :: 'r
  calls :: nat

type_synonym ('r, 'a) io = "('r world, exn, 'a) action"

definition fresh_session :: session where
  "fresh_session = \<lparr>executed = [], pending = [], broken = False\<rparr>"

definition view :: "'r world \<Rightarrow> tables" where
  "view w = apply_statements (executed (sess w)) (db w)"

definition uuid4 :: "'r env \<Rightarrow> ('r, uuid) io" where
  "uuid4 env = (\<lambda>w. (Inr (env_uuid4 env (calls w)), w\<lparr>calls := Suc (calls w)\<rparr>))"

definition utc_now :: "'r env \<Rightarrow> ('r, int) io" where
  "utc_now env = (\<lambda>w. (Inr (env_utc_now env (calls w)), w\<lparr>calls := Suc (calls w)\<rparr>))"

section \<open>Session\<close>

text \<open>\<open>execute\<close> of a SELECT; a session whose flush failed refuses every statement.\<close>

definition session_read :: "(tables \<Rightarrow> 'a) \<Rightarrow> ('r, 'a) io" where
  "session_read q = (\<lambda>w. if broken (sess w) then (Inl PendingRollbackError, w) else (Inr (q (view w)), w))"

definition session_execute :: "statement \<Rightarrow> ('r, unit) io" where
  "session_execute s = (\<lambda>w.
     if broken (sess w) then (Inl PendingRollbackError, w)
     else case statement_fault (view w) s of
            Some e \<Rightarrow> (Inl e, w\<lparr>sess := (sess w)\<lparr>executed := [], pending := [], broken := True\<rparr>\<rparr>)
          | None \<Rightarrow> (Inr (), w\<lparr>sess := (sess w)\<lparr>executed := executed (sess w) @ [s]\<rparr>\<rparr>))"

text \<open>Assignments to a loaded item: the changed columns are pending until the next flush.\<close>

definition session_modify :: "menu_item \<Rightarrow> menu_item \<Rightarrow> ('r, unit) io" where
  "session_modify old new = (\<lambda>w.
     let p = \<lparr>patch_id = item_id old,
              patch_stock = (if stock_quantity new = stock_quantity old then None
                             else Some (stock_quantity new)),
              patch_version = (if item_version new = item_version old then None
                               else Some (item_version new))\<rparr>
     in (Inr (), w\<lparr>sess := (sess w)\<lparr>pending := pending (sess w) @ [p]\<rparr>\<rparr>))"

fun flush_patches :: "'r env \<Rightarrow> item_patch list \<Rightarrow> ('r, unit) io" where
  "flush_patches env [] = done_with ()"
| "flush_patches env (p # ps) =
     (if patch_stock p = None \<and> patch_version p = None then flush_patches env ps
      else and_then (utc_now env) (\<lambda>now.
           and_then (session_execute (UpdateItem (patch_id p) (patch_stock p) (patch_version p) now))
             (\<lambda>_. flush_patches env ps)))"

definition session_flush :: "'r env \<Rightarrow> ('r, unit) io" where
  "session_flush env = (\<lambda>w.
     flush_patches env (pending (sess w)) (w\<lparr>sess := (sess w)\<lparr>pending := []\<rparr>\<rparr>))"

definition session_commit :: "'r env \<Rightarrow> ('r, unit) io" where
  "session_commit env = (\<lambda>w.
     if broken (sess w) then (Inl PendingRollbackError, w)
     else and_then (session_flush env)
            (\<lambda>_ w'. (Inr (), w'\<lparr>db := view w', sess := fresh_session\<rparr>)) w)"

definition session_rollback :: "('r, unit) io" where
  "session_rollback = (\<lambda>w. (Inr (), w\<lparr>sess := fresh_session\<rparr>))"

text \<open>
  \<open>get_db\<close> around a handler: the handler runs where the generator yields, the \<open>try\<close> holds
  the handler and the commit after it, and the session closes at the end whatever happened.
\<close>

definition session_close :: "('r, unit) io" where
  "session_close = session_rollback"

definition get_db :: "'r env \<Rightarrow> ('r, 'a) io \<Rightarrow> ('r, 'a) io" where
  "get_db env handler = (\<lambda>w.
     let body = and_then handler (\<lambda>a. and_then (session_commit env) (\<lambda>_. done_with a));
         on_error = (\<lambda>e. if is_HTTPException e
                         then and_then (session_commit env) (\<lambda>_. raise_exn e)
                         else and_then session_rollback (\<lambda>_. raise_exn e))
     in case catching body on_error (w\<lparr>sess := fresh_session\<rparr>) of
          (r, w') \<Rightarrow> (r, snd (session_close w')))"

section \<open>Rules of the session\<close>

text \<open>The worlds that the session operations lead to, with what each keeps.\<close>

definition tick :: "'r world \<Rightarrow> 'r world" where
  "tick w = w\<lparr>calls := Suc (calls w)\<rparr>"

definition log_statement :: "statement \<Rightarrow> 'r world \<Rightarrow> 'r world" where
  "log_statement s w = w\<lparr>sess := (sess w)\<lparr>executed := executed (sess w) @ [s]\<rparr>\<rparr>"

definition break_session :: "'r world \<Rightarrow> 'r world" where
  "break_session w = w\<lparr>sess := (sess w)\<lparr>executed := [], pending := [], broken := True\<rparr>\<rparr>"

definition set_pending :: "item_patch list \<Rightarrow> 'r world \<Rightarrow> 'r world" where
  "set_pending ps w = w\<lparr>sess := (sess w)\<lparr>pending := ps\<rparr>\<rparr>"

definition open_session :: "'r world \<Rightarrow> 'r world" where
  "open_session w = w\<lparr>sess := fresh_session\<rparr>"

definition commit_view :: "'r world \<Rightarrow> 'r world" where
  "commit_view w = w\<lparr>db := view w, sess := fresh_session\<rparr>"

lemmas world_ops = tick_def log_statement_def break_session_def set_pending_def open_session_def
  commit_view_def

lemma view_simps [simp]:
  "view (tick w) = view w"
  "view (log_statement s w) = apply_statement s (view w)"
  "view (break_session w) = db w"
  "view (set_pending ps w) = view w"
  "view (open_session w) = db w"
  "view (commit_view w) = view w"
  "view (w\<lparr>redis := x\<rparr>) = view w"
  by (simp_all add: view_def world_ops fresh_session_def)

lemma db_simps [simp]:
  "db (tick w) = db w" "db (log_statement s w) = db w" "db (break_session w) = db w"
  "db (set_pending ps w) = db w" "db (open_session w) = db w" "db (commit_view w) = view w"
  by (simp_all add: world_ops)

lemma broken_simps [simp]:
  "broken (sess (tick w)) = broken (sess w)"
  "broken (sess (log_statement s w)) = broken (sess w)"
  "broken (sess (break_session w)) = True"
  "broken (sess (set_pending ps w)) = broken (sess w)"
  "broken (sess (open_session w)) = False"
  "broken (sess (commit_view w)) = False"
  "broken fresh_session = False"
  by (simp_all add: world_ops fresh_session_def)

lemma pending_simps [simp]:
  "pending (sess (tick w)) = pending (sess w)"
  "pending (sess (log_statement s w)) = pending (sess w)"
  "pending (sess (break_session w)) = []"
  "pending (sess (set_pending ps w)) = ps"
  "pending (sess (open_session w)) = []"
  "pending (sess (commit_view w)) = []"
  "pending fresh_session = []"
  by (simp_all add: world_ops fresh_session_def)

lemma redis_simps [simp]:
  "redis (tick w) = redis w" "redis (log_statement s w) = redis w"
  "redis (break_session w) = redis w" "redis (set_pending ps w) = redis w"
  "redis (open_session w) = redis w" "redis (commit_view w) = redis w"
  by (simp_all add: world_ops)

lemma calls_simps [simp]:
  "calls (tick w) = Suc (calls w)" "calls (log_statement s w) = calls w"
  "calls (break_session w) = calls w" "calls (set_pending ps w) = calls w"
  "calls (open_session w) = calls w" "calls (commit_view w) = calls w"
  by (simp_all add: world_ops)

lemma sess_closed [simp]:
  "sess (open_session w) = fresh_session" "sess (commit_view w) = fresh_session"
  by (simp_all add: world_ops)

lemma wp_uuid4 [wp_rules]: "wp (uuid4 env) Q w = Q (Inr (env_uuid4 env (calls w))) (tick w)"
  by (simp add: wp_def uuid4_def tick_def)

lemma wp_utc_now [wp_rules]: "wp (utc_now env) Q w = Q (Inr (env_utc_now env (calls w))) (tick w)"
  by (simp add: wp_def utc_now_def tick_def)

lemma wp_session_read [wp_rules]:
  "wp (session_read q) Q w =
     (if broken (sess w) then Q (Inl PendingRollbackError) w else Q (Inr (q (view w))) w)"
  by (simp add: wp_def session_read_def)

lemma wp_session_execute [wp_rules]:
  "wp (session_execute s) Q w =
     (if broken (sess w) then Q (Inl PendingRollbackError) w
      else case statement_fault (view w) s of
             Some e \<Rightarrow> Q (Inl e) (break_session w)
           | None \<Rightarrow> Q (Inr ()) (log_statement s w))"
  by (simp add: wp_def session_execute_def break_session_def log_statement_def split: option.split)

text \<open>The patch of an assignment, and the columns it changes.\<close>

definition patch_of :: "menu_item \<Rightarrow> menu_item \<Rightarrow> item_patch" where
  "patch_of old new =
     \<lparr>patch_id = item_id old,
      patch_stock = (if stock_quantity new = stock_quantity old then None else Some (stock_quantity new)),
      patch_version = (if item_version new = item_version old then None else Some (item_version new))\<rparr>"

lemma wp_session_modify [wp_rules]:
  "wp (session_modify old new) Q w =
     Q (Inr ()) (set_pending (pending (sess w) @ [patch_of old new]) w)"
  by (simp add: wp_def session_modify_def patch_of_def set_pending_def Let_def)

lemma wp_flush_Nil [wp_rules]: "wp (flush_patches env []) Q w = Q (Inr ()) w"
  by (simp add: wp_done_with)

lemma wp_flush_Cons [wp_rules]:
  "wp (flush_patches env (p # ps)) Q w =
     (if patch_stock p = None \<and> patch_version p = None then wp (flush_patches env ps) Q w
      else if broken (sess w) then Q (Inl PendingRollbackError) (tick w)
      else let u = UpdateItem (patch_id p) (patch_stock p) (patch_version p) (env_utc_now env (calls w))
           in case statement_fault (view w) u of
                Some e \<Rightarrow> Q (Inl e) (break_session (tick w))
              | None \<Rightarrow> wp (flush_patches env ps) Q (log_statement u (tick w)))"
  unfolding flush_patches.simps wp_if
  by (simp add: wp_rules Let_def split: option.split)

declare flush_patches.simps [simp del]

lemma wp_session_flush [wp_rules]:
  "wp (session_flush env) Q w = wp (flush_patches env (pending (sess w))) Q (set_pending [] w)"
  by (simp add: wp_def session_flush_def set_pending_def)

lemma wp_session_commit [wp_rules]:
  "wp (session_commit env) Q w =
     (if broken (sess w) then Q (Inl PendingRollbackError) w
      else wp (session_flush env)
             (\<lambda>r w'. case r of Inl e \<Rightarrow> Q (Inl e) w' | Inr _ \<Rightarrow> Q (Inr ()) (commit_view w')) w)"
  by (simp add: wp_def session_commit_def and_then_def commit_view_def split: prod.split sum.split)

lemma wp_session_rollback [wp_rules]: "wp session_rollback Q w = Q (Inr ()) (open_session w)"
  by (simp add: wp_def session_rollback_def open_session_def)

lemma wp_get_db:
  "wp (get_db env handler) Q w =
     wp (catching (and_then handler (\<lambda>a. and_then (session_commit env) (\<lambda>_. done_with a)))
          (\<lambda>e. if is_HTTPException e then and_then (session_commit env) (\<lambda>_. raise_exn e)
               else and_then session_rollback (\<lambda>_. raise_exn e)))
       (\<lambda>r w'. Q r (open_session w')) (open_session w)"
  by (simp add: wp_def get_db_def Let_def session_close_def session_rollback_def open_session_def
      split: prod.split)

text \<open>
  What a handler that leaves nothing pending leads to: the commit after a value and after an
  \<open>HTTPException\<close> makes the statements of the transaction the committed state, anything else
  leaves the committed state as it was.
\<close>

definition committing :: "exn + 'a \<Rightarrow> bool" where
  "committing r \<longleftrightarrow> (case r of Inr _ \<Rightarrow> True | Inl e \<Rightarrow> is_HTTPException e)"

lemma get_db_committed:
  assumes "handler (open_session w) = (r, w1)" and "committing r"
    and "\<not> broken (sess w1)" and "pending (sess w1) = []"
  shows "get_db env handler w = (r, open_session (commit_view (set_pending [] w1)))"
proof -
  have "wp (get_db env handler) (\<lambda>r' w'. r' = r \<and> w' = open_session (commit_view (set_pending [] w1))) w"
    using assms
    by (cases r) (simp_all add: wp_get_db wp_rules wp_result [of handler] committing_def)
  then show ?thesis by (rule wp_eqI)
qed

lemma get_db_rolled_back:
  assumes "handler (open_session w) = (Inl e, w1)" and "\<not> is_HTTPException e"
  shows "get_db env handler w = (Inl e, open_session w1)"
proof -
  have "wp (get_db env handler) (\<lambda>r' w'. r' = Inl e \<and> w' = open_session w1) w"
    using assms by (simp add: wp_get_db wp_rules wp_result [of handler] open_session_def)
  then show ?thesis by (rule wp_eqI)
qed

text \<open>
  An invariant of the committed state is kept by a request whose handler keeps it in its
  transaction whenever that transaction will be committed.
\<close>

definition keeps :: "(tables \<Rightarrow> bool) \<Rightarrow> tables \<Rightarrow> exn + 'a \<Rightarrow> 'r world \<Rightarrow> bool" where
  "keeps I t r w \<longleftrightarrow> db w = t \<and>
     (broken (sess w) \<or> \<not> committing r \<or> pending (sess w) = [] \<and> I (view w))"

lemma get_db_keeps:
  assumes "wp handler (keeps I (db w)) (open_session w)" and "I (db w)"
  shows "I (db (snd (get_db env handler w)))"
proof -
  obtain r w1 where h: "handler (open_session w) = (r, w1)" by fastforce
  with assms(1) have k: "keeps I (db w) r w1" by (simp add: wp_def)
  have "wp (get_db env handler) (\<lambda>r' w'. I (db w')) w"
    using k assms(2)
    by (cases r) (auto simp: wp_get_db wp_rules wp_result [of handler] h keeps_def committing_def)
  then show ?thesis by (simp add: wp_result)
qed

lemma get_db_closed: "sess (snd (get_db env handler w)) = fresh_session"
  by (simp add: get_db_def session_close_def session_rollback_def Let_def split: prod.split)

section \<open>The tables by key\<close>

interpretation item_table: keyed_table item_id find_item menu_items update_item_rows
  by unfold_locales (simp_all add: find_item_def update_item_rows_def)

interpretation order_table: keyed_table order_id find_order order_rows update_order_rows
  by unfold_locales (simp_all add: find_order_def update_order_rows_def)

lemma column_keys [simp]:
  "item_id (set_item_columns stock version now it) = item_id it"
  "order_id (set_order_columns st v now r) = order_id r"
  by (simp_all add: set_item_columns_def set_order_columns_def)

lemma set_order_columns_simps [simp]:
  "status (set_order_columns st v now r) = st"
  "order_version (set_order_columns st v now r) = v"
  "quantity (set_order_columns st v now r) = quantity r"
  "order_item_id (set_order_columns st v now r) = order_item_id r"
  "customer_ref (set_order_columns st v now r) = customer_ref r"
  "order_created_at (set_order_columns st v now r) = order_created_at r"
  "order_updated_at (set_order_columns st v now r) = now"
  by (simp_all add: set_order_columns_def)

lemma set_item_columns_simps [simp]:
  "stock_quantity (set_item_columns (Some n) v now it) = n"
  "stock_quantity (set_item_columns None v now it) = stock_quantity it"
  "item_version (set_item_columns s (Some k) now it) = k"
  "item_version (set_item_columns s None now it) = item_version it"
  "item_name (set_item_columns s v now it) = item_name it"
  "item_price (set_item_columns s v now it) = item_price it"
  "low_stock_threshold (set_item_columns s v now it) = low_stock_threshold it"
  "item_updated_at (set_item_columns s v now it) = now"
  by (simp_all add: set_item_columns_def)

lemma find_item_statement [table_simps]:
  "find_item i (apply_statement (InsertItem it) t) =
     (case find_item i t of None \<Rightarrow> if item_id it = i then Some it else None | Some x \<Rightarrow> Some x)"
  "find_item i (apply_statement (UpdateItem j s v now) t) =
     (if i = j then map_option (set_item_columns s v now) (find_item j t) else find_item i t)"
  "find_item i (apply_statement (InsertOrder r) t) = find_item i t"
  "find_item i (apply_statement (UpdateOrder j st v' now) t) = find_item i t"
  "find_item i (apply_statement (InsertMovement m) t) = find_item i t"
  by (simp_all add: item_table.fetch_write)
     (simp_all add: find_item_def row_lookup_append update_order_rows_def split: option.split)

lemma find_order_statement [table_simps]:
  "find_order i (apply_statement (InsertItem it) t) = find_order i t"
  "find_order i (apply_statement (UpdateItem j s v now) t) = find_order i t"
  "find_order i (apply_statement (InsertOrder r) t) =
     (case find_order i t of None \<Rightarrow> if order_id r = i then Some r else None | Some x \<Rightarrow> Some x)"
  "find_order i (apply_statement (UpdateOrder j st v' now) t) =
     (if i = j then map_option (set_order_columns st v' now) (find_order j t) else find_order i t)"
  "find_order i (apply_statement (InsertMovement m) t) = find_order i t"
  by (simp_all add: order_table.fetch_write)
     (simp_all add: find_order_def row_lookup_append update_item_rows_def split: option.split)

lemma movements_statement [table_simps]:
  "stock_movements (apply_statement (InsertItem it) t) = stock_movements t"
  "stock_movements (apply_statement (UpdateItem j s v now) t) = stock_movements t"
  "stock_movements (apply_statement (InsertOrder r) t) = stock_movements t"
  "stock_movements (apply_statement (UpdateOrder j st v' now) t) = stock_movements t"
  "stock_movements (apply_statement (InsertMovement m) t) = stock_movements t @ [m]"
  by (simp_all add: update_item_rows_def update_order_rows_def)

lemma rows_statement [table_simps]:
  "menu_items (apply_statement (InsertItem it) t) = menu_items t @ [it]"
  "menu_items (apply_statement (UpdateItem j s v now) t) =
     row_update item_id j (set_item_columns s v now) (menu_items t)"
  "menu_items (apply_statement (InsertOrder r) t) = menu_items t"
  "menu_items (apply_statement (UpdateOrder j st v' now) t) = menu_items t"
  "menu_items (apply_statement (InsertMovement m) t) = menu_items t"
  "order_rows (apply_statement (InsertItem it) t) = order_rows t"
  "order_rows (apply_statement (UpdateItem j s v now) t) = order_rows t"
  "order_rows (apply_statement (InsertOrder r) t) = order_rows t @ [r]"
  "order_rows (apply_statement (UpdateOrder j st v' now) t) =
     row_update order_id j (set_order_columns st v' now) (order_rows t)"
  "order_rows (apply_statement (InsertMovement m) t) = order_rows t"
  by (simp_all add: update_item_rows_def update_order_rows_def)

declare apply_statement.simps [simp del]
declare statement_fault.simps [simp del]

end
