(* ===== verification/Cache.thy ===== *)
theory Cache
  imports Store
begin

text \<open>
  \<open>app/core/cache.py\<close> and the dependency \<open>get_cache\<close> of \<open>app/api/v1/deps.py\<close>: the stock cache
  over a Redis client, or no cache at all. The client is a parameter: its operations may
  answer or raise, and what the services rely on when it works is \<open>redis_laws\<close>, the
  documented behaviour of GET, SETEX and DEL on one key and on two different keys. The
  interface the services use is the locale \<open>stock_cache\<close>.
\<close>

type_synonym 'r cache_service = "'r redis_client option"

definition get_redis :: "'r env \<Rightarrow> 'r redis_client option" where
  "get_redis env = (if \<not> enable_cache (env_settings env) then None else Some (env_redis env))"

text \<open>A \<open>CacheService\<close> is the client it holds.\<close>

definition cache_service_init :: "'r redis_client option \<Rightarrow> 'r cache_service" where
  "cache_service_init client = client"

definition get_cache :: "'r env \<Rightarrow> 'r cache_service" where
  "get_cache env = cache_service_init (get_redis env)"

section \<open>Operations\<close>

definition cache_get_stock :: "'r cache_service \<Rightarrow> uuid \<Rightarrow> ('r, int option) io" where
  "cache_get_stock cache iid = (\<lambda>w.
     case cache of
       None \<Rightarrow> (Inr None, w)
     | Some client \<Rightarrow>
         (case redis_get client (cache_key_stock iid) (redis w) of
            (Inl _, r') \<Rightarrow> (Inr None, w\<lparr>redis := r'\<rparr>)
          | (Inr None, r') \<Rightarrow> (Inr None, w\<lparr>redis := r'\<rparr>)
          | (Inr (Some v), r') \<Rightarrow> (Inr (py_int_of_bytes v), w\<lparr>redis := r'\<rparr>)))"

definition cache_set_stock :: "'r env \<Rightarrow> 'r cache_service \<Rightarrow> uuid \<Rightarrow> int \<Rightarrow> ('r, unit) io" where
  "cache_set_stock env cache iid qty = (\<lambda>w.
     case cache of
       None \<Rightarrow> (Inr (), w)
     | Some client \<Rightarrow>
         (case redis_setex client (cache_key_stock iid) (cache_ttl_seconds (env_settings env))
                 (py_str_int qty) (redis w) of
            (_, r') \<Rightarrow> (Inr (), w\<lparr>redis := r'\<rparr>)))"

definition cache_invalidate_stock :: "'r cache_service \<Rightarrow> uuid \<Rightarrow> ('r, unit) io" where
  "cache_invalidate_stock cache iid = (\<lambda>w.
     case cache of
       None \<Rightarrow> (Inr (), w)
     | Some client \<Rightarrow>
         (case redis_delete client (cache_key_stock iid) (redis w) of
            (_, r') \<Rightarrow> (Inr (), w\<lparr>redis := r'\<rparr>)))"

section \<open>The effect on the Redis state, and the answer of a read\<close>

definition cached :: "'r cache_service \<Rightarrow> uuid \<Rightarrow> 'r \<Rightarrow> int option" where
  "cached cache iid r =
     (case cache of None \<Rightarrow> None
      | Some client \<Rightarrow> (case fst (redis_get client (cache_key_stock iid) r) of
            Inr (Some v) \<Rightarrow> py_int_of_bytes v | _ \<Rightarrow> None))"

definition after_get :: "'r cache_service \<Rightarrow> uuid \<Rightarrow> 'r \<Rightarrow> 'r" where
  "after_get cache iid r =
     (case cache of None \<Rightarrow> r | Some client \<Rightarrow> snd (redis_get client (cache_key_stock iid) r))"

definition after_set :: "'r env \<Rightarrow> 'r cache_service \<Rightarrow> uuid \<Rightarrow> int \<Rightarrow> 'r \<Rightarrow> 'r" where
  "after_set env cache iid qty r =
     (case cache of None \<Rightarrow> r
      | Some client \<Rightarrow> snd (redis_setex client (cache_key_stock iid)
            (cache_ttl_seconds (env_settings env)) (py_str_int qty) r))"

definition after_invalidate :: "'r cache_service \<Rightarrow> uuid \<Rightarrow> 'r \<Rightarrow> 'r" where
  "after_invalidate cache iid r =
     (case cache of None \<Rightarrow> r | Some client \<Rightarrow> snd (redis_delete client (cache_key_stock iid) r))"

lemma wp_cache_get_stock [wp_rules]:
  "wp (cache_get_stock cache iid) Q w =
     Q (Inr (cached cache iid (redis w))) (w\<lparr>redis := after_get cache iid (redis w)\<rparr>)"
  by (cases cache)
     (simp_all add: wp_def cache_get_stock_def cached_def after_get_def
        split: prod.split sum.split option.split)

lemma wp_cache_set_stock [wp_rules]:
  "wp (cache_set_stock env cache iid qty) Q w =
     Q (Inr ()) (w\<lparr>redis := after_set env cache iid qty (redis w)\<rparr>)"
  by (cases cache) (simp_all add: wp_def cache_set_stock_def after_set_def split: prod.split)

lemma wp_cache_invalidate_stock [wp_rules]:
  "wp (cache_invalidate_stock cache iid) Q w =
     Q (Inr ()) (w\<lparr>redis := after_invalidate cache iid (redis w)\<rparr>)"
  by (cases cache) (simp_all add: wp_def cache_invalidate_stock_def after_invalidate_def split: prod.split)

lemma redis_update_simps [simp]:
  "sess (w\<lparr>redis := r\<rparr>) = sess w" "db (w\<lparr>redis := r\<rparr>) = db w" "calls (w\<lparr>redis := r\<rparr>) = calls w"
  by simp_all

lemma set_pending_redis [simp]:
  "set_pending ps (w\<lparr>redis := r\<rparr>) = (set_pending ps w)\<lparr>redis := r\<rparr>"
  "set_pending ps (tick w) = tick (set_pending ps w)"
  "set_pending ps (set_pending qs w) = set_pending ps w"
  by (simp_all add: world_ops)

section \<open>The interface of the services\<close>

text \<open>
  A cache over a state: a read answers a quantity or nothing, a write concerns one item. The
  laws say that what is read after a write of an item is what was written, and that no
  operation makes an entry up: entries may only disappear (they expire, they are evicted, a
  read may fail).
\<close>

locale stock_cache =
  fixes look :: "uuid \<Rightarrow> 'r \<Rightarrow> int option"
    and read_step :: "uuid \<Rightarrow> 'r \<Rightarrow> 'r"
    and write_step :: "uuid \<Rightarrow> int \<Rightarrow> 'r \<Rightarrow> 'r"
    and drop_step :: "uuid \<Rightarrow> 'r \<Rightarrow> 'r"
    and storable :: "int \<Rightarrow> bool"
  assumes look_write: "storable q \<Longrightarrow> look i (write_step i q r) = Some p \<Longrightarrow> p = q"
    and look_write_other: "i \<noteq> j \<Longrightarrow> look j (write_step i q r) = Some p \<Longrightarrow> look j r = Some p"
    and look_read: "look j (read_step i r) = Some p \<Longrightarrow> look j r = Some p"
    and look_drop: "look i (drop_step i r) = None"
    and look_drop_other: "i \<noteq> j \<Longrightarrow> look j (drop_step i r) = Some p \<Longrightarrow> look j r = Some p"
begin

definition coherent :: "(uuid \<Rightarrow> int option) \<Rightarrow> 'r \<Rightarrow> bool" where
  "coherent stock r \<longleftrightarrow> (\<forall>i q. look i r = Some q \<longrightarrow> stock i = Some q)"

lemma coherentD: "coherent stock r \<Longrightarrow> look i r = Some q \<Longrightarrow> stock i = Some q"
  by (simp add: coherent_def)

lemma coherent_read: "coherent stock r \<Longrightarrow> coherent stock (read_step i r)"
  unfolding coherent_def by (meson look_read)

lemma coherent_write:
  assumes "coherent stock r" and "storable q"
    and "stock' i = Some q" and "\<And>j. j \<noteq> i \<Longrightarrow> stock' j = stock j"
  shows "coherent stock' (write_step i q r)"
  unfolding coherent_def
proof (intro allI impI)
  fix j p
  assume look: "look j (write_step i q r) = Some p"
  show "stock' j = Some p"
  proof (cases "i = j")
    case True
    then show ?thesis using look_write [OF assms(2)] look assms(3) by blast
  next
    case False
    have "stock j = Some p" by (rule coherentD [OF assms(1) look_write_other [OF False look]])
    with False assms(4) show ?thesis by simp
  qed
qed

lemma coherent_drop: "coherent stock r \<Longrightarrow> coherent stock (drop_step i r)"
  unfolding coherent_def by (metis look_drop look_drop_other option.discI)

end

text \<open>
  A Redis server on which the cache stays coherent: after SETEX k the only value that GET k
  may answer is the one written, after DEL k it answers none, GET changes nothing, and no
  operation touches the value of another key. These are the documented effects of the three
  commands when they succeed. The laws also bind a command that raises, so they exclude a
  server that is lost between two writes and later serves the older entry (what the service
  does then is stated with the stock read). GET may fail, and entries may
  expire or be evicted at any time.
\<close>

definition redis_reads :: "'r redis_client \<Rightarrow> string \<Rightarrow> 'r \<Rightarrow> string \<Rightarrow> bool" where
  "redis_reads client k r v \<longleftrightarrow> fst (redis_get client k r) = Inr (Some v)"

definition redis_laws :: "'r redis_client \<Rightarrow> int \<Rightarrow> bool" where
  "redis_laws client ttl \<longleftrightarrow>
     (\<forall>k v r x. redis_reads client k (snd (redis_setex client k ttl v r)) x \<longrightarrow> x = v) \<and>
     (\<forall>k k' v r x. k \<noteq> k' \<longrightarrow>
        redis_reads client k' (snd (redis_setex client k ttl v r)) x \<longrightarrow> redis_reads client k' r x) \<and>
     (\<forall>k k' r x. redis_reads client k' (snd (redis_get client k r)) x \<longrightarrow> redis_reads client k' r x) \<and>
     (\<forall>k r x. \<not> redis_reads client k (snd (redis_delete client k r)) x) \<and>
     (\<forall>k k' r x. k \<noteq> k' \<longrightarrow>
        redis_reads client k' (snd (redis_delete client k r)) x \<longrightarrow> redis_reads client k' r x)"

lemma cached_Some_iff:
  "cached (Some client) i r = Some q \<longleftrightarrow>
     (\<exists>v. redis_reads client (cache_key_stock i) r v \<and> py_int_of_bytes v = Some q)"
  by (auto simp: cached_def redis_reads_def split: sum.splits option.splits)

lemma redis_lawsD:
  assumes "redis_laws client ttl"
  shows "redis_reads client k (snd (redis_setex client k ttl v r)) x \<Longrightarrow> x = v"
    and "k \<noteq> k' \<Longrightarrow> redis_reads client k' (snd (redis_setex client k ttl v r)) x \<Longrightarrow>
           redis_reads client k' r x"
    and "redis_reads client k' (snd (redis_get client k r)) x \<Longrightarrow> redis_reads client k' r x"
    and "\<not> redis_reads client k (snd (redis_delete client k r)) x"
    and "k \<noteq> k' \<Longrightarrow> redis_reads client k' (snd (redis_delete client k r)) x \<Longrightarrow>
           redis_reads client k' r x"
proof -
  note laws = assms [unfolded redis_laws_def]
  show "redis_reads client k (snd (redis_setex client k ttl v r)) x \<Longrightarrow> x = v"
    by (rule laws [THEN conjunct1, rule_format])
  show "k \<noteq> k' \<Longrightarrow> redis_reads client k' (snd (redis_setex client k ttl v r)) x \<Longrightarrow>
      redis_reads client k' r x"
    by (rule laws [THEN conjunct2, THEN conjunct1, rule_format])
  show "redis_reads client k' (snd (redis_get client k r)) x \<Longrightarrow> redis_reads client k' r x"
    by (rule laws [THEN conjunct2, THEN conjunct2, THEN conjunct1, rule_format])
  show "\<not> redis_reads client k (snd (redis_delete client k r)) x"
    by (rule laws [THEN conjunct2, THEN conjunct2, THEN conjunct2, THEN conjunct1, rule_format])
  show "k \<noteq> k' \<Longrightarrow> redis_reads client k' (snd (redis_delete client k r)) x \<Longrightarrow>
      redis_reads client k' r x"
    by (rule laws [THEN conjunct2, THEN conjunct2, THEN conjunct2, THEN conjunct2, rule_format])
qed

lemma stock_cache_of_redis:
  fixes client :: "'r redis_client" and env :: "'r env"
  assumes laws: "redis_laws client (cache_ttl_seconds (env_settings env))"
  shows "stock_cache (cached (Some client)) (after_get (Some client))
           (after_set env (Some client)) (after_invalidate (Some client)) int4"
proof
  fix q i j p and r :: 'r
  show "p = q" if "int4 q" "cached (Some client) i (after_set env (Some client) i q r) = Some p"
  proof -
    have q: "\<bar>q\<bar> < 10 ^ 18" using that(1) by (simp add: int4_def abs_less_iff)
    from that(2) obtain v where v: "redis_reads client (cache_key_stock i)
        (after_set env (Some client) i q r) v" "py_int_of_bytes v = Some p"
      unfolding cached_Some_iff by blast
    then have "v = py_str_int q" using redis_lawsD(1) [OF laws] by (simp add: after_set_def)
    with v(2) py_int_str_roundtrip [OF q] show ?thesis by simp
  qed
  show "cached (Some client) j r = Some p"
    if "i \<noteq> j" and look: "cached (Some client) j (after_set env (Some client) i q r) = Some p"
  proof -
    have "cache_key_stock i \<noteq> cache_key_stock j" using that(1) by (simp add: cache_key_stock_inj)
    from redis_lawsD(2) [OF laws this] look show ?thesis
      unfolding cached_Some_iff by (auto simp: after_set_def)
  qed
  show "cached (Some client) j r = Some p"
    if "cached (Some client) j (after_get (Some client) i r) = Some p"
    using that redis_lawsD(3) [OF laws, of "cache_key_stock j" "cache_key_stock i" r]
    unfolding cached_Some_iff by (auto simp: after_get_def)
  show "cached (Some client) i (after_invalidate (Some client) i r) = None"
  proof (rule ccontr)
    assume "cached (Some client) i (after_invalidate (Some client) i r) \<noteq> None"
    then obtain v where "redis_reads client (cache_key_stock i) (after_invalidate (Some client) i r) v"
      unfolding not_None_eq cached_Some_iff by blast
    with redis_lawsD(4) [OF laws] show False by (simp add: after_invalidate_def)
  qed
  show "cached (Some client) j r = Some p"
    if "i \<noteq> j" and look: "cached (Some client) j (after_invalidate (Some client) i r) = Some p"
  proof -
    have "cache_key_stock i \<noteq> cache_key_stock j" using that(1) by (simp add: cache_key_stock_inj)
    from redis_lawsD(5) [OF laws this] look show ?thesis
      unfolding cached_Some_iff by (auto simp: after_invalidate_def)
  qed
qed

interpretation no_cache: stock_cache "cached None" "after_get None" "after_set env None"
  "after_invalidate None" int4
  by unfold_locales (simp_all add: cached_def after_get_def after_set_def after_invalidate_def)

text \<open>The cache that a deployment uses: none, or one over a server that keeps the laws.\<close>

definition cache_ok :: "'r env \<Rightarrow> 'r cache_service \<Rightarrow> bool" where
  "cache_ok env cache \<longleftrightarrow>
     (case cache of None \<Rightarrow> True
      | Some client \<Rightarrow> redis_laws client (cache_ttl_seconds (env_settings env)))"

locale cache_deployment =
  fixes env :: "'r env" and cache :: "'r cache_service"
  assumes deployed: "cache_ok env cache"

sublocale cache_deployment < stock_cache
  "cached cache" "after_get cache" "after_set env cache" "after_invalidate cache" int4
  using deployed stock_cache_of_redis no_cache.stock_cache_axioms
  by (cases cache) (auto simp: cache_ok_def)

interpretation uncached: cache_deployment env None
  by unfold_locales (simp add: cache_ok_def)

text \<open>The entries agree with the stock of the committed rows.\<close>

definition stock_of :: "tables \<Rightarrow> uuid \<Rightarrow> int option" where
  "stock_of t i = map_option stock_quantity (find_item i t)"

definition cache_coherent :: "'r cache_service \<Rightarrow> tables \<Rightarrow> 'r \<Rightarrow> bool" where
  "cache_coherent cache t r \<longleftrightarrow> (\<forall>i q. cached cache i r = Some q \<longrightarrow> stock_of t i = Some q)"

text \<open>This is the coherence of the interface, so the operations keep it by its laws.\<close>

context cache_deployment
begin

lemma coherent_iff: "cache_coherent cache t r \<longleftrightarrow> coherent (stock_of t) r"
  by (simp add: cache_coherent_def coherent_def)

lemma coherent_get: "cache_coherent cache t r \<Longrightarrow> cache_coherent cache t (after_get cache i r)"
  by (simp add: coherent_iff coherent_read)

lemma coherent_set:
  assumes "cache_coherent cache t r" and "int4 q"
    and "stock_of t' i = Some q" and "\<And>j. j \<noteq> i \<Longrightarrow> stock_of t' j = stock_of t j"
  shows "cache_coherent cache t' (after_set env cache i q r)"
  using coherent_write assms by (simp add: coherent_iff)

end

lemma cache_coherent_get:
  "cache_ok env cache \<Longrightarrow> cache_coherent cache t r \<Longrightarrow> cache_coherent cache t (after_get cache i r)"
  by (rule cache_deployment.coherent_get [OF cache_deployment.intro])

lemma cache_coherent_set:
  assumes "cache_ok env cache" and "cache_coherent cache t r" and "int4 q"
    and "stock_of t' i = Some q" and "\<And>j. j \<noteq> i \<Longrightarrow> stock_of t' j = stock_of t j"
  shows "cache_coherent cache t' (after_set env cache i q r)"
  by (rule cache_deployment.coherent_set [OF cache_deployment.intro [OF assms(1)] assms(2-5)])

lemma cache_coherent_cong:
  "(\<And>i. stock_of t' i = stock_of t i) \<Longrightarrow> cache_coherent cache t' r = cache_coherent cache t r"
  by (simp add: cache_coherent_def)

end
