(* ===== verification/Repositories.thy ===== *)
theory Repositories
  imports Cache "HOL-Library.List_Lexorder"
begin

text \<open>
  \<open>app/repositories\<close>: the queries and statements of the three repositories over the session.
  A query is a function of the tables that the transaction sees; rows with equal keys of an
  ORDER BY keep the order of the table here, and no property depends on it.
\<close>

section \<open>Items\<close>

text \<open>\<open>add\<close>, \<open>flush\<close>: the pending changes, the column defaults, then the INSERT.\<close>

definition session_insert_item :: "'r env \<Rightarrow> (uuid \<Rightarrow> int \<Rightarrow> int \<Rightarrow> menu_item) \<Rightarrow> ('r, menu_item) io" where
  "session_insert_item env new =
     and_then (session_flush env) (\<lambda>_.
     and_then (uuid4 env) (\<lambda>iid.
     and_then (utc_now env) (\<lambda>created.
     and_then (utc_now env) (\<lambda>updated.
     and_then (session_execute (InsertItem (new iid created updated))) (\<lambda>_.
     done_with (new iid created updated))))))"

definition session_refresh_item :: "menu_item \<Rightarrow> ('r, menu_item) io" where
  "session_refresh_item it =
     and_then (session_read (find_item (item_id it))) (\<lambda>row.
     case row of None \<Rightarrow> raise_exn InvalidRequestError | Some it' \<Rightarrow> done_with it')"

definition item_create :: "'r env \<Rightarrow> (uuid \<Rightarrow> int \<Rightarrow> int \<Rightarrow> menu_item) \<Rightarrow> ('r, menu_item) io" where
  "item_create env new = and_then (session_insert_item env new) session_refresh_item"

definition item_get_by_id :: "uuid \<Rightarrow> ('r, menu_item option) io" where
  "item_get_by_id iid = session_read (find_item iid)"

text \<open>The same SELECT with \<open>FOR UPDATE\<close>; in one transaction alone the lock is granted at once.\<close>

definition item_get_by_id_with_lock :: "uuid \<Rightarrow> ('r, menu_item option) io" where
  "item_get_by_id_with_lock iid = session_read (find_item iid)"

definition all_items_by_name :: "'r env \<Rightarrow> tables \<Rightarrow> menu_item list" where
  "all_items_by_name env t = sort_key (\<lambda>it. env_collation env (item_name it)) (menu_items t)"

definition item_list_all :: "'r env \<Rightarrow> ('r, menu_item list) io" where
  "item_list_all env = session_read (all_items_by_name env)"

definition low_stock_items :: "tables \<Rightarrow> menu_item list" where
  "low_stock_items t =
     sort_key stock_quantity (filter (\<lambda>it. stock_quantity it \<le> low_stock_threshold it) (menu_items t))"

definition item_list_low_stock :: "('r, menu_item list) io" where
  "item_list_low_stock = session_read low_stock_items"

definition item_save :: "'r env \<Rightarrow> menu_item \<Rightarrow> ('r, menu_item) io" where
  "item_save env it = and_then (session_flush env) (\<lambda>_. session_refresh_item it)"

section \<open>Orders\<close>

definition session_refresh_order :: "order \<Rightarrow> ('r, order) io" where
  "session_refresh_order r =
     and_then (session_read (find_order (order_id r))) (\<lambda>row.
     case row of None \<Rightarrow> raise_exn InvalidRequestError | Some r' \<Rightarrow> done_with r')"

definition order_create :: "'r env \<Rightarrow> (uuid \<Rightarrow> int \<Rightarrow> int \<Rightarrow> order) \<Rightarrow> ('r, order) io" where
  "order_create env new =
     and_then (session_flush env) (\<lambda>_.
     and_then (uuid4 env) (\<lambda>oid.
     and_then (utc_now env) (\<lambda>created.
     and_then (utc_now env) (\<lambda>updated.
     and_then (session_execute (InsertOrder (new oid created updated))) (\<lambda>_.
     session_refresh_order (new oid created updated))))))"

definition orders_matching ::
  "order_status option \<Rightarrow> int option \<Rightarrow> int option \<Rightarrow> string option \<Rightarrow> tables \<Rightarrow> order list" where
  "orders_matching st from_dt to_dt ref t =
     sort_key (\<lambda>r. - order_created_at r)
       (filter (\<lambda>r. (case st of None \<Rightarrow> True | Some s \<Rightarrow> status r = s) \<and>
                    (case from_dt of None \<Rightarrow> True | Some d \<Rightarrow> d \<le> order_created_at r) \<and>
                    (case to_dt of None \<Rightarrow> True | Some d \<Rightarrow> order_created_at r \<le> d) \<and>
                    (case ref of None \<Rightarrow> True | Some c \<Rightarrow> customer_ref r = Some c))
          (order_rows t))"

definition order_list_orders ::
  "order_status option \<Rightarrow> int option \<Rightarrow> int option \<Rightarrow> string option \<Rightarrow> ('r, order list) io" where
  "order_list_orders st from_dt to_dt ref = session_read (orders_matching st from_dt to_dt ref)"

definition order_get_by_id :: "uuid \<Rightarrow> ('r, order option) io" where
  "order_get_by_id oid = session_read (find_order oid)"

definition transition_status :: "'r env \<Rightarrow> uuid \<Rightarrow> int \<Rightarrow> order_status \<Rightarrow> ('r, bool) io" where
  "transition_status env oid expected_version new_status =
     and_then (utc_now env) (\<lambda>now.
     and_then (session_read (find_order oid)) (\<lambda>row.
     case row of
       None \<Rightarrow> done_with False
     | Some r \<Rightarrow>
         if order_version r \<noteq> expected_version then done_with False
         else and_then (session_execute (UpdateOrder oid new_status (order_version r + 1) now))
                (\<lambda>_. done_with True)))"

section \<open>Movements\<close>

definition create_movement :: "'r env \<Rightarrow> (uuid \<Rightarrow> int \<Rightarrow> stock_movement) \<Rightarrow> ('r, stock_movement) io" where
  "create_movement env new =
     and_then (session_flush env) (\<lambda>_.
     and_then (uuid4 env) (\<lambda>mid.
     and_then (utc_now env) (\<lambda>created.
     and_then (session_execute (InsertMovement (new mid created))) (\<lambda>_.
     done_with (new mid created)))))"

definition movements_of_order :: "uuid \<Rightarrow> tables \<Rightarrow> stock_movement list" where
  "movements_of_order oid t =
     sort_key mv_created_at (filter (\<lambda>m. mv_order_id m = Some oid) (stock_movements t))"

definition list_movements_for_order :: "uuid \<Rightarrow> ('r, stock_movement list) io" where
  "list_movements_for_order oid = session_read (movements_of_order oid)"

definition movements_of_item :: "uuid \<Rightarrow> nat \<Rightarrow> tables \<Rightarrow> stock_movement list" where
  "movements_of_item iid limit t =
     take limit (sort_key (\<lambda>m. - mv_created_at m) (filter (\<lambda>m. mv_item_id m = iid) (stock_movements t)))"

definition list_movements_for_item :: "uuid \<Rightarrow> nat \<Rightarrow> ('r, stock_movement list) io" where
  "list_movements_for_item iid limit = session_read (movements_of_item iid limit)"

section \<open>Rules\<close>

lemma wp_item_get_by_id [wp_rules]:
  "wp (item_get_by_id iid) Q w =
     (if broken (sess w) then Q (Inl PendingRollbackError) w else Q (Inr (find_item iid (view w))) w)"
  "wp (item_get_by_id_with_lock iid) Q w =
     (if broken (sess w) then Q (Inl PendingRollbackError) w else Q (Inr (find_item iid (view w))) w)"
  by (simp_all add: item_get_by_id_def item_get_by_id_with_lock_def wp_rules)

lemma wp_item_lists [wp_rules]:
  "wp (item_list_all env) Q w =
     (if broken (sess w) then Q (Inl PendingRollbackError) w else Q (Inr (all_items_by_name env (view w))) w)"
  "wp item_list_low_stock Q w =
     (if broken (sess w) then Q (Inl PendingRollbackError) w else Q (Inr (low_stock_items (view w))) w)"
  by (simp_all add: item_list_all_def item_list_low_stock_def wp_rules)

lemma wp_order_get_by_id [wp_rules]:
  "wp (order_get_by_id oid) Q w =
     (if broken (sess w) then Q (Inl PendingRollbackError) w else Q (Inr (find_order oid (view w))) w)"
  by (simp add: order_get_by_id_def wp_rules)

lemma wp_order_list_orders [wp_rules]:
  "wp (order_list_orders st f t c) Q w =
     (if broken (sess w) then Q (Inl PendingRollbackError) w
      else Q (Inr (orders_matching st f t c (view w))) w)"
  by (simp add: order_list_orders_def wp_rules)

lemma wp_movement_reads [wp_rules]:
  "wp (list_movements_for_order oid) Q w =
     (if broken (sess w) then Q (Inl PendingRollbackError) w
      else Q (Inr (movements_of_order oid (view w))) w)"
  "wp (list_movements_for_item iid n) Q w =
     (if broken (sess w) then Q (Inl PendingRollbackError) w
      else Q (Inr (movements_of_item iid n (view w))) w)"
  by (simp_all add: list_movements_for_order_def list_movements_for_item_def wp_rules)

lemma wp_session_refresh_item [wp_rules]:
  "wp (session_refresh_item it) Q w =
     (if broken (sess w) then Q (Inl PendingRollbackError) w
      else case find_item (item_id it) (view w) of
             None \<Rightarrow> Q (Inl InvalidRequestError) w | Some it' \<Rightarrow> Q (Inr it') w)"
  by (simp add: session_refresh_item_def wp_rules split: option.split)

lemma wp_session_refresh_order [wp_rules]:
  "wp (session_refresh_order r) Q w =
     (if broken (sess w) then Q (Inl PendingRollbackError) w
      else case find_order (order_id r) (view w) of
             None \<Rightarrow> Q (Inl InvalidRequestError) w | Some r' \<Rightarrow> Q (Inr r') w)"
  by (simp add: session_refresh_order_def wp_rules split: option.split)

lemma wp_transition_status [wp_rules]:
  "wp (transition_status env oid v st) Q w =
     (if broken (sess w) then Q (Inl PendingRollbackError) (tick w)
      else case find_order oid (view w) of
             None \<Rightarrow> Q (Inr False) (tick w)
           | Some r \<Rightarrow>
               if order_version r \<noteq> v then Q (Inr False) (tick w)
               else if \<not> int4 (v + 1) then Q (Inl DBAPIError) (break_session (tick w))
               else Q (Inr True) (log_statement (UpdateOrder oid st (v + 1) (env_utc_now env (calls w))) (tick w)))"
  by (simp add: transition_status_def wp_rules statement_fault.simps split: option.split)

end
