(* ===== verification/Item_Service.thy ===== *)
theory Item_Service
  imports Repositories
begin

text \<open>
  \<open>app/services/item_service.py\<close> and \<open>app/services/stock_service.py\<close>: creation of items,
  manual adjustment of the stock, the reads, and the cache-first read of the stock. The
  services take the cache as an argument (\<open>None\<close> for a disabled one); the logging calls are
  left out.
\<close>

definition initial_stock_reason :: string where
  "initial_stock_reason = ''Initial stock on item creation''"

definition create_item ::
  "'r env \<Rightarrow> 'r cache_service \<Rightarrow> string \<Rightarrow> int \<Rightarrow> int \<Rightarrow> string option \<Rightarrow> int \<Rightarrow> ('r, menu_item) io" where
  "create_item env cache name price stock description threshold =
     and_then (item_create env (menu_item_init name description price (Some stock) (Some threshold) None))
       (\<lambda>item.
     and_then (create_movement env
                 (stock_movement_init (item_id item) None ADJUSTMENT stock 0 stock
                    (Some initial_stock_reason))) (\<lambda>_.
     and_then (cache_set_stock env cache (item_id item) (stock_quantity item)) (\<lambda>_.
     done_with item)))"

definition adjust_stock ::
  "'r env \<Rightarrow> 'r cache_service \<Rightarrow> uuid \<Rightarrow> int \<Rightarrow> string \<Rightarrow> ('r, menu_item) io" where
  "adjust_stock env cache iid delta why =
     and_then (item_get_by_id_with_lock iid) (\<lambda>found.
     case found of
       None \<Rightarrow> raise_exn (NotFoundError ''MenuItem'' iid)
     | Some item \<Rightarrow>
         (let before = stock_quantity item; new_quantity = before + delta
          in if new_quantity < 0 then raise_exn (InsufficientStockError iid \<bar>delta\<bar> before)
             else
               (let item' = item\<lparr>stock_quantity := new_quantity, item_version := item_version item + 1\<rparr>
                in and_then (session_modify item item') (\<lambda>_.
                   and_then (create_movement env
                               (stock_movement_init (item_id item) None ADJUSTMENT delta before
                                  new_quantity (Some why))) (\<lambda>_.
                   and_then (item_save env item') (\<lambda>saved.
                   and_then (cache_set_stock env cache (item_id saved) (stock_quantity saved)) (\<lambda>_.
                   done_with saved)))))))"

definition get_item :: "uuid \<Rightarrow> ('r, menu_item) io" where
  "get_item iid =
     and_then (item_get_by_id iid) (\<lambda>found.
     case found of None \<Rightarrow> raise_exn (NotFoundError ''MenuItem'' iid) | Some item \<Rightarrow> done_with item)"

definition list_items :: "'r env \<Rightarrow> ('r, menu_item list) io" where
  "list_items env = item_list_all env"

definition list_low_stock :: "('r, menu_item list) io" where
  "list_low_stock = item_list_low_stock"

section \<open>StockService\<close>

text \<open>
  The read of the stock. The cached quantity is assigned to the loaded row, an object of the
  session, so the assignment is pending when the read returns.
\<close>

definition get_stock :: "'r cache_service \<Rightarrow> uuid \<Rightarrow> ('r, menu_item) io" where
  "get_stock cache iid =
     and_then (cache_get_stock cache iid) (\<lambda>cached_qty.
     and_then (item_get_by_id iid) (\<lambda>found.
     case found of
       None \<Rightarrow> raise_exn (NotFoundError ''MenuItem'' iid)
     | Some item \<Rightarrow>
         (case cached_qty of
            None \<Rightarrow> done_with item
          | Some q \<Rightarrow>
              and_then (session_modify item (item\<lparr>stock_quantity := q\<rparr>)) (\<lambda>_.
              done_with (item\<lparr>stock_quantity := q\<rparr>)))))"

definition get_movements :: "uuid \<Rightarrow> nat \<Rightarrow> ('r, stock_movement list) io" where
  "get_movements iid limit =
     and_then (item_get_by_id iid) (\<lambda>found.
     case found of
       None \<Rightarrow> raise_exn (NotFoundError ''MenuItem'' iid)
     | Some item \<Rightarrow> list_movements_for_item iid limit)"

definition get_low_stock_items :: "('r, menu_item list) io" where
  "get_low_stock_items = item_list_low_stock"

end
