(* ===== verification/Order_Service.thy ===== *)
theory Order_Service
  imports Item_Service
begin

text \<open>
  \<open>app/services/order_service.py\<close>: placing, confirming, shipping, delivering and cancelling
  an order, and the reads. Every method is written as the source writes it: what is loaded,
  which guard raises which exception, and in which order stock, audit row, cache and status
  are written.
\<close>

section \<open>Operations\<close>

definition place_order ::
  "'r env \<Rightarrow> uuid \<Rightarrow> int \<Rightarrow> string option \<Rightarrow> ('r, order) io" where
  "place_order env iid qty ref =
     and_then (item_get_by_id iid) (\<lambda>found.
     case found of
       None \<Rightarrow> raise_exn (NotFoundError ''MenuItem'' iid)
     | Some item \<Rightarrow> order_create env (order_init iid qty (Some PENDING) ref))"

text \<open>\<open>return await self._orders.get_by_id(order_id)\<close>, at the end of every transition.\<close>

definition reload_order :: "uuid \<Rightarrow> ('r, order option) io" where
  "reload_order oid = order_get_by_id oid"

definition deduction_reason :: "uuid \<Rightarrow> string" where
  "deduction_reason oid = ''Stock deducted for order '' @ uuid_str oid"

definition restoration_reason :: "uuid \<Rightarrow> string" where
  "restoration_reason oid = ''Stock restored on cancellation of order '' @ uuid_str oid"

definition confirm_order :: "'r env \<Rightarrow> 'r cache_service \<Rightarrow> uuid \<Rightarrow> ('r, order option) io" where
  "confirm_order env cache oid =
     and_then (order_get_by_id oid) (\<lambda>found.
     case found of
       None \<Rightarrow> raise_exn (NotFoundError ''Order'' oid)
     | Some ord \<Rightarrow>
         if \<not> can_transition_to (status ord) CONFIRMED
         then raise_exn (InvalidTransitionError (status ord) CONFIRMED)
         else
           and_then (item_get_by_id_with_lock (order_item_id ord)) (\<lambda>locked.
           case locked of
             None \<Rightarrow> raise_exn (NotFoundError ''MenuItem'' (order_item_id ord))
           | Some item \<Rightarrow>
               if stock_quantity item < quantity ord
               then
                 and_then (transition_status env oid (order_version ord) REJECTED) (\<lambda>updated.
                 if \<not> updated then raise_exn (ConflictError ''Order'' oid)
                 else raise_exn (InsufficientStockError (item_id item) (quantity ord)
                                   (stock_quantity item)))
               else
                 (let before = stock_quantity item;
                      item' = item\<lparr>stock_quantity := stock_quantity item - quantity ord,
                                   item_version := item_version item + 1\<rparr>
                  in and_then (session_modify item item') (\<lambda>_.
                     and_then (create_movement env
                                 (stock_movement_init (item_id item) (Some (order_id ord)) DEDUCTION
                                    (- quantity ord) before (stock_quantity item')
                                    (Some (deduction_reason oid)))) (\<lambda>_.
                     and_then (item_save env item') (\<lambda>saved.
                     and_then (cache_set_stock env cache (item_id saved) (stock_quantity saved)) (\<lambda>_.
                     and_then (transition_status env oid (order_version ord) CONFIRMED) (\<lambda>updated.
                     if \<not> updated then raise_exn (ConflictError ''Order'' oid)
                     else reload_order oid))))))))"

definition transition :: "'r env \<Rightarrow> uuid \<Rightarrow> order_status \<Rightarrow> ('r, order option) io" where
  "transition env oid new_status =
     and_then (order_get_by_id oid) (\<lambda>found.
     case found of
       None \<Rightarrow> raise_exn (NotFoundError ''Order'' oid)
     | Some ord \<Rightarrow>
         if \<not> can_transition_to (status ord) new_status
         then raise_exn (InvalidTransitionError (status ord) new_status)
         else
           and_then (transition_status env oid (order_version ord) new_status) (\<lambda>updated.
           if \<not> updated then raise_exn (ConflictError ''Order'' oid)
           else reload_order oid))"

definition ship_order :: "'r env \<Rightarrow> uuid \<Rightarrow> ('r, order option) io" where
  "ship_order env oid = transition env oid SHIPPED"

definition deliver_order :: "'r env \<Rightarrow> uuid \<Rightarrow> ('r, order option) io" where
  "deliver_order env oid = transition env oid DELIVERED"

text \<open>The body of \<open>if should_restore\<close>: without the item row nothing is restored.\<close>

definition restore_stock :: "'r env \<Rightarrow> 'r cache_service \<Rightarrow> uuid \<Rightarrow> order \<Rightarrow> ('r, unit) io" where
  "restore_stock env cache oid ord =
     and_then (item_get_by_id_with_lock (order_item_id ord)) (\<lambda>locked.
     case locked of
       None \<Rightarrow> done_with ()
     | Some item \<Rightarrow>
         (let before = stock_quantity item;
              item' = item\<lparr>stock_quantity := stock_quantity item + quantity ord,
                           item_version := item_version item + 1\<rparr>
          in and_then (session_modify item item') (\<lambda>_.
             and_then (create_movement env
                         (stock_movement_init (item_id item) (Some (order_id ord)) RESTORATION
                            (quantity ord) before (stock_quantity item')
                            (Some (restoration_reason oid)))) (\<lambda>_.
             and_then (item_save env item') (\<lambda>saved.
             cache_set_stock env cache (item_id saved) (stock_quantity saved))))))"

definition cancel_order :: "'r env \<Rightarrow> 'r cache_service \<Rightarrow> uuid \<Rightarrow> ('r, order option) io" where
  "cancel_order env cache oid =
     and_then (order_get_by_id oid) (\<lambda>found.
     case found of
       None \<Rightarrow> raise_exn (NotFoundError ''Order'' oid)
     | Some ord \<Rightarrow>
         if \<not> can_transition_to (status ord) CANCELLED
         then raise_exn (InvalidTransitionError (status ord) CANCELLED)
         else
           and_then (if status ord \<in> stock_holding_states then restore_stock env cache oid ord
                     else done_with ()) (\<lambda>_.
           and_then (transition_status env oid (order_version ord) CANCELLED) (\<lambda>updated.
           if \<not> updated then raise_exn (ConflictError ''Order'' oid)
           else reload_order oid)))"

definition get_order :: "uuid \<Rightarrow> ('r, order) io" where
  "get_order oid =
     and_then (order_get_by_id oid) (\<lambda>found.
     case found of None \<Rightarrow> raise_exn (NotFoundError ''Order'' oid) | Some ord \<Rightarrow> done_with ord)"

section \<open>The detail of an order\<close>

record order_detail =
  od_id :: uuid
  od_item_id :: uuid
  od_item_name :: string
  od_item_price :: decimal
  od_quantity :: int
  od_total_value :: decimal
  od_status :: order_status
  od_customer_ref :: "string option"
  od_version :: int
  od_created_at :: int
  od_updated_at :: int
  od_movements :: "stock_movement list"

definition get_order_detail :: "uuid \<Rightarrow> ('r, order_detail) io" where
  "get_order_detail oid =
     and_then (order_get_by_id oid) (\<lambda>found.
     case found of
       None \<Rightarrow> raise_exn (NotFoundError ''Order'' oid)
     | Some ord \<Rightarrow>
         and_then (item_get_by_id (order_item_id ord)) (\<lambda>item.
         and_then (list_movements_for_order oid) (\<lambda>movements.
         let price = (case item of None \<Rightarrow> Dec 0 0 | Some it \<Rightarrow> money (item_price it))
         in case dec_quantize2 (dec_mult price (dec_of_int (quantity ord))) of
              None \<Rightarrow> raise_exn InvalidOperation
            | Some amount \<Rightarrow>
                done_with
                  \<lparr>od_id = order_id ord, od_item_id = order_item_id ord,
                   od_item_name = (case item of None \<Rightarrow> ''Unknown'' | Some it \<Rightarrow> item_name it),
                   od_item_price = price, od_quantity = quantity ord, od_total_value = amount,
                   od_status = status ord, od_customer_ref = customer_ref ord,
                   od_version = order_version ord, od_created_at = order_created_at ord,
                   od_updated_at = order_updated_at ord, od_movements = movements\<rparr>)))"

definition list_orders ::
  "order_status option \<Rightarrow> int option \<Rightarrow> int option \<Rightarrow> string option \<Rightarrow> ('r, order list) io" where
  "list_orders st from_dt to_dt ref = order_list_orders st from_dt to_dt ref"

end
