(* ===== verification/Ledger.thy ===== *)
theory Ledger
  imports Order_Service
begin

text \<open>
  What the tables owe to the services. \<open>schema_ok\<close> collects the declared constraints;
  \<open>ledger_ok\<close> says that the movements of an item, read in order from zero, chain up to its
  stock; \<open>trail_ok\<close> says which movements an order has left behind in each status, and which
  version it carries. The lemmas give the preservation of each by the statements of a
  transaction: the schema by any statement the database accepts, ledger and trail by the
  groups of statements that the services execute together.
\<close>

section \<open>Declared constraints\<close>

definition schema_ok :: "tables \<Rightarrow> bool" where
  "schema_ok t \<longleftrightarrow>
     distinct (map item_id (menu_items t)) \<and> distinct (map item_name (menu_items t)) \<and>
     distinct (map order_id (order_rows t)) \<and> distinct (map mv_id (stock_movements t)) \<and>
     (\<forall>it \<in> set (menu_items t). item_types_ok it \<and> item_checks_ok it) \<and>
     (\<forall>r \<in> set (order_rows t). order_types_ok r \<and> order_checks_ok r \<and>
        find_item (order_item_id r) t \<noteq> None) \<and>
     (\<forall>m \<in> set (stock_movements t). movement_types_ok m \<and> find_item (mv_item_id m) t \<noteq> None \<and>
        (case mv_order_id m of None \<Rightarrow> True | Some oid \<Rightarrow> find_order oid t \<noteq> None))"

lemma find_item_None_iff: "find_item i t = None \<longleftrightarrow> i \<notin> item_id ` set (menu_items t)"
  by (simp add: find_item_def row_lookup_None_iff)

lemma find_order_None_iff: "find_order i t = None \<longleftrightarrow> i \<notin> order_id ` set (order_rows t)"
  by (simp add: find_order_def row_lookup_None_iff)

lemma schema_ok_empty: "schema_ok empty_tables"
  by (simp add: schema_ok_def empty_tables_def)

lemma find_item_row:
  "schema_ok t \<Longrightarrow> it \<in> set (menu_items t) \<Longrightarrow> find_item (item_id it) t = Some it"
  by (simp add: schema_ok_def find_item_def row_lookup_distinct)

lemma find_order_row:
  "schema_ok t \<Longrightarrow> r \<in> set (order_rows t) \<Longrightarrow> find_order (order_id r) t = Some r"
  by (simp add: schema_ok_def find_order_def row_lookup_distinct)

lemma schema_ok_item:
  assumes "schema_ok t" and "find_item i t = Some it"
  shows "item_types_ok it \<and> item_checks_ok it"
  using assms item_table.fetch_in [OF assms(2)] by (simp add: schema_ok_def)

lemma schema_ok_order:
  assumes "schema_ok t" and "find_order i t = Some r"
  shows "order_types_ok r \<and> order_checks_ok r \<and> (\<exists>it. find_item (order_item_id r) t = Some it)"
  using assms order_table.fetch_in [OF assms(2)] by (auto simp: schema_ok_def)

text \<open>Rows are never lost, so a reference once good stays good.\<close>

lemma find_item_kept:
  "find_item i t \<noteq> None \<Longrightarrow> find_item i (apply_statement s t) \<noteq> None"
  by (cases s) (auto simp: table_simps split: option.split)

lemma find_order_kept:
  "find_order i t \<noteq> None \<Longrightarrow> find_order i (apply_statement s t) \<noteq> None"
  by (cases s) (auto simp: table_simps split: option.split)

lemma references_kept:
  assumes "schema_ok t"
  shows "\<forall>r \<in> set (order_rows t). find_item (order_item_id r) (apply_statement s t) \<noteq> None"
    and "\<forall>m \<in> set (stock_movements t). find_item (mv_item_id m) (apply_statement s t) \<noteq> None \<and>
        (case mv_order_id m of None \<Rightarrow> True | Some oid \<Rightarrow> find_order oid (apply_statement s t) \<noteq> None)"
  using assms find_item_kept find_order_kept
  by (auto simp: schema_ok_def split: option.splits)

lemma ball_row_update:
  assumes "\<forall>r \<in> set rows. P r" and "\<And>r. r \<in> set rows \<Longrightarrow> key r = k \<Longrightarrow> P (f r)"
  shows "\<forall>r \<in> set (row_update key k f rows). P r"
  using assms by (auto simp: set_row_update)

text \<open>Whatever a transaction executes, the database keeps the declared constraints.\<close>

lemma schema_ok_statement:
  assumes ok: "schema_ok t" and fault: "statement_fault t s = None"
  shows "schema_ok (apply_statement s t)"
proof (cases s)
  case (InsertItem it)
  then show ?thesis using ok fault references_kept [OF ok, of s]
    unfolding schema_ok_def by (auto simp: table_simps statement_fault.simps split: if_splits)
next
  case (UpdateItem i stock version now)
  let ?f = "set_item_columns stock version now"
  from fault UpdateItem obtain it where it: "find_item i t = Some it"
    and fine: "item_types_ok (?f it)" "item_checks_ok (?f it)"
    by (auto simp: Let_def statement_fault.simps split: option.splits if_splits)
  have "\<forall>x \<in> set (row_update item_id i ?f (menu_items t)). item_types_ok x \<and> item_checks_ok x"
  proof (rule ball_row_update)
    show "\<forall>x \<in> set (menu_items t). item_types_ok x \<and> item_checks_ok x"
      using ok by (simp add: schema_ok_def)
    show "item_types_ok (?f x) \<and> item_checks_ok (?f x)"
      if "x \<in> set (menu_items t)" "item_id x = i" for x
      using that it fine find_item_row [OF ok that(1)] by simp
  qed
  moreover have "map item_name (row_update item_id i ?f (menu_items t)) = map item_name (menu_items t)"
    by (simp add: row_update_def)
  ultimately show ?thesis using ok references_kept [OF ok, of s] UpdateItem
    unfolding schema_ok_def by (simp add: table_simps map_key_row_update)
next
  case (InsertOrder r)
  then show ?thesis using ok fault references_kept [OF ok, of s]
    unfolding schema_ok_def by (auto simp: table_simps statement_fault.simps split: if_splits)
next
  case (UpdateOrder i st version now)
  let ?f = "set_order_columns st version now"
  have "\<forall>x \<in> set (row_update order_id i ?f (order_rows t)).
      order_types_ok x \<and> order_checks_ok x \<and> find_item (order_item_id x) t \<noteq> None"
    using ok fault UpdateOrder
    by (intro ball_row_update)
       (auto simp: schema_ok_def order_types_ok_def order_checks_ok_def statement_fault.simps split: if_splits)
  then show ?thesis using ok references_kept [OF ok, of s] UpdateOrder
    unfolding schema_ok_def by (simp add: table_simps map_key_row_update)
next
  case (InsertMovement m)
  then show ?thesis using ok fault references_kept [OF ok, of s]
    unfolding schema_ok_def by (auto simp: table_simps statement_fault.simps split: if_splits option.splits)
qed

section \<open>The ledger of an item\<close>

text \<open>
  Movements read in order: each starts where the one before it ended and adds up; the result
  is the stock after the last one.
\<close>

fun replay :: "int \<Rightarrow> stock_movement list \<Rightarrow> int option" where
  "replay s [] = Some s"
| "replay s (m # ms) =
     (if stock_before m = s \<and> stock_after m = s + quantity_delta m then replay (stock_after m) ms
      else None)"

definition item_movements :: "uuid \<Rightarrow> tables \<Rightarrow> stock_movement list" where
  "item_movements i t = filter (\<lambda>m. mv_item_id m = i) (stock_movements t)"

definition ledger_ok :: "tables \<Rightarrow> bool" where
  "ledger_ok t \<longleftrightarrow>
     (\<forall>it \<in> set (menu_items t). replay 0 (item_movements (item_id it) t) = Some (stock_quantity it))"

lemma replay_append: "replay s (ms @ ns) = (case replay s ms of None \<Rightarrow> None | Some s' \<Rightarrow> replay s' ns)"
  by (induction ms arbitrary: s) auto

lemma replay_sum: "replay s ms = Some s' \<Longrightarrow> s' = s + sum_rows (\<lambda>_. True) quantity_delta ms"
  by (induction ms arbitrary: s) (fastforce split: if_splits)+

lemma ledger_ok_find:
  assumes "ledger_ok t" and "find_item i t = Some it"
  shows "replay 0 (item_movements i t) = Some (stock_quantity it)"
  using assms(1) item_table.fetch_in [OF assms(2)] item_table.fetch_key [OF assms(2)]
  by (auto simp: ledger_ok_def)

lemma ledger_ok_findI:
  assumes "schema_ok t"
    and "\<And>i it. find_item i t = Some it \<Longrightarrow> replay 0 (item_movements i t) = Some (stock_quantity it)"
  shows "ledger_ok t"
  unfolding ledger_ok_def using assms(2) find_item_row [OF assms(1)] by blast

lemma item_movements_statement [table_simps]:
  "item_movements i (apply_statement (InsertItem it) t) = item_movements i t"
  "item_movements i (apply_statement (UpdateItem j s v now) t) = item_movements i t"
  "item_movements i (apply_statement (InsertOrder r) t) = item_movements i t"
  "item_movements i (apply_statement (UpdateOrder j st v' now) t) = item_movements i t"
  "item_movements i (apply_statement (InsertMovement m) t) =
     item_movements i t @ (if mv_item_id m = i then [m] else [])"
  by (simp_all add: item_movements_def table_simps)

lemma item_movements_fresh:
  "schema_ok t \<Longrightarrow> find_item i t = None \<Longrightarrow> item_movements i t = []"
  by (auto simp: item_movements_def schema_ok_def filter_empty_conv)

text \<open>An update of the stock of an item together with the movement that records it.\<close>

lemma ledger_ok_stock:
  assumes "ledger_ok t" and "find_item i t = Some it"
    and "stock_quantity (set_item_columns s v now it) = stock_after m"
    and "mv_item_id m = i" and "stock_before m = stock_quantity it"
    and "stock_after m = stock_before m + quantity_delta m"
    and "schema_ok (apply_statement (InsertMovement m) (apply_statement (UpdateItem i s v now) t))"
  shows "ledger_ok (apply_statement (InsertMovement m) (apply_statement (UpdateItem i s v now) t))"
  by (rule ledger_ok_findI [OF assms(7)])
     (use assms(1-6) ledger_ok_find [OF assms(1)] in
       \<open>auto simp: table_simps replay_append split: if_splits\<close>)

lemma ledger_ok_item:
  assumes "ledger_ok t" and "schema_ok t" and "find_item (item_id it) t = None"
    and "mv_item_id m = item_id it" and "stock_before m = 0"
    and "quantity_delta m = stock_after m" and "stock_after m = stock_quantity it"
    and "schema_ok (apply_statement (InsertMovement m) (apply_statement (InsertItem it) t))"
  shows "ledger_ok (apply_statement (InsertMovement m) (apply_statement (InsertItem it) t))"
  by (rule ledger_ok_findI [OF assms(8)])
     (use assms(1-7) ledger_ok_find [OF assms(1)] item_movements_fresh [OF assms(2)] in
       \<open>auto simp: table_simps replay_append split: if_splits option.splits\<close>)

lemma ledger_ok_orders:
  "ledger_ok (apply_statement (InsertOrder r) t) = ledger_ok t"
  "ledger_ok (apply_statement (UpdateOrder i st v now) t) = ledger_ok t"
  by (simp_all add: ledger_ok_def table_simps)

section \<open>The trail of an order\<close>

definition order_trail :: "uuid \<Rightarrow> tables \<Rightarrow> (movement_kind \<times> int) list" where
  "order_trail oid t =
     map (\<lambda>m. (movement_type m, quantity_delta m))
       (filter (\<lambda>m. mv_order_id m = Some oid) (stock_movements t))"

text \<open>Which movements and which version an order has in each status.\<close>

fun trail_for :: "order_status \<Rightarrow> int \<Rightarrow> int \<Rightarrow> (movement_kind \<times> int) list \<Rightarrow> bool" where
  "trail_for PENDING q v tr \<longleftrightarrow> tr = [] \<and> v = 1"
| "trail_for CONFIRMED q v tr \<longleftrightarrow> tr = [(DEDUCTION, - q)] \<and> v = 2"
| "trail_for SHIPPED q v tr \<longleftrightarrow> tr = [(DEDUCTION, - q)] \<and> v = 3"
| "trail_for DELIVERED q v tr \<longleftrightarrow> tr = [(DEDUCTION, - q)] \<and> v = 4"
| "trail_for CANCELLED q v tr \<longleftrightarrow>
     tr = [] \<and> v = 2 \<or> tr = [(DEDUCTION, - q), (RESTORATION, q)] \<and> (v = 3 \<or> v = 4)"
| "trail_for REJECTED q v tr \<longleftrightarrow> tr = [] \<and> v = 2"

definition movement_ok :: "tables \<Rightarrow> stock_movement \<Rightarrow> bool" where
  "movement_ok t m \<longleftrightarrow>
     (case mv_order_id m of
        None \<Rightarrow> movement_type m = ADJUSTMENT
      | Some oid \<Rightarrow> movement_type m \<noteq> ADJUSTMENT \<and>
          (case find_order oid t of None \<Rightarrow> False | Some r \<Rightarrow> mv_item_id m = order_item_id r))"

definition trail_ok :: "tables \<Rightarrow> bool" where
  "trail_ok t \<longleftrightarrow>
     (\<forall>r \<in> set (order_rows t).
        trail_for (status r) (quantity r) (order_version r) (order_trail (order_id r) t)) \<and>
     (\<forall>m \<in> set (stock_movements t). movement_ok t m)"

lemma order_trail_statement [table_simps]:
  "order_trail i (apply_statement (InsertItem it) t) = order_trail i t"
  "order_trail i (apply_statement (UpdateItem j s v now) t) = order_trail i t"
  "order_trail i (apply_statement (InsertOrder r) t) = order_trail i t"
  "order_trail i (apply_statement (UpdateOrder j st v' now) t) = order_trail i t"
  "order_trail i (apply_statement (InsertMovement m) t) =
     order_trail i t @ (if mv_order_id m = Some i then [(movement_type m, quantity_delta m)] else [])"
  by (simp_all add: order_trail_def table_simps)

lemma order_trail_fresh:
  "schema_ok t \<Longrightarrow> find_order i t = None \<Longrightarrow> order_trail i t = []"
  by (auto simp: order_trail_def schema_ok_def filter_empty_conv)

lemma trail_ok_find:
  assumes "trail_ok t" and "find_order i t = Some r"
  shows "trail_for (status r) (quantity r) (order_version r) (order_trail i t)"
  using assms(1) order_table.fetch_in [OF assms(2)] order_table.fetch_key [OF assms(2)]
  by (auto simp: trail_ok_def)

lemma trail_ok_findI:
  assumes "schema_ok t"
    and "\<And>i r. find_order i t = Some r \<Longrightarrow>
          trail_for (status r) (quantity r) (order_version r) (order_trail i t)"
    and "\<And>m. m \<in> set (stock_movements t) \<Longrightarrow> movement_ok t m"
  shows "trail_ok t"
  unfolding trail_ok_def using assms(2,3) find_order_row [OF assms(1)] by blast

text \<open>Statements about orders and items leave the movements good: the item of an order is fixed.\<close>

lemma movement_ok_statement:
  "movement_ok t m \<Longrightarrow> movement_ok (apply_statement s t) m"
  by (cases s) (auto simp: movement_ok_def table_simps split: option.splits)

lemma movement_ok_same [table_simps]:
  "movement_ok (apply_statement (InsertItem it) t) m = movement_ok t m"
  "movement_ok (apply_statement (UpdateItem i s v now) t) m = movement_ok t m"
  "movement_ok (apply_statement (InsertMovement x) t) m = movement_ok t m"
  by (simp_all add: movement_ok_def table_simps split: option.split)

lemma trail_ok_movement_ok:
  "trail_ok t \<Longrightarrow> m \<in> set (stock_movements t) \<Longrightarrow> movement_ok (apply_statement s t) m"
  using movement_ok_statement by (auto simp: trail_ok_def)

lemma trail_ok_items:
  "trail_ok (apply_statement (InsertItem it) t) = trail_ok t"
  "trail_ok (apply_statement (UpdateItem i s v now) t) = trail_ok t"
  by (simp_all add: trail_ok_def table_simps)

lemma trail_ok_adjustment:
  assumes "trail_ok t" and "mv_order_id m = None" and "movement_type m = ADJUSTMENT"
  shows "trail_ok (apply_statement (InsertMovement m) t)"
  using assms by (auto simp: trail_ok_def table_simps) (simp add: movement_ok_def)

lemma trail_ok_place:
  assumes "trail_ok t" and "schema_ok t" and "find_order (order_id r) t = None"
    and "status r = PENDING" and "order_version r = 1"
    and "schema_ok (apply_statement (InsertOrder r) t)"
  shows "trail_ok (apply_statement (InsertOrder r) t)"
proof (rule trail_ok_findI [OF assms(6)])
  fix i x
  assume "find_order i (apply_statement (InsertOrder r) t) = Some x"
  then show "trail_for (status x) (quantity x) (order_version x)
      (order_trail i (apply_statement (InsertOrder r) t))"
    using assms(3-5) trail_ok_find [OF assms(1)] order_trail_fresh [OF assms(2)]
    by (auto simp: table_simps split: if_splits option.splits)
next
  fix m
  assume "m \<in> set (stock_movements (apply_statement (InsertOrder r) t))"
  then show "movement_ok (apply_statement (InsertOrder r) t) m"
    using trail_ok_movement_ok [OF assms(1)] by (simp add: table_simps)
qed

lemma trail_ok_update:
  assumes "trail_ok t" and "find_order oid t = Some r"
    and "trail_for st (quantity r) v (order_trail oid t)"
    and "schema_ok (apply_statement (UpdateOrder oid st v now) t)"
  shows "trail_ok (apply_statement (UpdateOrder oid st v now) t)"
proof (rule trail_ok_findI [OF assms(4)])
  fix i x
  assume "find_order i (apply_statement (UpdateOrder oid st v now) t) = Some x"
  then show "trail_for (status x) (quantity x) (order_version x)
      (order_trail i (apply_statement (UpdateOrder oid st v now) t))"
    using assms(2,3) trail_ok_find [OF assms(1)] by (auto simp: table_simps split: if_splits)
next
  fix m
  assume "m \<in> set (stock_movements (apply_statement (UpdateOrder oid st v now) t))"
  then show "movement_ok (apply_statement (UpdateOrder oid st v now) t) m"
    using trail_ok_movement_ok [OF assms(1)] by (simp add: table_simps)
qed

text \<open>A movement of an order and the change of its status, in one transaction.\<close>

lemma trail_ok_move:
  assumes "trail_ok t" and "find_order oid t = Some r"
    and "mv_order_id m = Some oid" and "mv_item_id m = order_item_id r" and "movement_type m \<noteq> ADJUSTMENT"
    and "trail_for st (quantity r) v (order_trail oid t @ [(movement_type m, quantity_delta m)])"
    and "schema_ok (apply_statement (UpdateOrder oid st v now) (apply_statement (InsertMovement m) t))"
  shows "trail_ok (apply_statement (UpdateOrder oid st v now) (apply_statement (InsertMovement m) t))"
proof (rule trail_ok_findI [OF assms(7)])
  fix i x
  assume "find_order i (apply_statement (UpdateOrder oid st v now) (apply_statement (InsertMovement m) t)) = Some x"
  then show "trail_for (status x) (quantity x) (order_version x)
      (order_trail i (apply_statement (UpdateOrder oid st v now) (apply_statement (InsertMovement m) t)))"
    using assms(2,3,6) trail_ok_find [OF assms(1)] by (auto simp: table_simps split: if_splits)
next
  fix x
  assume "x \<in> set (stock_movements (apply_statement (UpdateOrder oid st v now) (apply_statement (InsertMovement m) t)))"
  then have "movement_ok t x"
    using assms(1-5) by (auto simp: table_simps trail_ok_def movement_ok_def)
  then show "movement_ok (apply_statement (UpdateOrder oid st v now) (apply_statement (InsertMovement m) t)) x"
    by (intro movement_ok_statement)
qed

section \<open>How the tables evolve\<close>

text \<open>
  What never changes about rows that exist: an item keeps its name, description, price,
  threshold and creation instant and its version does not go down; an order keeps its item,
  quantity, reference and creation instant, and its status moves along transitions of the
  state machine, one version per transition; movements are only appended.
\<close>

definition item_evolves :: "menu_item \<Rightarrow> menu_item \<Rightarrow> bool" where
  "item_evolves it it' \<longleftrightarrow>
     item_id it' = item_id it \<and> item_name it' = item_name it \<and>
     item_description it' = item_description it \<and> item_price it' = item_price it \<and>
     low_stock_threshold it' = low_stock_threshold it \<and>
     item_created_at it' = item_created_at it \<and> item_version it \<le> item_version it'"

definition order_evolves :: "order \<Rightarrow> order \<Rightarrow> bool" where
  "order_evolves r r' \<longleftrightarrow>
     order_id r' = order_id r \<and> order_item_id r' = order_item_id r \<and> quantity r' = quantity r \<and>
     customer_ref r' = customer_ref r \<and> order_created_at r' = order_created_at r \<and>
     (\<exists>ts. transitions_path (status r) ts \<and> status r' = last (status r # ts) \<and>
        order_version r' = order_version r + int (length ts))"

definition evolves :: "tables \<Rightarrow> tables \<Rightarrow> bool" where
  "evolves t t' \<longleftrightarrow>
     (\<forall>i it. find_item i t = Some it \<longrightarrow> (\<exists>it'. find_item i t' = Some it' \<and> item_evolves it it')) \<and>
     (\<forall>i r. find_order i t = Some r \<longrightarrow> (\<exists>r'. find_order i t' = Some r' \<and> order_evolves r r')) \<and>
     (\<exists>ms. stock_movements t' = stock_movements t @ ms)"

lemma transitions_path_append:
  "transitions_path s ts \<Longrightarrow> transitions_path (last (s # ts)) us \<Longrightarrow> transitions_path s (ts @ us)"
  by (induction rule: transitions_path.induct) (auto intro: transitions_path.intros split: if_splits)

lemma item_evolves_refl [simp]: "item_evolves it it"
  by (simp add: item_evolves_def)

lemma order_evolves_refl [simp]: "order_evolves r r"
  by (auto simp: order_evolves_def intro!: exI [of _ "[]"] path_end)

lemma item_evolves_trans: "item_evolves a b \<Longrightarrow> item_evolves b c \<Longrightarrow> item_evolves a c"
  by (simp add: item_evolves_def)

lemma order_evolves_trans:
  assumes "order_evolves a b" and "order_evolves b c"
  shows "order_evolves a c"
proof -
  from assms(1) obtain ts where ts: "transitions_path (status a) ts" "status b = last (status a # ts)"
      "order_version b = order_version a + int (length ts)"
    unfolding order_evolves_def by blast
  from assms(2) obtain us where us: "transitions_path (status b) us" "status c = last (status b # us)"
      "order_version c = order_version b + int (length us)"
    unfolding order_evolves_def by blast
  have "transitions_path (status a) (ts @ us)"
    using transitions_path_append ts(1) us(1) ts(2) by simp
  moreover have "status c = last (status a # ts @ us)"
    using ts(2) us(2) by (cases "us = []") simp_all
  moreover have "order_version c = order_version a + int (length (ts @ us))"
    using ts(3) us(3) by simp
  ultimately have "\<exists>vs. transitions_path (status a) vs \<and> status c = last (status a # vs) \<and>
      order_version c = order_version a + int (length vs)"
    by blast
  moreover have "order_id c = order_id a \<and> order_item_id c = order_item_id a \<and> quantity c = quantity a \<and>
      customer_ref c = customer_ref a \<and> order_created_at c = order_created_at a"
    using assms by (simp add: order_evolves_def)
  ultimately show ?thesis by (simp add: order_evolves_def)
qed

lemma evolves_refl [simp]: "evolves t t"
  by (auto simp: evolves_def)

lemma evolves_trans:
  assumes "evolves a b" and "evolves b c"
  shows "evolves a c"
proof -
  have "\<exists>ms. stock_movements c = stock_movements a @ ms" using assms by (auto simp: evolves_def)
  moreover have "\<exists>it''. find_item i c = Some it'' \<and> item_evolves it it''" if "find_item i a = Some it" for i it
    using that assms unfolding evolves_def by (meson item_evolves_trans)
  moreover have "\<exists>r''. find_order i c = Some r'' \<and> order_evolves r r''" if "find_order i a = Some r" for i r
    using that assms unfolding evolves_def by (meson order_evolves_trans)
  ultimately show ?thesis unfolding evolves_def by blast
qed

fun sound_statement :: "tables \<Rightarrow> statement \<Rightarrow> bool" where
  "sound_statement t (UpdateItem i s v now) \<longleftrightarrow>
     (\<forall>it. find_item i t = Some it \<longrightarrow> item_version it \<le> (case v of None \<Rightarrow> item_version it | Some k \<Rightarrow> k))"
| "sound_statement t (UpdateOrder i st v now) \<longleftrightarrow>
     (\<forall>r. find_order i t = Some r \<longrightarrow> can_transition_to (status r) st \<and> v = order_version r + 1)"
| "sound_statement t _ \<longleftrightarrow> True"

lemma order_evolves_step:
  "can_transition_to (status r) st \<Longrightarrow> order_evolves r (set_order_columns st (order_version r + 1) now r)"
  unfolding order_evolves_def
  by (simp add: set_order_columns_def)
     (auto intro!: exI [of _ "[st]"] transitions_path.intros)

lemma evolvesI:
  assumes "\<And>i it. find_item i t = Some it \<Longrightarrow> \<exists>it'. find_item i t' = Some it' \<and> item_evolves it it'"
    and "\<And>i r. find_order i t = Some r \<Longrightarrow> \<exists>r'. find_order i t' = Some r' \<and> order_evolves r r'"
    and "stock_movements t' = stock_movements t @ ms"
  shows "evolves t t'"
  using assms unfolding evolves_def by blast

lemma item_evolves_update:
  "item_version it \<le> (case v of None \<Rightarrow> item_version it | Some k \<Rightarrow> k) \<Longrightarrow>
     item_evolves it (set_item_columns s v now it)"
  by (simp add: item_evolves_def set_item_columns_def)

lemma evolves_statement:
  assumes "sound_statement t s"
  shows "evolves t (apply_statement s t)"
proof (cases s)
  case (InsertItem it)
  show ?thesis unfolding InsertItem by (rule evolvesI [where ms = "[]"]) (simp_all add: table_simps)
next
  case (UpdateItem i st v now)
  show ?thesis unfolding UpdateItem
    by (rule evolvesI [where ms = "[]"])
       (use assms UpdateItem in \<open>auto simp: table_simps intro!: item_evolves_update\<close>)
next
  case (InsertOrder r)
  show ?thesis unfolding InsertOrder by (rule evolvesI [where ms = "[]"]) (simp_all add: table_simps)
next
  case (UpdateOrder i st v now)
  show ?thesis unfolding UpdateOrder
    by (rule evolvesI [where ms = "[]"])
       (use assms UpdateOrder in \<open>auto simp: table_simps intro!: order_evolves_step\<close>)
next
  case (InsertMovement m)
  show ?thesis unfolding InsertMovement by (rule evolvesI [where ms = "[m]"]) (simp_all add: table_simps)
qed

end
