(* ===== verification/Services_Correct.thy ===== *)
theory Services_Correct
  imports Ledger
begin

text \<open>
  The service methods executed symbolically. First the rule for the three statements that
  every change of stock goes through (the assignment, the audit row whose flush writes both,
  the save), then, per method, the conditions under which each branch is taken and the state
  it leaves.
\<close>

section \<open>Normal forms of the world\<close>

lemma set_pending_log [simp]: "set_pending ps (log_statement s w) = log_statement s (set_pending ps w)"
  by (simp add: world_ops)

lemma set_pending_idem: "pending (sess w) = [] \<Longrightarrow> set_pending [] w = w"
  by (simp add: world_ops)

lemma log_tick [simp]: "log_statement s (tick w) = tick (log_statement s w)"
  by (simp add: world_ops)

lemma redis_tick [simp]: "(tick w)\<lparr>redis := r\<rparr> = tick (w\<lparr>redis := r\<rparr>)"
  by (simp add: world_ops)

lemma redis_log [simp]: "(log_statement s w)\<lparr>redis := r\<rparr> = log_statement s (w\<lparr>redis := r\<rparr>)"
  by (simp add: world_ops)

lemma break_tick [simp]: "break_session (tick w) = tick (break_session w)"
  by (simp add: world_ops)

lemma break_log [simp]: "break_session (log_statement s w) = break_session w"
  by (simp add: world_ops)

lemma break_set_pending [simp]: "break_session (set_pending ps w) = break_session w"
  by (simp add: world_ops)

section \<open>A change of stock with its audit row\<close>

definition stock_write ::
  "'r env \<Rightarrow> menu_item \<Rightarrow> menu_item \<Rightarrow> (uuid \<Rightarrow> int \<Rightarrow> stock_movement) \<Rightarrow> ('r, menu_item) io" where
  "stock_write env it it' new =
     and_then (session_modify it it') (\<lambda>_. and_then (create_movement env new) (\<lambda>_. item_save env it'))"

lemma stock_write_fold:
  "and_then (session_modify it it') (\<lambda>_. and_then (create_movement env new) (\<lambda>_.
     and_then (item_save env it') f)) = and_then (stock_write env it it' new) f"
  by (simp add: stock_write_def and_then_assoc)

definition stock_update :: "menu_item \<Rightarrow> menu_item \<Rightarrow> int \<Rightarrow> statement" where
  "stock_update it it' now =
     UpdateItem (item_id it) (patch_stock (patch_of it it')) (patch_version (patch_of it it')) now"

lemma stock_update_columns:
  assumes "it' = it\<lparr>stock_quantity := s, item_version := v\<rparr>"
  shows "set_item_columns (patch_stock (patch_of it it')) (patch_version (patch_of it it')) now it =
           it'\<lparr>item_updated_at := now\<rparr>"
  using assms by (simp add: set_item_columns_def patch_of_def)

lemma stock_update_find:
  assumes "it' = it\<lparr>stock_quantity := s, item_version := v\<rparr>" and "find_item (item_id it) t = Some it"
  shows "find_item i (apply_statement (stock_update it it' now) t) =
           (if i = item_id it then Some (it'\<lparr>item_updated_at := now\<rparr>) else find_item i t)"
  using assms(2) unfolding assms(1) stock_update_def by (simp add: table_simps stock_update_columns [OF refl])

lemma wp_stock_write:
  assumes item: "find_item (item_id it) (view w) = Some it"
    and it': "it' = it\<lparr>stock_quantity := s, item_version := item_version it + 1\<rparr>"
    and sess: "\<not> broken (sess w)" "pending (sess w) = []"
  shows "wp (stock_write env it it' new) Q w =
    (let now = env_utc_now env (calls w); u = stock_update it it' now;
         m = new (env_uuid4 env (Suc (calls w))) (env_utc_now env (Suc (Suc (calls w))))
     in case statement_fault (view w) u of
          Some e \<Rightarrow> Q (Inl e) (tick (break_session w))
        | None \<Rightarrow>
            (case statement_fault (apply_statement u (view w)) (InsertMovement m) of
               Some e \<Rightarrow> Q (Inl e) (tick (tick (tick (break_session w))))
             | None \<Rightarrow> Q (Inr (it'\<lparr>item_updated_at := now\<rparr>))
                 (tick (tick (tick (log_statement (InsertMovement m) (log_statement u w)))))))"
proof -
  let ?now = "env_utc_now env (calls w)"
  let ?u = "stock_update it it' ?now"
  let ?m = "new (env_uuid4 env (Suc (calls w))) (env_utc_now env (Suc (Suc (calls w))))"
  have v: "patch_version (patch_of it it') = Some (item_version it + 1)" and i: "item_id it' = item_id it"
    "patch_id (patch_of it it') = item_id it"
    using it' by (simp_all add: patch_of_def)
  have u: "UpdateItem (item_id it) (patch_stock (patch_of it it')) (Some (item_version it + 1)) ?now = ?u"
    using v by (simp add: stock_update_def)
  have f: "find_item (item_id it) (apply_statement (InsertMovement ?m) (apply_statement ?u (view w))) =
      Some (it'\<lparr>item_updated_at := ?now\<rparr>)"
    using stock_update_find [OF it' item] by (simp add: table_simps)
  show ?thesis
    unfolding stock_write_def create_movement_def item_save_def Let_def
    using sess v
    by (cases "statement_fault (view w) ?u";
        cases "statement_fault (apply_statement ?u (view w)) (InsertMovement ?m)")
       (simp_all add: wp_rules Let_def i u f set_pending_idem)
qed


section \<open>The audited state\<close>

definition audit_ok :: "tables \<Rightarrow> bool" where
  "audit_ok t \<longleftrightarrow> schema_ok t \<and> ledger_ok t \<and> trail_ok t"

lemma audit_okD: "audit_ok t \<Longrightarrow> schema_ok t" "audit_ok t \<Longrightarrow> ledger_ok t" "audit_ok t \<Longrightarrow> trail_ok t"
  by (simp_all add: audit_ok_def)

lemma audit_ok_empty: "audit_ok empty_tables"
  by (simp add: audit_ok_def schema_ok_empty)
     (simp add: ledger_ok_def trail_ok_def empty_tables_def)

text \<open>The movement that a change of stock by a delta leaves behind.\<close>

definition records_change :: "menu_item \<Rightarrow> int \<Rightarrow> uuid option \<Rightarrow> movement_kind \<Rightarrow> stock_movement \<Rightarrow> bool" where
  "records_change it d oid kind m \<longleftrightarrow>
     mv_item_id m = item_id it \<and> stock_before m = stock_quantity it \<and>
     stock_after m = stock_quantity it + d \<and> quantity_delta m = d \<and>
     mv_order_id m = oid \<and> movement_type m = kind"

lemma records_change_init [simp]:
  "records_change it d oid kind
     (stock_movement_init (item_id it) oid kind d (stock_quantity it) n why mid created)
   \<longleftrightarrow> n = stock_quantity it + d"
  by (auto simp: records_change_def stock_movement_init_def)

definition changed_item :: "menu_item \<Rightarrow> int \<Rightarrow> menu_item" where
  "changed_item it d = it\<lparr>stock_quantity := stock_quantity it + d, item_version := item_version it + 1\<rparr>"

lemma changed_item_simps [simp]:
  "item_id (changed_item it d) = item_id it"
  "stock_quantity (changed_item it d) = stock_quantity it + d"
  "item_version (changed_item it d) = item_version it + 1"
  by (simp_all add: changed_item_def)

lemma find_item_change:
  assumes "find_item (item_id it) t = Some it"
  shows "find_item i (apply_statement (stock_update it (changed_item it d) now) t) =
           (if i = item_id it then Some ((changed_item it d)\<lparr>item_updated_at := now\<rparr>) else find_item i t)"
  by (rule stock_update_find [OF changed_item_def assms])

lemma find_order_change [simp]:
  "find_order oid (apply_statement (stock_update it it' now) t) = find_order oid t"
  "order_trail oid (apply_statement (stock_update it it' now) t) = order_trail oid t"
  "trail_ok (apply_statement (stock_update it it' now) t) = trail_ok t"
  by (simp_all add: stock_update_def table_simps trail_ok_items)

lemma schema_ledger_change:
  assumes "audit_ok t" and "find_item (item_id it) t = Some it"
    and "records_change it d oid kind m"
    and "statement_fault t (stock_update it (changed_item it d) now) = None"
    and "statement_fault (apply_statement (stock_update it (changed_item it d) now) t) (InsertMovement m) = None"
  shows "schema_ok (apply_statement (InsertMovement m) (apply_statement (stock_update it (changed_item it d) now) t))"
    and "ledger_ok (apply_statement (InsertMovement m) (apply_statement (stock_update it (changed_item it d) now) t))"
proof -
  let ?u = "stock_update it (changed_item it d) now"
  show s: "schema_ok (apply_statement (InsertMovement m) (apply_statement ?u t))"
    using assms by (intro schema_ok_statement audit_okD)
  have "stock_quantity (set_item_columns (patch_stock (patch_of it (changed_item it d)))
      (patch_version (patch_of it (changed_item it d))) now it) = stock_after m"
    using stock_update_columns [OF changed_item_def] assms(3) by (simp add: records_change_def)
  then show "ledger_ok (apply_statement (InsertMovement m) (apply_statement ?u t))"
    using assms(2,3) s unfolding stock_update_def
    by (intro ledger_ok_stock [OF audit_okD(2) [OF assms(1)]]) (auto simp: records_change_def)
qed

lemma audit_ok_adjustment:
  assumes "audit_ok t" and "find_item (item_id it) t = Some it"
    and "records_change it d None ADJUSTMENT m"
    and "statement_fault t (stock_update it (changed_item it d) now) = None"
    and "statement_fault (apply_statement (stock_update it (changed_item it d) now) t) (InsertMovement m) = None"
  shows "audit_ok (apply_statement (InsertMovement m) (apply_statement (stock_update it (changed_item it d) now) t))"
  using schema_ledger_change [OF assms] assms(1,3) unfolding audit_ok_def
  by (auto simp: records_change_def intro: trail_ok_adjustment)

lemma audit_ok_move:
  assumes "audit_ok t" and "find_order oid t = Some r"
    and "find_item (item_id it) t = Some it" and "order_item_id r = item_id it"
    and "records_change it d (Some oid) kind m" and "kind \<noteq> ADJUSTMENT"
    and "statement_fault t (stock_update it (changed_item it d) now) = None"
    and "statement_fault (apply_statement (stock_update it (changed_item it d) now) t) (InsertMovement m) = None"
    and "trail_for st (quantity r) v (order_trail oid t @ [(kind, d)])" and "int4 v"
  shows "audit_ok (apply_statement (UpdateOrder oid st v now')
           (apply_statement (InsertMovement m) (apply_statement (stock_update it (changed_item it d) now) t)))"
proof -
  let ?t = "apply_statement (stock_update it (changed_item it d) now) t"
  note sl = schema_ledger_change [OF assms(1,3,5,7,8)]
  have s: "schema_ok (apply_statement (UpdateOrder oid st v now') (apply_statement (InsertMovement m) ?t))"
    using assms(10) by (intro schema_ok_statement sl) (simp add: statement_fault.simps)
  have "trail_ok (apply_statement (UpdateOrder oid st v now') (apply_statement (InsertMovement m) ?t))"
    using assms by (intro trail_ok_move [OF _ _ _ _ _ _ s, where r = r]) (auto simp: records_change_def audit_ok_def)
  with s sl(2) show ?thesis by (simp add: audit_ok_def ledger_ok_orders)
qed

lemma audit_ok_status:
  assumes "audit_ok t" and "find_order oid t = Some r"
    and "trail_for st (quantity r) v (order_trail oid t)" and "int4 v"
  shows "audit_ok (apply_statement (UpdateOrder oid st v now) t)"
proof -
  have s: "schema_ok (apply_statement (UpdateOrder oid st v now) t)"
    using assms by (intro schema_ok_statement audit_okD) (simp_all add: statement_fault.simps)
  from trail_ok_update [OF audit_okD(3) [OF assms(1)] assms(2,3) s] s assms(1)
  show ?thesis by (simp add: audit_ok_def ledger_ok_orders)
qed

lemma audit_ok_place:
  assumes "audit_ok t" and "statement_fault t (InsertOrder r) = None"
    and "status r = PENDING" and "order_version r = 1"
  shows "audit_ok (apply_statement (InsertOrder r) t)"
proof -
  have s: "schema_ok (apply_statement (InsertOrder r) t)"
    using assms by (intro schema_ok_statement audit_okD)
  have "find_order (order_id r) t = None"
    using assms(2) by (simp add: statement_fault.simps find_order_None_iff split: if_splits)
  from trail_ok_place [OF audit_okD(3) [OF assms(1)] audit_okD(1) [OF assms(1)] this assms(3,4) s] s assms(1)
  show ?thesis by (simp add: audit_ok_def ledger_ok_orders)
qed

lemma audit_ok_create:
  assumes "audit_ok t" and "statement_fault t (InsertItem it) = None"
    and "records_change (it\<lparr>stock_quantity := 0\<rparr>) (stock_quantity it) None ADJUSTMENT m"
    and "statement_fault (apply_statement (InsertItem it) t) (InsertMovement m) = None"
  shows "audit_ok (apply_statement (InsertMovement m) (apply_statement (InsertItem it) t))"
proof -
  have s: "schema_ok (apply_statement (InsertMovement m) (apply_statement (InsertItem it) t))"
    using assms by (intro schema_ok_statement audit_okD)
  have "find_item (item_id it) t = None"
    using assms(2) by (simp add: statement_fault.simps find_item_None_iff split: if_splits)
  then have "ledger_ok (apply_statement (InsertMovement m) (apply_statement (InsertItem it) t))"
    using assms(1,3) s by (intro ledger_ok_item) (auto simp: audit_ok_def records_change_def)
  moreover have "trail_ok (apply_statement (InsertMovement m) (apply_statement (InsertItem it) t))"
    using assms(1,3) by (intro trail_ok_adjustment) (auto simp: audit_ok_def trail_ok_items records_change_def)
  ultimately show ?thesis using s by (simp add: audit_ok_def)
qed


section \<open>What a service method owes to a request\<close>

text \<open>
  The contract of a method that runs alone in its transaction, from a committed state that is
  audited and agrees with the cache. Whatever it ends in, the state that the end of the request
  leaves committed is audited and agrees with the cache: the transaction's state when the
  request will commit, the state at its start otherwise. It never reports a conflict, nor an
  HTTP error: those are for the endpoints.
\<close>

definition quiet :: "item_patch list \<Rightarrow> bool" where
  "quiet ps \<longleftrightarrow> (\<forall>p \<in> set ps. patch_stock p = None \<and> patch_version p = None)"

lemma quiet_simps [simp]:
  "quiet []" "quiet (p # ps) \<longleftrightarrow> patch_stock p = None \<and> patch_version p = None \<and> quiet ps"
  by (auto simp: quiet_def)

lemma wp_flush_quiet: "quiet ps \<Longrightarrow> wp (flush_patches env ps) Q w = Q (Inr ()) w"
  by (induction ps) (simp_all add: wp_flush_Nil wp_flush_Cons)

fun out_of_place :: "exn \<Rightarrow> bool" where
  "out_of_place (ConflictError resource rid) \<longleftrightarrow> True"
| "out_of_place (HTTPException code detail) \<longleftrightarrow> True"
| "out_of_place _ \<longleftrightarrow> False"

definition in_place :: "exn + 'a \<Rightarrow> bool" where
  "in_place r \<longleftrightarrow> (case r of Inl e \<Rightarrow> \<not> out_of_place e | Inr _ \<Rightarrow> True)"

lemma in_place_simps [simp]: "in_place (Inl e) = (\<not> out_of_place e)" "in_place (Inr a)"
  by (simp_all add: in_place_def)

definition consistent :: "'r cache_service \<Rightarrow> tables \<Rightarrow> 'r \<Rightarrow> bool" where
  "consistent cache t r \<longleftrightarrow> audit_ok t \<and> cache_coherent cache t r"

definition state_ok :: "'r cache_service \<Rightarrow> tables \<Rightarrow> exn + 'a \<Rightarrow> 'r world \<Rightarrow> bool" where
  "state_ok cache t res w \<longleftrightarrow> db w = t \<and>
     (if broken (sess w) then cache_coherent cache t (redis w)
      else quiet (pending (sess w)) \<and> evolves t (view w) \<and>
           (case res of
              Inr _ \<Rightarrow> consistent cache (view w) (redis w)
            | Inl _ \<Rightarrow> consistent cache (view w) (redis w) \<and> cache_coherent cache t (redis w)))"

definition method_ok :: "'r cache_service \<Rightarrow> tables \<Rightarrow> exn + 'a \<Rightarrow> 'r world \<Rightarrow> bool" where
  "method_ok cache t res w \<longleftrightarrow> in_place res \<and> state_ok cache t res w"

lemma state_ok_value: "state_ok cache t (Inr a) w \<Longrightarrow> state_ok cache t (Inr b) w"
  by (auto simp: state_ok_def split: if_splits)

lemma state_ok_error: "state_ok cache t (Inl e) w \<Longrightarrow> state_ok cache t (Inl e') w"
  by (auto simp: state_ok_def split: if_splits)

definition ready :: "'r env \<Rightarrow> 'r cache_service \<Rightarrow> 'r world \<Rightarrow> bool" where
  "ready env cache w \<longleftrightarrow> cache_ok env cache \<and> \<not> broken (sess w) \<and> pending (sess w) = [] \<and>
     view w = db w \<and> consistent cache (db w) (redis w)"

lemma ready_open:
  "cache_ok env cache \<Longrightarrow> consistent cache (db w) (redis w) \<Longrightarrow> ready env cache (open_session w)"
  by (simp add: ready_def)

lemma method_ok_raise: "ready env cache w \<Longrightarrow> \<not> out_of_place e \<Longrightarrow> method_ok cache (db w) (Inl e) w"
  by (simp add: method_ok_def state_ok_def ready_def consistent_def)

lemma method_ok_tick [simp]: "method_ok cache t res (tick w) = method_ok cache t res w"
  by (simp add: method_ok_def state_ok_def split: sum.split)

text \<open>A flush that fails raises an exception of the database layer and leaves nothing executed.\<close>

lemma statement_fault_in_place:
  "statement_fault t s = Some e \<Longrightarrow> \<not> out_of_place e \<and> \<not> is_HTTPException e"
  by (cases s) (auto simp: statement_fault.simps Let_def split: if_splits option.splits)

lemma method_ok_broken:
  assumes "ready env cache w" and "statement_fault t s = Some e"
  shows "method_ok cache (db w) (Inl e) (break_session w)"
  using assms statement_fault_in_place [OF assms(2)]
  by (simp add: method_ok_def state_ok_def ready_def consistent_def)

text \<open>A request whose handler meets the contract leaves a consistent state.\<close>

lemma get_db_consistent:
  assumes "wp handler (state_ok cache (db w)) (open_session w)"
    and "consistent cache (db w) (redis w)"
  shows "consistent cache (db (snd (get_db env handler w))) (redis (snd (get_db env handler w))) \<and>
    evolves (db w) (db (snd (get_db env handler w)))"
proof -
  obtain r w1 where h: "handler (open_session w) = (r, w1)" by fastforce
  with assms(1) have k: "state_ok cache (db w) r w1" by (simp add: wp_def)
  have "wp (get_db env handler) (\<lambda>r' w'. consistent cache (db w') (redis w') \<and> evolves (db w) (db w')) w"
    using k assms(2)
    by (cases r)
       (auto simp: wp_get_db wp_rules wp_result [of handler] h state_ok_def wp_flush_quiet
          consistent_def)
  then show ?thesis by (simp add: wp_result)
qed

text \<open>The contract after a change of stock: the cache has been told, the change recorded.\<close>

lemma stock_of_statement [table_simps]:
  "stock_of (apply_statement (InsertMovement m) t) = stock_of t"
  "stock_of (apply_statement (UpdateOrder oid st v now) t) = stock_of t"
  "stock_of (apply_statement (InsertOrder r) t) = stock_of t"
  by (rule ext, simp add: stock_of_def table_simps)+

lemma cache_coherent_change:
  assumes "cache_ok env cache" and "consistent cache t r" and "find_item (item_id it) t = Some it"
    and "statement_fault t (stock_update it (changed_item it d) now) = None"
  shows "cache_coherent cache (apply_statement (stock_update it (changed_item it d) now) t)
           (after_set env cache (item_id it) (stock_quantity it + d) r)"
proof (rule cache_coherent_set [OF assms(1)])
  let ?u = "stock_update it (changed_item it d) now"
  show "cache_coherent cache t r" using assms(2) by (simp add: consistent_def)
  have f: "find_item (item_id it) (apply_statement ?u t) = Some ((changed_item it d)\<lparr>item_updated_at := now\<rparr>)"
    by (simp add: find_item_change [OF assms(3)])
  have "schema_ok (apply_statement ?u t)"
    using assms(2,4) by (intro schema_ok_statement) (auto simp: consistent_def audit_ok_def)
  from schema_ok_item [OF this f] show "int4 (stock_quantity it + d)" by (simp add: item_types_ok_def)
  show "stock_of (apply_statement ?u t) (item_id it) = Some (stock_quantity it + d)"
    using f by (simp add: stock_of_def)
  show "stock_of (apply_statement ?u t) j = stock_of t j" if "j \<noteq> item_id it" for j
    using that by (simp add: stock_of_def find_item_change [OF assms(3)])
qed


section \<open>The services by branch\<close>

definition change_record ::
  "menu_item \<Rightarrow> int \<Rightarrow> uuid option \<Rightarrow> movement_kind \<Rightarrow> string \<Rightarrow> uuid \<Rightarrow> int \<Rightarrow> stock_movement" where
  "change_record it d oid kind why =
     stock_movement_init (item_id it) oid kind d (stock_quantity it) (stock_quantity it + d) (Some why)"

lemma records_change_record [simp]: "records_change it d oid kind (change_record it d oid kind why mid created)"
  by (simp add: change_record_def)

lemma change_fold:
  "it\<lparr>stock_quantity := stock_quantity it - n, item_version := item_version it + 1\<rparr> = changed_item it (- n)"
  "it\<lparr>stock_quantity := stock_quantity it + n, item_version := item_version it + 1\<rparr> = changed_item it n"
  "stock_movement_init (item_id it) oid kind d (stock_quantity it) (stock_quantity (changed_item it d)) (Some why) =
     change_record it d oid kind why"
  "stock_movement_init (item_id it) oid kind d (stock_quantity it) (stock_quantity it + d) (Some why) =
     change_record it d oid kind why"
  by (simp_all add: changed_item_def change_record_def)

lemma wp_stock_change:
  assumes "find_item (item_id it) (view w) = Some it" "\<not> broken (sess w)" "pending (sess w) = []"
  shows "wp (stock_write env it (changed_item it d) new) Q w =
    (let now = env_utc_now env (calls w); u = stock_update it (changed_item it d) now;
         m = new (env_uuid4 env (Suc (calls w))) (env_utc_now env (Suc (Suc (calls w))))
     in case statement_fault (view w) u of
          Some e \<Rightarrow> Q (Inl e) (tick (break_session w))
        | None \<Rightarrow>
            (case statement_fault (apply_statement u (view w)) (InsertMovement m) of
               Some e \<Rightarrow> Q (Inl e) (tick (tick (tick (break_session w))))
             | None \<Rightarrow> Q (Inr ((changed_item it d)\<lparr>item_updated_at := now\<rparr>))
                 (tick (tick (tick (log_statement (InsertMovement m) (log_statement u w)))))))"
  by (rule wp_stock_write [OF assms(1) changed_item_def assms(2,3)])

text \<open>The world after the change of stock has been written and the cache told.\<close>

definition stock_changed ::
  "'r env \<Rightarrow> 'r cache_service \<Rightarrow> menu_item \<Rightarrow> int \<Rightarrow> (uuid \<Rightarrow> int \<Rightarrow> stock_movement) \<Rightarrow> 'r world \<Rightarrow> 'r world" where
  "stock_changed env cache it d new w =
     tick (tick (tick
       (log_statement (InsertMovement (new (env_uuid4 env (Suc (calls w))) (env_utc_now env (Suc (Suc (calls w))))))
         (log_statement (stock_update it (changed_item it d) (env_utc_now env (calls w)))
           (w\<lparr>redis := after_set env cache (item_id it) (stock_quantity it + d) (redis w)\<rparr>)))))"

definition change_fault ::
  "'r env \<Rightarrow> menu_item \<Rightarrow> int \<Rightarrow> (uuid \<Rightarrow> int \<Rightarrow> stock_movement) \<Rightarrow> 'r world \<Rightarrow> exn option" where
  "change_fault env it d new w =
     (let u = stock_update it (changed_item it d) (env_utc_now env (calls w));
          m = new (env_uuid4 env (Suc (calls w))) (env_utc_now env (Suc (Suc (calls w))))
      in case statement_fault (view w) u of
           Some e \<Rightarrow> Some e
         | None \<Rightarrow> statement_fault (apply_statement u (view w)) (InsertMovement m))"

lemma stock_changed_simps [simp]:
  "sess (stock_changed env cache it d new w) =
     (sess w)\<lparr>executed := executed (sess w)
        @ [stock_update it (changed_item it d) (env_utc_now env (calls w)),
           InsertMovement (new (env_uuid4 env (Suc (calls w))) (env_utc_now env (Suc (Suc (calls w)))))]\<rparr>"
  "db (stock_changed env cache it d new w) = db w"
  "redis (stock_changed env cache it d new w) =
     after_set env cache (item_id it) (stock_quantity it + d) (redis w)"
  "calls (stock_changed env cache it d new w) = Suc (Suc (Suc (calls w)))"
  "view (stock_changed env cache it d new w) =
     apply_statement (InsertMovement (new (env_uuid4 env (Suc (calls w))) (env_utc_now env (Suc (Suc (calls w))))))
       (apply_statement (stock_update it (changed_item it d) (env_utc_now env (calls w))) (view w))"
  by (simp_all add: stock_changed_def) (simp add: world_ops)

text \<open>Change of stock and cache write together, as every service writes them.\<close>

definition stock_write_cached ::
  "'r env \<Rightarrow> 'r cache_service \<Rightarrow> menu_item \<Rightarrow> menu_item \<Rightarrow> (uuid \<Rightarrow> int \<Rightarrow> stock_movement) \<Rightarrow> ('r, menu_item) io" where
  "stock_write_cached env cache it it' new =
     and_then (stock_write env it it' new) (\<lambda>saved.
     and_then (cache_set_stock env cache (item_id saved) (stock_quantity saved)) (\<lambda>_. done_with saved))"

lemma stock_write_cached_fold:
  "and_then (stock_write env it it' new) (\<lambda>saved.
     and_then (cache_set_stock env cache (item_id saved) (stock_quantity saved)) (\<lambda>_. f saved)) =
   and_then (stock_write_cached env cache it it' new) f"
  by (simp add: stock_write_cached_def and_then_assoc)

lemma stock_write_cached_unit_fold:
  "and_then (stock_write env it it' new) (\<lambda>saved.
     cache_set_stock env cache (item_id saved) (stock_quantity saved)) =
   and_then (stock_write_cached env cache it it' new) (\<lambda>_. done_with ())"
  by (rule ext) (simp add: stock_write_cached_def and_then_def done_with_def cache_set_stock_def
      split: prod.split sum.split option.split)

lemma wp_stock_write_cached:
  assumes "find_item (item_id it) (view w) = Some it" "\<not> broken (sess w)" "pending (sess w) = []"
    and "change_fault env it d new w = None"
  shows "wp (stock_write_cached env cache it (changed_item it d) new) Q w =
         Q (Inr ((changed_item it d)\<lparr>item_updated_at := env_utc_now env (calls w)\<rparr>))
           (stock_changed env cache it d new w)"
  using assms unfolding stock_write_cached_def
  by (simp add: wp_and_then wp_cache_set_stock wp_done_with wp_stock_change change_fault_def
      stock_changed_def Let_def split: option.splits)

lemma wp_stock_write_cached_fault:
  assumes "find_item (item_id it) (view w) = Some it" "\<not> broken (sess w)" "pending (sess w) = []"
    and "change_fault env it d new w = Some e" and "\<And>n. Q (Inl e) ((tick ^^ n) (break_session w))"
  shows "wp (stock_write_cached env cache it (changed_item it d) new) Q w"
  unfolding stock_write_cached_def using assms(1-4) assms(5) [of 1] assms(5) [of 3]
  by (auto simp: wp_and_then wp_stock_change change_fault_def Let_def numeral_3_eq_3 split: option.splits)

lemmas stock_folds = stock_write_fold change_fold stock_write_cached_fold stock_write_cached_unit_fold

text \<open>\<open>confirm_order\<close>.\<close>

lemma found_item_id: "find_item i t = Some it \<Longrightarrow> item_id it = i"
  by (rule item_table.fetch_key)

lemma found_order_id: "find_order i t = Some r \<Longrightarrow> order_id r = i"
  by (rule order_table.fetch_key)

lemma confirm_order_missing:
  assumes "find_order oid (view w) = None" "\<not> broken (sess w)"
  shows "confirm_order env cache oid w = (Inl (NotFoundError ''Order'' oid), w)"
  by (rule wp_eqI) (simp add: assms confirm_order_def wp_rules)

lemma confirm_order_invalid:
  assumes "find_order oid (view w) = Some r" "\<not> broken (sess w)" "status r \<noteq> PENDING"
  shows "confirm_order env cache oid w = (Inl (InvalidTransitionError (status r) CONFIRMED), w)"
  by (rule wp_eqI) (use assms in \<open>cases "status r"; simp add: confirm_order_def wp_rules\<close>)

lemma confirm_order_no_item:
  assumes "find_order oid (view w) = Some r" "\<not> broken (sess w)" "status r = PENDING"
    and "find_item (order_item_id r) (view w) = None"
  shows "confirm_order env cache oid w = (Inl (NotFoundError ''MenuItem'' (order_item_id r)), w)"
  by (rule wp_eqI) (simp add: assms confirm_order_def wp_rules)

lemma confirm_order_insufficient:
  assumes "find_order oid (view w) = Some r" "\<not> broken (sess w)" "status r = PENDING"
    and "find_item (order_item_id r) (view w) = Some it" "stock_quantity it < quantity r"
    and "int4 (order_version r + 1)"
  shows "confirm_order env cache oid w =
    (Inl (InsufficientStockError (order_item_id r) (quantity r) (stock_quantity it)),
     tick (log_statement (UpdateOrder oid REJECTED (order_version r + 1) (env_utc_now env (calls w))) w))"
  by (rule wp_eqI) (use assms found_item_id [OF assms(4)] in \<open>simp add: confirm_order_def wp_rules\<close>)

definition deduction :: "uuid \<Rightarrow> order \<Rightarrow> menu_item \<Rightarrow> uuid \<Rightarrow> int \<Rightarrow> stock_movement" where
  "deduction oid r it = change_record it (- quantity r) (Some oid) DEDUCTION (deduction_reason oid)"

definition restoration :: "uuid \<Rightarrow> order \<Rightarrow> menu_item \<Rightarrow> uuid \<Rightarrow> int \<Rightarrow> stock_movement" where
  "restoration oid r it = change_record it (quantity r) (Some oid) RESTORATION (restoration_reason oid)"

lemma wp_confirm_order_deduct:
  assumes "find_order oid (view w) = Some r" "\<not> broken (sess w)" "status r = PENDING"
    and "find_item (order_item_id r) (view w) = Some it" "quantity r \<le> stock_quantity it"
  shows "wp (confirm_order env cache oid) Q w =
    wp (stock_write_cached env cache it (changed_item it (- quantity r)) (deduction oid r it))
      (\<lambda>res w'. case res of Inl e \<Rightarrow> Q (Inl e) w'
         | Inr saved \<Rightarrow> wp (and_then (transition_status env oid (order_version r) CONFIRMED)
             (\<lambda>updated. if \<not> updated then raise_exn (ConflictError ''Order'' oid) else reload_order oid)) Q w') w"
  unfolding confirm_order_def Let_def stock_folds
  using assms found_order_id [OF assms(1)]
  by (simp add: wp_rules deduction_def cong: sum.case_cong)


text \<open>The order row after a change of status, and the end that every transition shares.\<close>

definition moved_order :: "order_status \<Rightarrow> int \<Rightarrow> order \<Rightarrow> order" where
  "moved_order st now r = set_order_columns st (order_version r + 1) now r"

lemma wp_finish_transition:
  assumes "find_order oid (view w) = Some r" "\<not> broken (sess w)" "int4 (order_version r + 1)"
  shows "wp (and_then (transition_status env oid (order_version r) st)
             (\<lambda>updated. if \<not> updated then raise_exn (ConflictError ''Order'' oid) else reload_order oid)) Q w =
         Q (Inr (Some (moved_order st (env_utc_now env (calls w)) r)))
           (tick (log_statement (UpdateOrder oid st (order_version r + 1) (env_utc_now env (calls w))) w))"
  using assms by (simp add: wp_rules reload_order_def table_simps moved_order_def)

lemma find_order_stock_changed [simp]:
  "find_order oid (view (stock_changed env cache it d new w)) = find_order oid (view w)"
  by (simp add: table_simps)

lemma broken_stock_changed [simp]:
  "broken (sess (stock_changed env cache it d new w)) = broken (sess w)"
  "pending (sess (stock_changed env cache it d new w)) = pending (sess w)"
  by simp_all

declare stock_changed_simps(5) [simp del]

lemma confirm_order_deducts:
  assumes "find_order oid (view w) = Some r" "\<not> broken (sess w)" "status r = PENDING"
    and "find_item (order_item_id r) (view w) = Some it" "quantity r \<le> stock_quantity it"
    and "pending (sess w) = []" "change_fault env it (- quantity r) (deduction oid r it) w = None"
    and "int4 (order_version r + 1)"
  shows "confirm_order env cache oid w =
    (Inr (Some (moved_order CONFIRMED (env_utc_now env (calls w + 3)) r)),
     tick (log_statement (UpdateOrder oid CONFIRMED (order_version r + 1) (env_utc_now env (calls w + 3)))
       (stock_changed env cache it (- quantity r) (deduction oid r it) w)))"
proof -
  have "find_item (item_id it) (view w) = Some it" using assms(4) found_item_id by metis
  then show ?thesis
    using assms
    by (intro wp_eqI)
       (simp add: wp_confirm_order_deduct wp_stock_write_cached wp_finish_transition eval_nat_numeral)
qed

lemma confirm_order_fault:
  assumes "find_order oid (view w) = Some r" "\<not> broken (sess w)" "status r = PENDING"
    and "find_item (order_item_id r) (view w) = Some it" "quantity r \<le> stock_quantity it"
    and "pending (sess w) = []" "change_fault env it (- quantity r) (deduction oid r it) w = Some e"
    and "\<And>n. Q (Inl e) ((tick ^^ n) (break_session w))"
  shows "wp (confirm_order env cache oid) Q w"
proof -
  have "find_item (item_id it) (view w) = Some it" using assms(4) found_item_id by metis
  then show ?thesis
    using assms unfolding wp_confirm_order_deduct [OF assms(1-5)]
    by (intro wp_stock_write_cached_fault) auto
qed

text \<open>\<open>ship_order\<close>, \<open>deliver_order\<close>.\<close>

lemma transition_missing:
  assumes "find_order oid (view w) = None" "\<not> broken (sess w)"
  shows "transition env oid st w = (Inl (NotFoundError ''Order'' oid), w)"
  by (rule wp_eqI) (simp add: assms transition_def wp_rules)

lemma transition_invalid:
  assumes "find_order oid (view w) = Some r" "\<not> broken (sess w)" "\<not> can_transition_to (status r) st"
  shows "transition env oid st w = (Inl (InvalidTransitionError (status r) st), w)"
  by (rule wp_eqI) (simp add: assms transition_def wp_rules)

lemma transition_moves:
  assumes "find_order oid (view w) = Some r" "\<not> broken (sess w)" "can_transition_to (status r) st"
    and "int4 (order_version r + 1)"
  shows "transition env oid st w =
    (Inr (Some (moved_order st (env_utc_now env (calls w)) r)),
     tick (log_statement (UpdateOrder oid st (order_version r + 1) (env_utc_now env (calls w))) w))"
  by (rule wp_eqI)
     (simp add: assms transition_def wp_and_then [of "order_get_by_id oid"] wp_order_get_by_id
        wp_finish_transition)

text \<open>\<open>cancel_order\<close>.\<close>

lemma cancel_order_missing:
  assumes "find_order oid (view w) = None" "\<not> broken (sess w)"
  shows "cancel_order env cache oid w = (Inl (NotFoundError ''Order'' oid), w)"
  by (rule wp_eqI) (simp add: assms cancel_order_def wp_rules)

lemma cancel_order_invalid:
  assumes "find_order oid (view w) = Some r" "\<not> broken (sess w)" "\<not> can_transition_to (status r) CANCELLED"
  shows "cancel_order env cache oid w = (Inl (InvalidTransitionError (status r) CANCELLED), w)"
  by (rule wp_eqI) (simp add: assms cancel_order_def wp_rules)

lemma cancel_order_pending:
  assumes "find_order oid (view w) = Some r" "\<not> broken (sess w)" "status r = PENDING"
    and "int4 (order_version r + 1)"
  shows "cancel_order env cache oid w =
    (Inr (Some (moved_order CANCELLED (env_utc_now env (calls w)) r)),
     tick (log_statement (UpdateOrder oid CANCELLED (order_version r + 1) (env_utc_now env (calls w))) w))"
  by (rule wp_eqI)
     (simp add: assms cancel_order_def wp_and_then [of "order_get_by_id oid"] wp_order_get_by_id
        wp_finish_transition stock_holding_states_def)

lemma wp_cancel_order_restore:
  assumes "find_order oid (view w) = Some r" "\<not> broken (sess w)"
    and "status r = CONFIRMED \<or> status r = SHIPPED"
    and "find_item (order_item_id r) (view w) = Some it"
  shows "wp (cancel_order env cache oid) Q w =
    wp (stock_write_cached env cache it (changed_item it (quantity r)) (restoration oid r it))
      (\<lambda>res w'. case res of Inl e \<Rightarrow> Q (Inl e) w'
         | Inr saved \<Rightarrow> wp (and_then (transition_status env oid (order_version r) CANCELLED)
             (\<lambda>updated. if \<not> updated then raise_exn (ConflictError ''Order'' oid) else reload_order oid)) Q w') w"
  unfolding cancel_order_def restore_stock_def Let_def stock_folds
  using assms found_order_id [OF assms(1)]
  by (auto simp: wp_and_then wp_order_get_by_id wp_item_get_by_id wp_if wp_done_with restoration_def
      stock_holding_states_def cong: sum.case_cong)

lemma cancel_order_restores:
  assumes "find_order oid (view w) = Some r" "\<not> broken (sess w)"
    and "status r = CONFIRMED \<or> status r = SHIPPED"
    and "find_item (order_item_id r) (view w) = Some it"
    and "pending (sess w) = []" "change_fault env it (quantity r) (restoration oid r it) w = None"
    and "int4 (order_version r + 1)"
  shows "cancel_order env cache oid w =
    (Inr (Some (moved_order CANCELLED (env_utc_now env (calls w + 3)) r)),
     tick (log_statement (UpdateOrder oid CANCELLED (order_version r + 1) (env_utc_now env (calls w + 3)))
       (stock_changed env cache it (quantity r) (restoration oid r it) w)))"
proof -
  have "find_item (item_id it) (view w) = Some it" using assms(4) found_item_id by metis
  then show ?thesis
    using assms
    by (intro wp_eqI)
       (simp add: wp_cancel_order_restore wp_stock_write_cached wp_finish_transition eval_nat_numeral)
qed

lemma cancel_order_fault:
  assumes "find_order oid (view w) = Some r" "\<not> broken (sess w)"
    and "status r = CONFIRMED \<or> status r = SHIPPED"
    and "find_item (order_item_id r) (view w) = Some it"
    and "pending (sess w) = []" "change_fault env it (quantity r) (restoration oid r it) w = Some e"
    and "\<And>n. Q (Inl e) ((tick ^^ n) (break_session w))"
  shows "wp (cancel_order env cache oid) Q w"
proof -
  have "find_item (item_id it) (view w) = Some it" using assms(4) found_item_id by metis
  then show ?thesis
    using assms unfolding wp_cancel_order_restore [OF assms(1-4)]
    by (intro wp_stock_write_cached_fault) auto
qed


text \<open>\<open>adjust_stock\<close>.\<close>

lemma adjust_stock_missing:
  assumes "find_item iid (view w) = None" "\<not> broken (sess w)"
  shows "adjust_stock env cache iid delta why w = (Inl (NotFoundError ''MenuItem'' iid), w)"
  by (rule wp_eqI) (simp add: assms adjust_stock_def wp_rules)

lemma adjust_stock_insufficient:
  assumes "find_item iid (view w) = Some it" "\<not> broken (sess w)" "stock_quantity it + delta < 0"
  shows "adjust_stock env cache iid delta why w =
    (Inl (InsufficientStockError iid \<bar>delta\<bar> (stock_quantity it)), w)"
  by (rule wp_eqI) (simp add: assms adjust_stock_def wp_rules Let_def)

definition adjustment :: "menu_item \<Rightarrow> int \<Rightarrow> string \<Rightarrow> uuid \<Rightarrow> int \<Rightarrow> stock_movement" where
  "adjustment it delta why = change_record it delta None ADJUSTMENT why"

lemma wp_adjust_stock:
  assumes "find_item iid (view w) = Some it" "\<not> broken (sess w)" "0 \<le> stock_quantity it + delta"
  shows "wp (adjust_stock env cache iid delta why) Q w =
    wp (stock_write_cached env cache it (changed_item it delta) (adjustment it delta why)) Q w"
  unfolding adjust_stock_def Let_def stock_folds
  using assms
  by (simp add: wp_and_then wp_item_get_by_id wp_done_with adjustment_def cong: sum.case_cong)
     (simp add: wp_def split: prod.split sum.split)

lemma adjust_stock_adjusts:
  assumes "find_item iid (view w) = Some it" "\<not> broken (sess w)" "0 \<le> stock_quantity it + delta"
    and "pending (sess w) = []" "change_fault env it delta (adjustment it delta why) w = None"
  shows "adjust_stock env cache iid delta why w =
    (Inr ((changed_item it delta)\<lparr>item_updated_at := env_utc_now env (calls w)\<rparr>),
     stock_changed env cache it delta (adjustment it delta why) w)"
proof -
  have "find_item (item_id it) (view w) = Some it" using assms(1) found_item_id by metis
  then show ?thesis
    using assms by (intro wp_eqI) (simp add: wp_adjust_stock wp_stock_write_cached)
qed

lemma adjust_stock_fault:
  assumes "find_item iid (view w) = Some it" "\<not> broken (sess w)" "0 \<le> stock_quantity it + delta"
    and "pending (sess w) = []" "change_fault env it delta (adjustment it delta why) w = Some e"
    and "\<And>n. Q (Inl e) ((tick ^^ n) (break_session w))"
  shows "wp (adjust_stock env cache iid delta why) Q w"
proof -
  have "find_item (item_id it) (view w) = Some it" using assms(1) found_item_id by metis
  then show ?thesis
    using assms unfolding wp_adjust_stock [OF assms(1-3)]
    by (intro wp_stock_write_cached_fault) auto
qed

text \<open>\<open>create_item\<close>: the row, the first movement, the cache.\<close>

definition new_item ::
  "'r env \<Rightarrow> string \<Rightarrow> int \<Rightarrow> int \<Rightarrow> string option \<Rightarrow> int \<Rightarrow> 'r world \<Rightarrow> menu_item" where
  "new_item env name price stock description threshold w =
     menu_item_init name description price (Some stock) (Some threshold) None
       (env_uuid4 env (calls w)) (env_utc_now env (calls w + 1)) (env_utc_now env (calls w + 2))"

definition first_movement :: "'r env \<Rightarrow> menu_item \<Rightarrow> 'r world \<Rightarrow> stock_movement" where
  "first_movement env it w =
     stock_movement_init (item_id it) None ADJUSTMENT (stock_quantity it) 0 (stock_quantity it)
       (Some initial_stock_reason) (env_uuid4 env (calls w + 3)) (env_utc_now env (calls w + 4))"

lemma new_item_simps [simp]:
  "item_id (new_item env name price stock description threshold w) = env_uuid4 env (calls w)"
  "item_name (new_item env name price stock description threshold w) = name"
  "item_price (new_item env name price stock description threshold w) = price"
  "item_description (new_item env name price stock description threshold w) = description"
  "stock_quantity (new_item env name price stock description threshold w) = stock"
  "low_stock_threshold (new_item env name price stock description threshold w) = threshold"
  "item_version (new_item env name price stock description threshold w) = 1"
  by (simp_all add: new_item_def menu_item_init_def)

lemma records_first_movement:
  "records_change (it\<lparr>stock_quantity := 0\<rparr>) (stock_quantity it) None ADJUSTMENT (first_movement env it w)"
  by (simp add: records_change_def first_movement_def stock_movement_init_def)

lemma find_item_inserted:
  "statement_fault t (InsertItem it) = None \<Longrightarrow> find_item (item_id it) (apply_statement (InsertItem it) t) = Some it"
  by (simp add: statement_fault.simps table_simps find_item_None_iff [symmetric] split: if_splits)

lemma wp_create_item:
  assumes "\<not> broken (sess w)" "pending (sess w) = []"
    and it: "it = new_item env name price stock description threshold w"
    and m: "m = first_movement env it w"
  shows "wp (create_item env cache name price stock description threshold) Q w =
    (case statement_fault (view w) (InsertItem it) of
       Some e \<Rightarrow> Q (Inl e) (tick (tick (tick (break_session w))))
     | None \<Rightarrow>
         (case statement_fault (apply_statement (InsertItem it) (view w)) (InsertMovement m) of
            Some e \<Rightarrow> Q (Inl e) (tick (tick (tick (tick (tick (break_session w))))))
          | None \<Rightarrow> Q (Inr it)
              (tick (tick (tick (tick (tick (log_statement (InsertMovement m) (log_statement (InsertItem it)
                 (w\<lparr>redis := after_set env cache (item_id it) (stock_quantity it) (redis w)\<rparr>))))))))))"
proof -
  have row: "menu_item_init name description price (Some stock) (Some threshold) None
      (env_uuid4 env (calls w)) (env_utc_now env (Suc (calls w))) (env_utc_now env (Suc (Suc (calls w)))) = it"
    by (simp add: it new_item_def eval_nat_numeral)
  have [simp]: "stock_quantity it = stock" by (simp add: it)
  have mv: "stock_movement_init (item_id it) None ADJUSTMENT stock 0 stock (Some initial_stock_reason)
      (env_uuid4 env (Suc (Suc (Suc (calls w))))) (env_utc_now env (Suc (Suc (Suc (Suc (calls w)))))) = m"
    by (simp add: m first_movement_def eval_nat_numeral)
  show ?thesis
    using assms(1,2)
    by (cases "statement_fault (view w) (InsertItem it)")
       (simp_all add: create_item_def item_create_def session_insert_item_def create_movement_def
          wp_rules set_pending_idem row mv find_item_inserted cong: option.case_cong)
qed

text \<open>\<open>place_order\<close>.\<close>

definition new_order :: "'r env \<Rightarrow> uuid \<Rightarrow> int \<Rightarrow> string option \<Rightarrow> 'r world \<Rightarrow> order" where
  "new_order env iid qty ref w =
     order_init iid qty (Some PENDING) ref (env_uuid4 env (calls w))
       (env_utc_now env (calls w + 1)) (env_utc_now env (calls w + 2))"

lemma new_order_simps [simp]:
  "order_id (new_order env iid qty ref w) = env_uuid4 env (calls w)"
  "order_item_id (new_order env iid qty ref w) = iid"
  "quantity (new_order env iid qty ref w) = qty"
  "status (new_order env iid qty ref w) = PENDING"
  "customer_ref (new_order env iid qty ref w) = ref"
  "order_version (new_order env iid qty ref w) = 1"
  by (simp_all add: new_order_def order_init_def)

lemma find_order_inserted:
  "statement_fault t (InsertOrder r) = None \<Longrightarrow> find_order (order_id r) (apply_statement (InsertOrder r) t) = Some r"
  by (simp add: statement_fault.simps table_simps find_order_None_iff [symmetric] split: if_splits)

lemma place_order_missing:
  assumes "find_item iid (view w) = None" "\<not> broken (sess w)"
  shows "place_order env iid qty ref w = (Inl (NotFoundError ''MenuItem'' iid), w)"
  by (rule wp_eqI) (simp add: assms place_order_def wp_rules)

lemma wp_place_order:
  assumes "\<not> broken (sess w)" "pending (sess w) = []" "find_item iid (view w) = Some it"
    and r: "r = new_order env iid qty ref w"
  shows "wp (place_order env iid qty ref) Q w =
    (case statement_fault (view w) (InsertOrder r) of
       Some e \<Rightarrow> Q (Inl e) (tick (tick (tick (break_session w))))
     | None \<Rightarrow> Q (Inr r) (tick (tick (tick (log_statement (InsertOrder r) w)))))"
proof -
  have row: "order_init iid qty (Some PENDING) ref (env_uuid4 env (calls w))
      (env_utc_now env (Suc (calls w))) (env_utc_now env (Suc (Suc (calls w)))) = r"
    by (simp add: r new_order_def eval_nat_numeral)
  show ?thesis
    using assms(1-3)
    by (cases "statement_fault (view w) (InsertOrder r)")
       (simp_all add: place_order_def order_create_def wp_rules set_pending_idem row find_order_inserted)
qed

text \<open>\<open>get_stock\<close>: the cached quantity replaces the one of the row.\<close>

lemma wp_get_stock:
  assumes "\<not> broken (sess w)"
  shows "wp (get_stock cache iid) Q w =
    (let w' = w\<lparr>redis := after_get cache iid (redis w)\<rparr>
     in case find_item iid (view w) of
          None \<Rightarrow> Q (Inl (NotFoundError ''MenuItem'' iid)) w'
        | Some it \<Rightarrow>
            (case cached cache iid (redis w) of
               None \<Rightarrow> Q (Inr it) w'
             | Some q \<Rightarrow> Q (Inr (it\<lparr>stock_quantity := q\<rparr>))
                 (set_pending (pending (sess w) @ [patch_of it (it\<lparr>stock_quantity := q\<rparr>)]) w')))"
  using assms by (simp add: get_stock_def wp_rules Let_def cong: option.case_cong)

end
