(* ===== verification/Service_Contracts.thy ===== *)
theory Service_Contracts
  imports Services_Correct
begin

text \<open>
  Every service method meets the contract \<open>method_ok\<close>: run alone in its transaction from a
  consistent state it leaves the audited tables and the cache consistent, whatever branch it
  takes, and it never reports a conflict. The proofs are case analyses over the branch lemmas
  of \<open>Services_Correct\<close>.
\<close>

section \<open>Shared steps\<close>

lemma readyD:
  assumes "ready env cache w"
  shows "cache_ok env cache" "\<not> broken (sess w)" "pending (sess w) = []" "view w = db w"
    "audit_ok (db w)" "cache_coherent cache (db w) (redis w)" "consistent cache (db w) (redis w)"
  using assms by (simp_all add: ready_def consistent_def)

lemma method_ok_ticks [simp]: "method_ok cache t res ((tick ^^ n) w) = method_ok cache t res w"
  by (induction n) simp_all

lemma change_fault_in_place:
  "change_fault env it d new w = Some e \<Longrightarrow> \<not> out_of_place e \<and> \<not> is_HTTPException e"
  using statement_fault_in_place by (fastforce simp: change_fault_def Let_def split: option.splits)

lemma method_ok_change_fault:
  assumes "ready env cache w" and "change_fault env it d new w = Some e"
  shows "method_ok cache (db w) (Inl e) (break_session w)"
  using readyD [OF assms(1)] change_fault_in_place [OF assms(2)]
  by (simp add: method_ok_def state_ok_def)

lemma change_fault_None:
  assumes "change_fault env it d new w = None"
  shows "statement_fault (view w) (stock_update it (changed_item it d) (env_utc_now env (calls w))) = None"
    and "statement_fault (apply_statement (stock_update it (changed_item it d) (env_utc_now env (calls w))) (view w))
      (InsertMovement (new (env_uuid4 env (Suc (calls w))) (env_utc_now env (Suc (Suc (calls w)))))) = None"
  using assms by (auto simp: change_fault_def Let_def split: option.splits)

text \<open>The state after an audited change of stock, and after the status that goes with it.\<close>

lemma view_stock_changed:
  "view (stock_changed env cache it d new w) =
     apply_statement (InsertMovement (new (env_uuid4 env (Suc (calls w))) (env_utc_now env (Suc (Suc (calls w))))))
       (apply_statement (stock_update it (changed_item it d) (env_utc_now env (calls w))) (view w))"
  by (rule stock_changed_simps(5))

lemma coherent_stock_changed:
  assumes "ready env cache w" and "find_item (item_id it) (db w) = Some it"
    and "change_fault env it d new w = None"
  shows "cache_coherent cache (view (stock_changed env cache it d new w))
           (redis (stock_changed env cache it d new w))"
proof -
  have "cache_coherent cache
      (apply_statement (stock_update it (changed_item it d) (env_utc_now env (calls w))) (db w))
      (after_set env cache (item_id it) (stock_quantity it + d) (redis w))"
    using cache_coherent_change [OF readyD(1) [OF assms(1)] readyD(7) [OF assms(1)] assms(2)]
      change_fault_None(1) [OF assms(3)] readyD(4) [OF assms(1)] by simp
  then show ?thesis
    by (subst cache_coherent_cong [of _ "apply_statement (stock_update it (changed_item it d)
          (env_utc_now env (calls w))) (db w)"])
       (simp_all add: view_stock_changed table_simps readyD(4) [OF assms(1)])
qed

lemma evolves_change:
  assumes "find_item (item_id it) t = Some it"
  shows "evolves t (apply_statement (InsertMovement m) (apply_statement (stock_update it (changed_item it d) now) t))"
proof -
  have "sound_statement t (stock_update it (changed_item it d) now)"
    using assms by (simp add: stock_update_def patch_of_def)
  then have "evolves t (apply_statement (stock_update it (changed_item it d) now) t)"
    by (rule evolves_statement)
  moreover have "evolves (apply_statement (stock_update it (changed_item it d) now) t)
      (apply_statement (InsertMovement m) (apply_statement (stock_update it (changed_item it d) now) t))"
    by (rule evolves_statement) simp
  ultimately show ?thesis by (rule evolves_trans)
qed

lemma evolves_status:
  assumes "find_order oid t = Some r" and "can_transition_to (status r) st"
  shows "evolves t (apply_statement (UpdateOrder oid st (order_version r + 1) now) t)"
  by (rule evolves_statement) (simp add: assms)

lemma method_ok_move:
  assumes "ready env cache w" and "find_order oid (db w) = Some r"
    and "find_item (order_item_id r) (db w) = Some it"
    and "\<And>mid created. records_change it d (Some oid) kind (new mid created)" and "kind \<noteq> ADJUSTMENT"
    and "change_fault env it d new w = None"
    and "trail_for st (quantity r) v (order_trail oid (db w) @ [(kind, d)])" and "int4 v"
    and "can_transition_to (status r) st" and "v = order_version r + 1"
  shows "method_ok cache (db w) (Inr a)
           (tick (log_statement (UpdateOrder oid st v now) (stock_changed env cache it d new w)))"
proof -
  note r = readyD [OF assms(1)]
  have i: "find_item (item_id it) (db w) = Some it" "order_item_id r = item_id it"
    using assms(3) found_item_id by metis+
  have "audit_ok (apply_statement (UpdateOrder oid st v now) (view (stock_changed env cache it d new w)))"
    unfolding view_stock_changed r(4)
    by (rule audit_ok_move [OF r(5) assms(2) i assms(4,5) _ _ assms(7,8)])
       (use change_fault_None [OF assms(6)] r(4) in simp_all)
  moreover have "cache_coherent cache
      (apply_statement (UpdateOrder oid st v now) (view (stock_changed env cache it d new w)))
      (redis (stock_changed env cache it d new w))"
    using coherent_stock_changed [OF assms(1) i(1) assms(6)]
    by (subst cache_coherent_cong [of _ "view (stock_changed env cache it d new w)"])
       (simp_all add: table_simps)
  moreover have "evolves (db w) (apply_statement (UpdateOrder oid st v now) (view (stock_changed env cache it d new w)))"
  proof (rule evolves_trans)
    show "evolves (db w) (view (stock_changed env cache it d new w))"
      unfolding view_stock_changed r(4) by (rule evolves_change [OF i(1)])
    show "evolves (view (stock_changed env cache it d new w))
        (apply_statement (UpdateOrder oid st v now) (view (stock_changed env cache it d new w)))"
      using assms(2,9) r(4) unfolding assms(10) by (intro evolves_status) simp_all
  qed
  ultimately show ?thesis using r(2,3) by (simp add: method_ok_def state_ok_def consistent_def)
qed

lemma consistent_status:
  assumes "ready env cache w" and "find_order oid (db w) = Some r"
    and "trail_for st (quantity r) v (order_trail oid (db w))" and "int4 v"
  shows "consistent cache (apply_statement (UpdateOrder oid st v now) (view w)) (redis w)"
  using audit_ok_status [OF readyD(5) [OF assms(1)] assms(2-4)] readyD(4) [OF assms(1)] readyD(6) [OF assms(1)]
    cache_coherent_cong [of "apply_statement (UpdateOrder oid st v now) (db w)" "db w" cache "redis w"]
  by (simp add: consistent_def table_simps)

lemma method_ok_status:
  assumes "ready env cache w" and "find_order oid (db w) = Some r"
    and "trail_for st (quantity r) v (order_trail oid (db w))" and "int4 v" and "in_place res"
    and "can_transition_to (status r) st" and "v = order_version r + 1"
  shows "method_ok cache (db w) res (log_statement (UpdateOrder oid st v now) w)"
  using consistent_status [OF assms(1-4)] readyD [OF assms(1)] assms(5)
    evolves_status [OF assms(2,6)] unfolding assms(7)
  by (simp add: method_ok_def state_ok_def split: sum.split)

lemma trail_at:
  assumes "ready env cache w" and "find_order oid (db w) = Some r"
  shows "trail_for (status r) (quantity r) (order_version r) (order_trail oid (db w))"
  by (rule trail_ok_find [OF audit_okD(3) [OF readyD(5) [OF assms(1)]] assms(2)])

lemma trail_for_version:
  "trail_for st q v tr \<Longrightarrow> 1 \<le> v \<and> v \<le> 4 \<and> int4 v \<and> int4 (v + 1)"
  by (cases st) (auto simp: int4_def)

section \<open>The services\<close>

lemma confirm_order_ok:
  assumes "ready env cache w"
  shows "wp (confirm_order env cache oid) (method_ok cache (db w)) w"
proof (cases "find_order oid (db w)")
  case None
  with readyD [OF assms] show ?thesis
    by (simp add: wp_def confirm_order_missing method_ok_raise [OF assms])
next
  case (Some r)
  note rd = readyD [OF assms] and trail = trail_at [OF assms Some]
  show ?thesis
  proof (cases "status r = PENDING")
    case False
    with Some rd show ?thesis by (simp add: wp_def confirm_order_invalid method_ok_raise [OF assms])
  next
    case pending: True
    obtain it where it: "find_item (order_item_id r) (db w) = Some it"
      using schema_ok_order [OF audit_okD(1) [OF rd(5)] Some] by blast
    have tr: "order_trail oid (db w) = []" "order_version r = 1" using trail pending by simp_all
    show ?thesis
    proof (cases "stock_quantity it < quantity r")
      case True
      with Some rd pending it tr show ?thesis
        by (simp add: wp_def confirm_order_insufficient int4_def method_ok_status [OF assms Some])
    next
      case False
      let ?fault = "change_fault env it (- quantity r) (deduction oid r it) w"
      show ?thesis
      proof (cases ?fault)
        case (Some e)
        then show ?thesis
          using \<open>find_order oid (db w) = Some r\<close> rd pending it False
          by (intro confirm_order_fault [of oid w r it env e]) (auto intro: method_ok_change_fault [OF assms])
      next
        case None
        have "method_ok cache (db w) (Inr a) (tick (log_statement (UpdateOrder oid CONFIRMED 2 now)
            (stock_changed env cache it (- quantity r) (deduction oid r it) w)))" for a :: "order option" and now
          by (rule method_ok_move [OF assms Some it, where kind = DEDUCTION])
             (use None tr pending in \<open>simp_all add: deduction_def int4_def\<close>)
        with None Some rd pending it tr False show ?thesis
          by (simp add: wp_def confirm_order_deducts int4_def)
      qed
    qed
  qed
qed

lemma transition_ok:
  assumes "ready env cache w" and "st = SHIPPED \<or> st = DELIVERED"
  shows "wp (transition env oid st) (method_ok cache (db w)) w"
proof (cases "find_order oid (db w)")
  case None
  with readyD [OF assms(1)] show ?thesis
    by (simp add: wp_def transition_missing method_ok_raise [OF assms(1)])
next
  case (Some r)
  note rd = readyD [OF assms(1)] and trail = trail_at [OF assms(1) Some]
  show ?thesis
  proof (cases "can_transition_to (status r) st")
    case False
    with Some rd show ?thesis by (simp add: wp_def transition_invalid method_ok_raise [OF assms(1)])
  next
    case True
    have "trail_for st (quantity r) (order_version r + 1) (order_trail oid (db w))"
      using trail True assms(2) by (cases "status r") auto
    with True Some rd trail_for_version [OF trail] show ?thesis
      by (simp add: wp_def transition_moves method_ok_status [OF assms(1) Some] trail_for_version)
  qed
qed

lemma cancel_order_ok:
  assumes "ready env cache w"
  shows "wp (cancel_order env cache oid) (method_ok cache (db w)) w"
proof (cases "find_order oid (db w)")
  case None
  with readyD [OF assms] show ?thesis
    by (simp add: wp_def cancel_order_missing method_ok_raise [OF assms])
next
  case (Some r)
  note rd = readyD [OF assms] and trail = trail_at [OF assms Some]
  have v: "int4 (order_version r + 1)" using trail_for_version [OF trail] by simp
  consider (no) "\<not> can_transition_to (status r) CANCELLED" | (pending) "status r = PENDING"
    | (holding) "status r = CONFIRMED \<or> status r = SHIPPED"
    by (cases "status r") auto
  then show ?thesis
  proof cases
    case no
    with Some rd show ?thesis by (simp add: wp_def cancel_order_invalid method_ok_raise [OF assms])
  next
    case pending
    with Some rd trail v show ?thesis
      by (simp add: wp_def cancel_order_pending method_ok_status [OF assms Some])
  next
    case holding
    obtain it where it: "find_item (order_item_id r) (db w) = Some it"
      using schema_ok_order [OF audit_okD(1) [OF rd(5)] Some] by blast
    let ?fault = "change_fault env it (quantity r) (restoration oid r it) w"
    show ?thesis
    proof (cases ?fault)
      case (Some e)
      then show ?thesis
        using \<open>find_order oid (db w) = Some r\<close> rd holding it
        by (intro cancel_order_fault [of oid w r it env e]) (auto intro: method_ok_change_fault [OF assms])
    next
      case None
      have "method_ok cache (db w) (Inr a) (tick (log_statement (UpdateOrder oid CANCELLED (order_version r + 1) now)
          (stock_changed env cache it (quantity r) (restoration oid r it) w)))" for a :: "order option" and now
        by (rule method_ok_move [OF assms Some it, where kind = RESTORATION])
           (use None trail holding v in \<open>auto simp: restoration_def\<close>)
      with None Some rd holding it v show ?thesis
        by (simp add: wp_def cancel_order_restores)
    qed
  qed
qed


lemma adjust_stock_ok:
  assumes "ready env cache w"
  shows "wp (adjust_stock env cache iid delta why) (method_ok cache (db w)) w"
proof (cases "find_item iid (db w)")
  case None
  with readyD [OF assms] show ?thesis
    by (simp add: wp_def adjust_stock_missing method_ok_raise [OF assms])
next
  case (Some it)
  note rd = readyD [OF assms]
  show ?thesis
  proof (cases "stock_quantity it + delta < 0")
    case True
    with Some rd show ?thesis
      by (simp add: wp_def adjust_stock_insufficient method_ok_raise [OF assms])
  next
    case False
    let ?fault = "change_fault env it delta (adjustment it delta why) w"
    have i: "find_item (item_id it) (db w) = Some it" using Some found_item_id by metis
    show ?thesis
    proof (cases ?fault)
      case (Some e)
      then show ?thesis
        using \<open>find_item iid (db w) = Some it\<close> rd False
        by (intro adjust_stock_fault [of iid w it delta env why e])
           (auto intro: method_ok_change_fault [OF assms])
    next
      case None
      have "audit_ok (view (stock_changed env cache it delta (adjustment it delta why) w))"
        unfolding view_stock_changed rd(4)
        by (rule audit_ok_adjustment [OF rd(5) i])
           (use change_fault_None [OF None] rd(4) in \<open>simp_all add: adjustment_def\<close>)
      moreover have "evolves (db w) (view (stock_changed env cache it delta (adjustment it delta why) w))"
        unfolding view_stock_changed rd(4) by (rule evolves_change [OF i])
      ultimately show ?thesis using coherent_stock_changed [OF assms i None] None Some rd False
        by (simp add: wp_def adjust_stock_adjusts method_ok_def state_ok_def consistent_def)
    qed
  qed
qed

lemma stock_of_inserted:
  assumes "statement_fault t (InsertItem it) = None"
  shows "stock_of (apply_statement (InsertItem it) t) (item_id it) = Some (stock_quantity it)"
    and "j \<noteq> item_id it \<Longrightarrow> stock_of (apply_statement (InsertItem it) t) j = stock_of t j"
  using find_item_inserted [OF assms] by (auto simp: stock_of_def table_simps split: option.split)

lemma create_item_ok:
  assumes "ready env cache w"
  shows "wp (create_item env cache name price stock description threshold) (method_ok cache (db w)) w"
proof -
  note rd = readyD [OF assms]
  let ?it = "new_item env name price stock description threshold w"
  let ?m = "first_movement env ?it w"
  let ?r = "after_set env cache (item_id ?it) (stock_quantity ?it) (redis w)"
  have good: "consistent cache (apply_statement (InsertMovement ?m) (apply_statement (InsertItem ?it) (db w))) ?r"
    if f: "statement_fault (db w) (InsertItem ?it) = None"
      "statement_fault (apply_statement (InsertItem ?it) (db w)) (InsertMovement ?m) = None"
  proof -
    have "int4 stock"
      using f(1) by (auto simp: statement_fault.simps item_types_ok_def split: if_splits)
    then have "cache_coherent cache (apply_statement (InsertItem ?it) (db w)) ?r"
      using stock_of_inserted [OF f(1)] by (intro cache_coherent_set [OF rd(1) rd(6)]) simp_all
    moreover have "audit_ok (apply_statement (InsertMovement ?m) (apply_statement (InsertItem ?it) (db w)))"
      by (rule audit_ok_create [OF rd(5) f(1) records_first_movement f(2)])
    ultimately show ?thesis
      using cache_coherent_cong [of "apply_statement (InsertMovement ?m) (apply_statement (InsertItem ?it) (db w))"
          "apply_statement (InsertItem ?it) (db w)" cache ?r]
      by (simp add: consistent_def table_simps)
  qed
  have ev: "evolves (db w) (apply_statement (InsertMovement ?m) (apply_statement (InsertItem ?it) (db w)))"
    by (rule evolves_trans; rule evolves_statement) simp_all
  show ?thesis
    unfolding wp_create_item [OF rd(2,3) refl refl] rd(4)
    using good method_ok_broken [OF assms] rd ev
    by (auto simp: method_ok_def state_ok_def split: option.split)
qed

lemma place_order_ok:
  assumes "ready env cache w"
  shows "wp (place_order env iid qty ref) (method_ok cache (db w)) w"
proof (cases "find_item iid (db w)")
  case None
  with readyD [OF assms] show ?thesis
    by (simp add: wp_def place_order_missing method_ok_raise [OF assms])
next
  case (Some it)
  note rd = readyD [OF assms]
  let ?r = "new_order env iid qty ref w"
  have good: "consistent cache (apply_statement (InsertOrder ?r) (db w)) (redis w)"
    if "statement_fault (db w) (InsertOrder ?r) = None"
    using audit_ok_place [OF rd(5) that] rd(6)
      cache_coherent_cong [of "apply_statement (InsertOrder ?r) (db w)" "db w" cache "redis w"]
    by (simp add: consistent_def table_simps)
  have ev: "evolves (db w) (apply_statement (InsertOrder ?r) (db w))"
    by (rule evolves_statement) simp
  have found: "find_item iid (view w) = Some it" using Some rd(4) by simp
  show ?thesis
    unfolding wp_place_order [OF rd(2,3) found refl] rd(4)
    using good method_ok_broken [OF assms] rd ev
    by (auto simp: method_ok_def state_ok_def split: option.split)
qed

lemma get_stock_ok:
  assumes "ready env cache w"
  shows "wp (get_stock cache iid) (method_ok cache (db w)) w"
proof -
  note rd = readyD [OF assms]
  have c: "cache_coherent cache (db w) (after_get cache iid (redis w))"
    by (rule cache_coherent_get [OF rd(1,6)])
  have q: "stock_quantity it = q"
    if "find_item iid (db w) = Some it" "cached cache iid (redis w) = Some q" for it q
    using rd(6) that by (fastforce simp: cache_coherent_def stock_of_def)
  show ?thesis
    unfolding wp_get_stock [OF rd(2)] Let_def rd(4)
    using rd(2-5) c by (auto simp: method_ok_def state_ok_def consistent_def patch_of_def dest: q split: option.split)
qed

section \<open>The reads\<close>

text \<open>A method that only reads the tables: nothing moves but the clock.\<close>

definition reads_only :: "('r, 'a) io \<Rightarrow> bool" where
  "reads_only m \<longleftrightarrow> (\<forall>w. (\<exists>n. snd (m w) = (tick ^^ n) w) \<and> in_place (fst (m w)))"

lemma reads_only_ok:
  assumes "reads_only m" and "ready env cache w"
  shows "wp m (method_ok cache (db w)) w"
proof -
  from assms(1) obtain n where n: "snd (m w) = (tick ^^ n) w" and c: "in_place (fst (m w))"
    by (auto simp: reads_only_def)
  from readyD [OF assms(2)] c have "method_ok cache (db w) (fst (m w)) w"
    by (simp add: method_ok_def state_ok_def split: sum.split)
  then show ?thesis by (simp add: wp_result n)
qed

lemma reads_only_bind:
  assumes "reads_only m" and "\<And>a. reads_only (f a)"
  shows "reads_only (and_then m f)"
  unfolding reads_only_def
proof
  fix w
  obtain r w' where m: "m w = (r, w')" by fastforce
  with assms(1) obtain n where n: "w' = (tick ^^ n) w" and c: "in_place r"
    by (auto simp: reads_only_def dest: spec [of _ w])
  show "(\<exists>k. snd (and_then m f w) = (tick ^^ k) w) \<and> in_place (fst (and_then m f w))"
  proof (cases r)
    case (Inl e)
    with m n c show ?thesis by (auto simp: and_then_def)
  next
    case (Inr a)
    obtain k where k: "snd (f a w') = (tick ^^ k) w'" "in_place (fst (f a w'))"
      using assms(2) by (auto simp: reads_only_def)
    have "(tick ^^ k) w' = (tick ^^ (k + n)) w" by (simp add: n funpow_add)
    with Inr m k show ?thesis by (auto simp: and_then_def)
  qed
qed

lemma reads_only_basic:
  "reads_only (session_read q)" "reads_only (done_with a)" "\<not> out_of_place e \<Longrightarrow> reads_only (raise_exn e)"
  "reads_only (utc_now env)"
proof -
  have same: "\<exists>n. w = (tick ^^ n) w" for w :: "'r world" by (rule exI [of _ 0]) simp
  have once: "\<exists>n. w\<lparr>calls := Suc (calls w)\<rparr> = (tick ^^ n) w" for w :: "'r world"
    by (rule exI [of _ 1]) (simp add: tick_def)
  show "reads_only (session_read q)" "reads_only (done_with a)"
    "\<not> out_of_place e \<Longrightarrow> reads_only (raise_exn e)" "reads_only (utc_now env)"
    using same once by (auto simp: reads_only_def session_read_def done_with_def raise_exn_def utc_now_def)
qed

lemma reads_only_case:
  "reads_only m \<Longrightarrow> (\<And>a. reads_only (f a)) \<Longrightarrow>
     reads_only (case x of None \<Rightarrow> m | Some a \<Rightarrow> f a)"
  by (simp split: option.split)

lemmas reads_only_intros = reads_only_bind reads_only_basic reads_only_case

lemma reads_only_services:
  "reads_only (get_item iid)" "reads_only (list_items env)" "reads_only list_low_stock"
  "reads_only (get_movements iid n)" "reads_only get_low_stock_items"
  "reads_only (get_order oid)" "reads_only (get_order_detail oid)"
  "reads_only (list_orders st from_dt to_dt ref)"
  by (auto simp: get_item_def list_items_def list_low_stock_def get_movements_def get_low_stock_items_def
      get_order_def get_order_detail_def list_orders_def item_get_by_id_def item_list_all_def
      item_list_low_stock_def list_movements_for_item_def list_movements_for_order_def
      order_get_by_id_def order_list_orders_def Let_def intro!: reads_only_intros)

end
