(* ===== verification/Conservation.thy ===== *)
theory Conservation
  imports Services_Correct
begin

text \<open>
  What the ledger and the trails say together: the stock of an item and the quantities that
  its orders hold add up to what the adjustments brought in. The movements of orders are
  regrouped by their order, and the trail of an order in each status gives what it holds.
\<close>

definition held_quantity :: "uuid \<Rightarrow> tables \<Rightarrow> int" where
  "held_quantity i t =
     sum_rows (\<lambda>r. order_item_id r = i \<and> status r \<in> stock_holding_states) quantity (order_rows t)"

definition adjusted_quantity :: "uuid \<Rightarrow> tables \<Rightarrow> int" where
  "adjusted_quantity i t =
     sum_rows (\<lambda>m. mv_item_id m = i \<and> movement_type m = ADJUSTMENT) quantity_delta (stock_movements t)"

lemma sum_rows_point:
  assumes "distinct (map key rows)" and "row_lookup key k rows = Some r"
  shows "sum_rows P (\<lambda>x. if k = key x then (c::int) else 0) rows = (if P r then c else 0)"
  using assms
proof (induction rows)
  case (Cons x rows)
  show ?case
  proof (cases "key x = k")
    case True
    with Cons.prems have "k \<notin> key ` set rows" and r: "x = r" by auto
    then have "sum_rows P (\<lambda>x. if k = key x then c else 0) rows = 0"
      by (induction rows) auto
    with True r show ?thesis by simp
  next
    case False
    with Cons show ?thesis by simp
  qed
qed simp

lemma sum_rows_add: "sum_rows P (\<lambda>x. f x + g x) rows = sum_rows P f rows + sum_rows P g rows"
  by (induction rows) auto

text \<open>Movements of orders, regrouped by order.\<close>

lemma movements_by_order:
  assumes "distinct (map order_id rows)"
    and "\<forall>m \<in> set ms. \<forall>oid. mv_order_id m = Some oid \<longrightarrow>
           (\<exists>r. row_lookup order_id oid rows = Some r \<and> mv_item_id m = order_item_id r)"
  shows "sum_rows (\<lambda>m. mv_item_id m = i \<and> mv_order_id m \<noteq> None) quantity_delta ms =
         sum_rows (\<lambda>r. order_item_id r = i)
           (\<lambda>r. sum_rows (\<lambda>m. mv_order_id m = Some (order_id r)) quantity_delta ms) rows"
  using assms(2)
proof (induction ms)
  case Nil
  show ?case by (induction rows) auto
next
  case (Cons m ms)
  have IH: "sum_rows (\<lambda>m. mv_item_id m = i \<and> mv_order_id m \<noteq> None) quantity_delta ms =
      sum_rows (\<lambda>r. order_item_id r = i)
        (\<lambda>r. sum_rows (\<lambda>m. mv_order_id m = Some (order_id r)) quantity_delta ms) rows"
    using Cons by simp
  show ?case
  proof (cases "mv_order_id m")
    case None
    with IH show ?thesis by simp
  next
    case (Some oid)
    with Cons.prems obtain r where r: "row_lookup order_id oid rows = Some r" "mv_item_id m = order_item_id r"
      by auto
    have "(\<lambda>x. sum_rows (\<lambda>m. mv_order_id m = Some (order_id x)) quantity_delta (m # ms)) =
        (\<lambda>x. (if oid = order_id x then quantity_delta m else 0)
           + sum_rows (\<lambda>m. mv_order_id m = Some (order_id x)) quantity_delta ms)"
      using Some by auto
    then show ?thesis
      using IH Some r(2) sum_rows_point [OF assms(1) r(1), of "\<lambda>r. order_item_id r = i" "quantity_delta m"]
      by (simp add: sum_rows_add)
  qed
qed

lemma order_trail_sum:
  "sum_rows (\<lambda>m. mv_order_id m = Some oid) quantity_delta (stock_movements t) =
     sum_list (map snd (order_trail oid t))"
  by (simp add: sum_rows_def order_trail_def comp_def)

lemma trail_for_sum:
  "trail_for st q v tr \<Longrightarrow> sum_list (map snd tr) = (if st \<in> stock_holding_states then - q else 0)"
  by (cases st) (auto simp: stock_holding_states_def)

lemma sum_rows_uminus: "sum_rows P (\<lambda>x. - f x) rows = - sum_rows P f rows"
  by (induction rows) auto

lemma sum_rows_if: "sum_rows P (\<lambda>x. if Q x then f x else 0) rows = sum_rows (\<lambda>x. P x \<and> Q x) f rows"
  by (induction rows) auto

lemma movement_ok_order:
  "movement_ok t m \<Longrightarrow> mv_order_id m = Some oid \<Longrightarrow>
     \<exists>r. find_order oid t = Some r \<and> mv_item_id m = order_item_id r"
  by (auto simp: movement_ok_def split: option.splits)

lemma held_by_trails:
  assumes ok: "schema_ok t" "trail_ok t"
  shows "sum_rows (\<lambda>m. mv_item_id m = i \<and> mv_order_id m \<noteq> None) quantity_delta (stock_movements t) =
         - held_quantity i t"
proof -
  have "\<forall>m \<in> set (stock_movements t). \<forall>oid. mv_order_id m = Some oid \<longrightarrow>
      (\<exists>r. row_lookup order_id oid (order_rows t) = Some r \<and> mv_item_id m = order_item_id r)"
    using ok(2) movement_ok_order unfolding trail_ok_def find_order_def by blast
  with ok(1) have "sum_rows (\<lambda>m. mv_item_id m = i \<and> mv_order_id m \<noteq> None) quantity_delta (stock_movements t) =
      sum_rows (\<lambda>r. order_item_id r = i)
        (\<lambda>r. sum_rows (\<lambda>m. mv_order_id m = Some (order_id r)) quantity_delta (stock_movements t)) (order_rows t)"
    by (intro movements_by_order) (simp_all add: schema_ok_def)
  also have "\<dots> = sum_rows (\<lambda>r. order_item_id r = i)
      (\<lambda>r. - (if status r \<in> stock_holding_states then quantity r else 0)) (order_rows t)"
  proof (rule sum_rows_cong)
    fix r
    assume "r \<in> set (order_rows t)"
    then have "trail_for (status r) (quantity r) (order_version r) (order_trail (order_id r) t)"
      using ok(2) by (simp add: trail_ok_def)
    from trail_for_sum [OF this] show "sum_rows (\<lambda>m. mv_order_id m = Some (order_id r)) quantity_delta (stock_movements t) =
        - (if status r \<in> stock_holding_states then quantity r else 0)"
      by (simp add: order_trail_sum)
  qed simp
  also have "\<dots> = - held_quantity i t"
    by (simp only: sum_rows_uminus sum_rows_if held_quantity_def)
  finally show ?thesis .
qed

lemma movement_ok_adjustment: "movement_ok t m \<Longrightarrow> mv_order_id m = None \<longleftrightarrow> movement_type m = ADJUSTMENT"
  by (auto simp: movement_ok_def split: option.splits)

text \<open>The balance of one item needs its ledger and the trails of the orders.\<close>

lemma item_balance:
  assumes ok: "schema_ok t" "trail_ok t" and "replay 0 (item_movements i t) = Some (stock_quantity it)"
  shows "stock_quantity it + held_quantity i t = adjusted_quantity i t"
proof -
  have "stock_quantity it = sum_rows (\<lambda>_. True) quantity_delta (item_movements i t)"
    using replay_sum [OF assms(3)] by simp
  also have "\<dots> = sum_rows (\<lambda>m. mv_item_id m = i) quantity_delta (stock_movements t)"
    by (simp add: item_movements_def sum_rows_def)
  also have "\<dots> = sum_rows (\<lambda>m. mv_item_id m = i \<and> mv_order_id m \<noteq> None) quantity_delta (stock_movements t)
      + sum_rows (\<lambda>m. mv_item_id m = i \<and> \<not> mv_order_id m \<noteq> None) quantity_delta (stock_movements t)"
    by (rule sum_rows_split)
  also have "sum_rows (\<lambda>m. mv_item_id m = i \<and> \<not> mv_order_id m \<noteq> None) quantity_delta (stock_movements t) =
      adjusted_quantity i t"
    unfolding adjusted_quantity_def
    by (rule sum_rows_cong) (use ok(2) movement_ok_adjustment in \<open>auto simp: trail_ok_def\<close>)
  finally show ?thesis using held_by_trails [OF ok] by simp
qed

lemma stock_balance:
  assumes "audit_ok t" and "find_item i t = Some it"
  shows "stock_quantity it + held_quantity i t = adjusted_quantity i t"
  using assms by (intro item_balance ledger_ok_find) (simp_all add: audit_ok_def)

text \<open>An order holds no more than its item was brought in.\<close>

lemma held_nonneg:
  assumes "audit_ok t"
  shows "0 \<le> held_quantity i t"
  unfolding held_quantity_def
  using assms by (intro sum_rows_nonneg) (auto simp: audit_ok_def schema_ok_def order_checks_ok_def)

lemma audited_stock_bounds:
  assumes "audit_ok t" and "find_item i t = Some it"
  shows "0 \<le> stock_quantity it" and "stock_quantity it < 2 ^ 31"
    and "held_quantity i t \<le> adjusted_quantity i t"
proof -
  have "item_types_ok it \<and> item_checks_ok it"
    using assms by (intro schema_ok_item) (simp_all add: audit_ok_def)
  then show "0 \<le> stock_quantity it" and "stock_quantity it < 2 ^ 31"
    by (simp_all add: item_checks_ok_def item_types_ok_def int4_def)
  with stock_balance [OF assms] show "held_quantity i t \<le> adjusted_quantity i t" by simp
qed

text \<open>Over all items, the deltas of all movements add up to the stocks.\<close>

lemma deltas_by_item:
  assumes "distinct (map item_id items)" and "\<forall>m \<in> set ms. \<exists>it. row_lookup item_id (mv_item_id m) items = Some it"
  shows "sum_list (map quantity_delta ms) =
    sum_rows (\<lambda>_. True) (\<lambda>it. sum_rows (\<lambda>m. mv_item_id m = item_id it) quantity_delta ms) items"
  using assms(2)
proof (induction ms)
  case Nil
  show ?case by (induction items) auto
next
  case (Cons m ms)
  then obtain it where it: "row_lookup item_id (mv_item_id m) items = Some it" by auto
  have "(\<lambda>x. sum_rows (\<lambda>m. mv_item_id m = item_id x) quantity_delta (m # ms)) =
      (\<lambda>x. (if mv_item_id m = item_id x then quantity_delta m else 0)
         + sum_rows (\<lambda>m. mv_item_id m = item_id x) quantity_delta ms)"
    by auto
  then show ?case
    using Cons sum_rows_point [OF assms(1) it, of "\<lambda>_. True" "quantity_delta m"] by (simp add: sum_rows_add)
qed

lemma all_deltas_sum:
  assumes "audit_ok t"
  shows "sum_list (map quantity_delta (stock_movements t)) = sum_list (map stock_quantity (menu_items t))"
proof -
  from assms have ok: "schema_ok t" "ledger_ok t" by (simp_all add: audit_ok_def)
  have "\<forall>m \<in> set (stock_movements t). \<exists>it. row_lookup item_id (mv_item_id m) (menu_items t) = Some it"
    using ok(1) by (auto simp: schema_ok_def find_item_def)
  then have "sum_list (map quantity_delta (stock_movements t)) =
      sum_rows (\<lambda>_. True) (\<lambda>it. sum_rows (\<lambda>m. mv_item_id m = item_id it) quantity_delta (stock_movements t)) (menu_items t)"
    using ok(1) by (intro deltas_by_item) (simp_all add: schema_ok_def)
  also have "\<dots> = sum_rows (\<lambda>_. True) stock_quantity (menu_items t)"
  proof (rule sum_rows_cong)
    fix it
    assume "it \<in> set (menu_items t)"
    then have "replay 0 (item_movements (item_id it) t) = Some (stock_quantity it)"
      using ok(2) by (simp add: ledger_ok_def)
    from replay_sum [OF this]
    show "sum_rows (\<lambda>m. mv_item_id m = item_id it) quantity_delta (stock_movements t) = stock_quantity it"
      by (simp add: item_movements_def sum_rows_def)
  qed simp
  finally show ?thesis by (simp add: sum_rows_def)
qed

end
