(* ===== verification/Schemas.thy ===== *)
theory Schemas
  imports Order_Service
begin

text \<open>
  \<open>app/schemas\<close>: the bodies of requests with the constraints that their fields declare, and the
  bodies of responses with the attributes they are read from. A body that reaches a handler
  has passed its constraints; they are the guards of the endpoints in \<open>Api\<close>. The lemmas show
  what the constraints give the services: an order that is placed has a positive quantity, an
  item that is created satisfies the CHECK constraints of its table.
\<close>

section \<open>Requests\<close>

record ItemCreate =
  ic_name :: string
  ic_description :: "string option"
  ic_price :: decimal
  ic_stock_quantity :: int
  ic_low_stock_threshold :: int

text \<open>
  \<open>gt=0\<close> and at most two decimal places, trailing zeros not counted: the price is a positive
  whole number of cents.
\<close>

definition item_create_valid :: "ItemCreate \<Rightarrow> bool" where
  "item_create_valid b \<longleftrightarrow>
     1 \<le> length (ic_name b) \<and> length (ic_name b) \<le> 255 \<and>
     0 < coefficient (ic_price b) \<and> dec_cents (ic_price b) \<noteq> None \<and>
     0 \<le> ic_stock_quantity b \<and> 0 \<le> ic_low_stock_threshold b"

definition item_create_body :: "string \<Rightarrow> string option \<Rightarrow> decimal \<Rightarrow> int \<Rightarrow> int option \<Rightarrow> ItemCreate" where
  "item_create_body name description price stock threshold =
     \<lparr>ic_name = name, ic_description = description, ic_price = price, ic_stock_quantity = stock,
      ic_low_stock_threshold = (case threshold of None \<Rightarrow> 10 | Some n \<Rightarrow> n)\<rparr>"

record ItemStockAdjust =
  sa_delta :: int
  sa_reason :: string

definition item_stock_adjust_valid :: "ItemStockAdjust \<Rightarrow> bool" where
  "item_stock_adjust_valid b \<longleftrightarrow> 1 \<le> length (sa_reason b) \<and> length (sa_reason b) \<le> 500"

record OrderCreate =
  oc_item_id :: uuid
  oc_quantity :: int
  oc_customer_ref :: "string option"

definition order_create_valid :: "OrderCreate \<Rightarrow> bool" where
  "order_create_valid b \<longleftrightarrow> 0 < oc_quantity b \<and>
     (case oc_customer_ref b of None \<Rightarrow> True | Some c \<Rightarrow> length c \<le> 255)"

definition days_valid :: "int \<Rightarrow> bool" where
  "days_valid days \<longleftrightarrow> 1 \<le> days \<and> days \<le> 365"

section \<open>Responses\<close>

record ItemResponse =
  ir_id :: uuid
  ir_name :: string
  ir_description :: "string option"
  ir_price :: decimal
  ir_stock_quantity :: int
  ir_low_stock_threshold :: int
  ir_is_low_stock :: bool
  ir_version :: int
  ir_created_at :: int
  ir_updated_at :: int

definition item_response :: "menu_item \<Rightarrow> ItemResponse" where
  "item_response it =
     \<lparr>ir_id = item_id it, ir_name = item_name it, ir_description = item_description it,
      ir_price = money (item_price it), ir_stock_quantity = stock_quantity it,
      ir_low_stock_threshold = low_stock_threshold it, ir_is_low_stock = is_low_stock it,
      ir_version = item_version it, ir_created_at = item_created_at it,
      ir_updated_at = item_updated_at it\<rparr>"

record OrderResponse =
  or_id :: uuid
  or_item_id :: uuid
  or_quantity :: int
  or_status :: order_status
  or_customer_ref :: "string option"
  or_version :: int
  or_created_at :: int
  or_updated_at :: int

definition order_response :: "order \<Rightarrow> OrderResponse" where
  "order_response r =
     \<lparr>or_id = order_id r, or_item_id = order_item_id r, or_quantity = quantity r,
      or_status = status r, or_customer_ref = customer_ref r, or_version = order_version r,
      or_created_at = order_created_at r, or_updated_at = order_updated_at r\<rparr>"

record StockResponse =
  sr_item_id :: uuid
  sr_stock_quantity :: int
  sr_low_stock_threshold :: int
  sr_is_low_stock :: bool

definition stock_response :: "menu_item \<Rightarrow> StockResponse" where
  "stock_response it =
     \<lparr>sr_item_id = item_id it, sr_stock_quantity = stock_quantity it,
      sr_low_stock_threshold = low_stock_threshold it, sr_is_low_stock = is_low_stock it\<rparr>"

record StockMovementResponse =
  smr_id :: uuid
  smr_item_id :: uuid
  smr_order_id :: "uuid option"
  smr_movement_type :: movement_kind
  smr_quantity_delta :: int
  smr_stock_before :: int
  smr_stock_after :: int
  smr_reason :: "string option"
  smr_created_at :: int

definition stock_movement_response :: "stock_movement \<Rightarrow> StockMovementResponse" where
  "stock_movement_response m =
     \<lparr>smr_id = mv_id m, smr_item_id = mv_item_id m, smr_order_id = mv_order_id m,
      smr_movement_type = movement_type m, smr_quantity_delta = quantity_delta m,
      smr_stock_before = stock_before m, smr_stock_after = stock_after m, smr_reason = reason m,
      smr_created_at = mv_created_at m\<rparr>"

record LowStockAlert =
  la_id :: uuid
  la_name :: string
  la_stock_quantity :: int
  la_low_stock_threshold :: int

definition low_stock_alert :: "menu_item \<Rightarrow> LowStockAlert" where
  "low_stock_alert it =
     \<lparr>la_id = item_id it, la_name = item_name it, la_stock_quantity = stock_quantity it,
      la_low_stock_threshold = low_stock_threshold it\<rparr>"

section \<open>What validation gives\<close>

definition price_cents :: "ItemCreate \<Rightarrow> int" where
  "price_cents b = (case dec_cents (ic_price b) of None \<Rightarrow> 0 | Some c \<Rightarrow> c)"

lemma dec_cents_pos:
  assumes "0 < coefficient d" and "dec_cents d = Some c"
  shows "0 < c"
proof (cases "- 2 \<le> exponent d")
  case True
  with assms show ?thesis by (auto simp: dec_cents_def)
next
  case False
  let ?m = "(10::int) ^ nat (- 2 - exponent d)"
  from False assms have "coefficient d mod ?m = 0" "c = coefficient d div ?m"
    by (auto simp: dec_cents_def split: if_splits)
  then have "coefficient d = ?m * c" using mult_div_mod_eq [of ?m "coefficient d"] by simp
  with assms(1) have "0 < ?m * c" by simp
  then show ?thesis by (simp add: zero_less_mult_iff)
qed

lemma item_create_checks:
  assumes "item_create_valid b"
  shows "item_checks_ok (menu_item_init (ic_name b) (ic_description b) (price_cents b)
           (Some (ic_stock_quantity b)) (Some (ic_low_stock_threshold b)) None iid created updated)"
  using assms dec_cents_pos [of "ic_price b"]
  by (auto simp: item_create_valid_def item_checks_ok_def menu_item_init_def price_cents_def split: option.splits)

lemma order_create_checks:
  assumes "order_create_valid b"
  shows "order_checks_ok (order_init (oc_item_id b) (oc_quantity b) st (oc_customer_ref b) oid created updated)"
  using assms by (simp add: order_create_valid_def order_checks_ok_def order_init_def)

end
