(* ===== verification/Analytics_Service.thy ===== *)
theory Analytics_Service
  imports Schemas
begin

text \<open>
  \<open>app/services/analytics_service.py\<close>: the aggregate queries, as functions of the tables that
  the transaction sees. A sum over NUMERIC columns is exact; over no rows \<open>coalesce\<close> answers the
  integer zero. The join is the list of all pairs of rows that satisfy its condition.
\<close>

section \<open>Aggregates\<close>

definition count_rows :: "('row \<Rightarrow> bool) \<Rightarrow> 'row list \<Rightarrow> nat" where
  "count_rows P rows = length (filter P rows)"

definition coalesce_sum_numeric :: "('row \<Rightarrow> int) \<Rightarrow> 'row list \<Rightarrow> decimal" where
  "coalesce_sum_numeric f rows = (if rows = [] then Dec 0 0 else money (sum_list (map f rows)))"

definition quantized :: "decimal \<Rightarrow> ('r, decimal) io" where
  "quantized d = (case dec_quantize2 d of None \<Rightarrow> raise_exn InvalidOperation | Some x \<Rightarrow> done_with x)"

record StockAnalytics =
  total_items :: nat
  total_units :: int
  total_value :: decimal
  low_stock_count :: nat
  out_of_stock_count :: nat

record OrderAnalytics =
  total_orders :: nat
  pending_count :: nat
  confirmed_count :: nat
  shipped_count :: nat
  delivered_count :: nat
  cancelled_count :: nat
  rejected_count :: nat
  revenue :: decimal
  refund_value :: decimal

record MovementAnalytics =
  total_deductions :: nat
  total_restorations :: nat
  total_adjustments :: nat
  net_stock_change :: int

record AnalyticsSummary =
  as_stock :: StockAnalytics
  as_orders :: OrderAnalytics
  as_movements :: MovementAnalytics

section \<open>Stock\<close>

definition get_stock_analytics :: "('r, StockAnalytics) io" where
  "get_stock_analytics =
     and_then (session_read menu_items) (\<lambda>items.
     and_then (quantized (coalesce_sum_numeric (\<lambda>it. item_price it * stock_quantity it) items)) (\<lambda>val.
     done_with
       \<lparr>total_items = length items,
        total_units = sum_list (map stock_quantity items),
        total_value = val,
        low_stock_count =
          count_rows (\<lambda>it. stock_quantity it \<le> low_stock_threshold it \<and> 0 < stock_quantity it) items,
        out_of_stock_count = count_rows (\<lambda>it. stock_quantity it = 0) items\<rparr>))"

section \<open>Orders\<close>

definition microseconds_per_day :: int where
  "microseconds_per_day = 86400 * 10 ^ 6"

definition since_days :: "'r env \<Rightarrow> int \<Rightarrow> ('r, int) io" where
  "since_days env days =
     and_then (utc_now env) (\<lambda>now. done_with (now - days * microseconds_per_day))"

definition orders_since :: "int \<Rightarrow> tables \<Rightarrow> order list" where
  "orders_since since t = filter (\<lambda>r. since \<le> order_created_at r) (order_rows t)"

definition orders_joined :: "order_status \<Rightarrow> int \<Rightarrow> tables \<Rightarrow> (order \<times> menu_item) list" where
  "orders_joined st since t =
     [(r, it). r \<leftarrow> order_rows t, it \<leftarrow> menu_items t,
               order_item_id r = item_id it \<and> status r = st \<and> since \<le> order_created_at r]"

definition order_value_sum :: "(order \<times> menu_item) list \<Rightarrow> decimal" where
  "order_value_sum = coalesce_sum_numeric (\<lambda>(r, it). item_price it * quantity r)"

definition get_order_analytics :: "'r env \<Rightarrow> int \<Rightarrow> ('r, OrderAnalytics) io" where
  "get_order_analytics env days =
     and_then (since_days env days) (\<lambda>since.
     and_then (session_read (orders_since since)) (\<lambda>rows.
     and_then (session_read (orders_joined DELIVERED since)) (\<lambda>rev_rows.
     and_then (quantized (order_value_sum rev_rows)) (\<lambda>rev.
     and_then (session_read (orders_joined CANCELLED since)) (\<lambda>refund_rows.
     and_then (quantized (order_value_sum refund_rows)) (\<lambda>refund.
     done_with
       \<lparr>total_orders = length rows,
        pending_count = count_rows (\<lambda>r. status r = PENDING) rows,
        confirmed_count = count_rows (\<lambda>r. status r = CONFIRMED) rows,
        shipped_count = count_rows (\<lambda>r. status r = SHIPPED) rows,
        delivered_count = count_rows (\<lambda>r. status r = DELIVERED) rows,
        cancelled_count = count_rows (\<lambda>r. status r = CANCELLED) rows,
        rejected_count = count_rows (\<lambda>r. status r = REJECTED) rows,
        revenue = rev, refund_value = refund\<rparr>))))))"

section \<open>Movements\<close>

definition movements_since :: "int \<Rightarrow> tables \<Rightarrow> stock_movement list" where
  "movements_since since t = filter (\<lambda>m. since \<le> mv_created_at m) (stock_movements t)"

definition get_movement_analytics :: "'r env \<Rightarrow> int \<Rightarrow> ('r, MovementAnalytics) io" where
  "get_movement_analytics env days =
     and_then (since_days env days) (\<lambda>since.
     and_then (session_read (movements_since since)) (\<lambda>rows.
     done_with
       \<lparr>total_deductions = count_rows (\<lambda>m. movement_type m = DEDUCTION) rows,
        total_restorations = count_rows (\<lambda>m. movement_type m = RESTORATION) rows,
        total_adjustments = count_rows (\<lambda>m. movement_type m = ADJUSTMENT) rows,
        net_stock_change = sum_list (map quantity_delta rows)\<rparr>))"

section \<open>Rules\<close>

lemma wp_quantized [wp_rules]:
  "wp (quantized d) Q w =
     (case dec_quantize2 d of None \<Rightarrow> Q (Inl InvalidOperation) w | Some x \<Rightarrow> Q (Inr x) w)"
  by (simp add: quantized_def wp_rules split: option.split)

lemma wp_since_days [wp_rules]:
  "wp (since_days env days) Q w =
     Q (Inr (env_utc_now env (calls w) - days * microseconds_per_day)) (tick w)"
  by (simp add: since_days_def wp_rules)

lemma coalesce_sum_numeric_quantized:
  assumes "\<bar>sum_list (map f rows)\<bar> < 10 ^ 28"
  shows "dec_quantize2 (coalesce_sum_numeric f rows) = Some (money (sum_list (map f rows)))"
  using assms by (simp add: coalesce_sum_numeric_def dec_quantize2_zero dec_quantize2_money)

lemma sum_list_bound:
  fixes f :: "'row \<Rightarrow> int"
  assumes "\<And>x. x \<in> set rows \<Longrightarrow> \<bar>f x\<bar> \<le> b"
  shows "\<bar>sum_list (map f rows)\<bar> \<le> int (length rows) * b"
  using assms
proof (induction rows)
  case (Cons x rows)
  have "\<bar>sum_list (map f rows)\<bar> \<le> int (length rows) * b" using Cons by simp
  moreover have "\<bar>f x\<bar> \<le> b" using Cons.prems by simp
  ultimately show ?case by (simp add: distrib_right)
qed simp

lemma count_rows_Cons [simp]: "count_rows P (r # rows) = (if P r then 1 else 0) + count_rows P rows"
  by (simp add: count_rows_def)

lemma count_rows_Nil [simp]: "count_rows P [] = 0"
  by (simp add: count_rows_def)

lemma count_rows_status:
  "length rows = count_rows (\<lambda>r. status r = PENDING) rows + count_rows (\<lambda>r. status r = CONFIRMED) rows
     + count_rows (\<lambda>r. status r = SHIPPED) rows + count_rows (\<lambda>r. status r = DELIVERED) rows
     + count_rows (\<lambda>r. status r = CANCELLED) rows + count_rows (\<lambda>r. status r = REJECTED) rows"
proof (induction rows)
  case (Cons r rows)
  then show ?case by (cases "status r") simp_all
qed simp

lemma count_rows_movement_type:
  "length rows = count_rows (\<lambda>m. movement_type m = DEDUCTION) rows
     + count_rows (\<lambda>m. movement_type m = RESTORATION) rows
     + count_rows (\<lambda>m. movement_type m = ADJUSTMENT) rows"
proof (induction rows)
  case (Cons m rows)
  then show ?case by (cases "movement_type m") simp_all
qed simp

end
