(* ===== verification/Http.thy ===== *)
theory Http
  imports Analytics_Service
begin

text \<open>
  The HTTP surface: the requests of \<open>app/api/v1\<close> after path, query and body have been parsed,
  their method and path (\<open>router.py\<close> and the prefixes of the four routers), and the responses.
  The schema validation of a parsed request is part of the endpoint.
\<close>

datatype order_action = ConfirmAction | ShipAction | DeliverAction | CancelAction

fun action_value :: "order_action \<Rightarrow> string" where
  "action_value ConfirmAction = ''confirm''"
| "action_value ShipAction = ''ship''"
| "action_value DeliverAction = ''deliver''"
| "action_value CancelAction = ''cancel''"

fun action_target :: "order_action \<Rightarrow> order_status" where
  "action_target ConfirmAction = CONFIRMED"
| "action_target ShipAction = SHIPPED"
| "action_target DeliverAction = DELIVERED"
| "action_target CancelAction = CANCELLED"

record order_filter =
  of_status :: "order_status option"
  of_date :: "int option"
  of_from_date :: "int option"
  of_to_date :: "int option"
  of_customer_ref :: "string option"

datatype endpoint =
    PostItem ItemCreate
  | GetItems
  | GetItem uuid
  | PatchItemStock uuid ItemStockAdjust
  | GetOrders order_filter
  | PostOrder OrderCreate
  | GetOrder uuid
  | PostOrderAction uuid order_action
  | GetStockAlertsLow
  | GetStock uuid
  | GetStockMovements uuid
  | GetAnalyticsSummary int
  | GetAnalyticsStock
  | GetAnalyticsOrders int
  | GetAnalyticsMovements int
  | GetHealth

fun endpoint_method :: "endpoint \<Rightarrow> string" where
  "endpoint_method (PostItem b) = ''POST''"
| "endpoint_method (PatchItemStock i b) = ''PATCH''"
| "endpoint_method (PostOrder b) = ''POST''"
| "endpoint_method (PostOrderAction i a) = ''POST''"
| "endpoint_method _ = ''GET''"

definition api_prefix :: string where
  "api_prefix = ''/api/v1''"

fun endpoint_path :: "endpoint \<Rightarrow> string" where
  "endpoint_path (PostItem b) = api_prefix @ ''/items''"
| "endpoint_path GetItems = api_prefix @ ''/items''"
| "endpoint_path (GetItem i) = api_prefix @ ''/items/'' @ uuid_str i"
| "endpoint_path (PatchItemStock i b) = api_prefix @ ''/items/'' @ uuid_str i @ ''/stock''"
| "endpoint_path (GetOrders f) = api_prefix @ ''/orders''"
| "endpoint_path (PostOrder b) = api_prefix @ ''/orders''"
| "endpoint_path (GetOrder i) = api_prefix @ ''/orders/'' @ uuid_str i"
| "endpoint_path (PostOrderAction i a) = api_prefix @ ''/orders/'' @ uuid_str i @ ''/'' @ action_value a"
| "endpoint_path GetStockAlertsLow = api_prefix @ ''/stock/alerts/low''"
| "endpoint_path (GetStock i) = api_prefix @ ''/stock/'' @ uuid_str i"
| "endpoint_path (GetStockMovements i) = api_prefix @ ''/stock/'' @ uuid_str i @ ''/movements''"
| "endpoint_path (GetAnalyticsSummary d) = api_prefix @ ''/analytics/summary''"
| "endpoint_path GetAnalyticsStock = api_prefix @ ''/analytics/stock''"
| "endpoint_path (GetAnalyticsOrders d) = api_prefix @ ''/analytics/orders''"
| "endpoint_path (GetAnalyticsMovements d) = api_prefix @ ''/analytics/movements''"
| "endpoint_path GetHealth = ''/health''"

datatype body =
    ItemBody ItemResponse
  | ItemsBody "ItemResponse list"
  | OrderBody OrderResponse
  | OrdersBody "OrderResponse list"
  | OrderDetailBody order_detail
  | StockBody StockResponse
  | AlertsBody "LowStockAlert list"
  | MovementsBody "StockMovementResponse list"
  | SummaryBody AnalyticsSummary
  | StockAnalyticsBody StockAnalytics
  | OrderAnalyticsBody OrderAnalytics
  | MovementAnalyticsBody MovementAnalytics
  | HealthBody string string
  | DetailBody string

record http_request =
  req_endpoint :: endpoint
  req_api_key :: "string option"

record http_response =
  resp_status :: int
  resp_body :: body
  resp_request_id :: "string option"

definition req_method :: "http_request \<Rightarrow> string" where
  "req_method q = endpoint_method (req_endpoint q)"

definition req_path :: "http_request \<Rightarrow> string" where
  "req_path q = endpoint_path (req_endpoint q)"

definition json_response :: "int \<Rightarrow> body \<Rightarrow> http_response" where
  "json_response code b = \<lparr>resp_status = code, resp_body = b, resp_request_id = None\<rparr>"

text \<open>An application: it answers a request or raises.\<close>

type_synonym 'r app = "http_request \<Rightarrow> ('r, http_response) io"

end
