(* ===== verification/Auth_Middleware.thy ===== *)
theory Auth_Middleware
  imports Http
begin

text \<open>
  \<open>app/middleware/auth.py\<close>: the optional API-key guard around the application. The
  application it wraps and the configured keys are arguments.
\<close>

definition public_prefixes :: "string list" where
  "public_prefixes = [''/docs'', ''/redoc'', ''/openapi.json'', ''/health'']"

definition write_methods :: "string set" where
  "write_methods = {''POST'', ''PUT'', ''PATCH'', ''DELETE''}"

definition dispatch :: "bool \<Rightarrow> string set \<Rightarrow> 'r app \<Rightarrow> 'r app" where
  "dispatch require valid_keys call_next request =
     (if \<not> require then call_next request
      else if list_ex (\<lambda>p. py_startswith (req_path request) p) public_prefixes then call_next request
      else if req_method request = ''GET'' then call_next request
      else if req_method request \<in> write_methods then
        (case req_api_key request of
           None \<Rightarrow> done_with (json_response 401 (DetailBody (''Missing '' @ header_API_KEY @ '' header'')))
         | Some key \<Rightarrow>
             if key = [] then
               done_with (json_response 401 (DetailBody (''Missing '' @ header_API_KEY @ '' header'')))
             else if key \<notin> valid_keys then
               done_with (json_response 403 (DetailBody ''Invalid API key''))
             else call_next request)
      else call_next request)"

text \<open>The endpoints that may write are exactly those whose method the guard covers.\<close>

fun writes :: "endpoint \<Rightarrow> bool" where
  "writes (PostItem b) = True"
| "writes (PatchItemStock i b) = True"
| "writes (PostOrder b) = True"
| "writes (PostOrderAction i a) = True"
| "writes _ = False"

lemma writes_method: "writes e \<longleftrightarrow> endpoint_method e \<in> write_methods"
  by (cases e) (simp_all add: write_methods_def)

lemma writes_not_public:
  "writes e \<Longrightarrow> \<not> list_ex (\<lambda>p. py_startswith (endpoint_path e) p) public_prefixes"
  by (cases e) (simp_all add: public_prefixes_def api_prefix_def py_startswith_def)

end
