(* ===== verification/Api.thy ===== *)
theory Api
  imports Auth_Middleware
begin

text \<open>
  \<open>app/api/v1\<close> and the stack of \<open>app/main.py\<close>: the endpoints with their mapping of exceptions
  to HTTP errors, the database dependency around each of them, the exception handlers of the
  framework, the API-key guard and the request-id middleware, composed into the application.
  The verdict of the rate limiter on \<open>GET /stock/{id}\<close> is an argument.
\<close>

section \<open>Exceptions to HTTP errors\<close>

definition mapped :: "(exn \<Rightarrow> exn) \<Rightarrow> ('r, 'a) io \<Rightarrow> ('r, 'a) io" where
  "mapped f m = catching m (\<lambda>e. raise_exn (f e))"

fun not_found_error :: "exn \<Rightarrow> exn" where
  "not_found_error (NotFoundError resource rid) = HTTPException 404 (exn_message (NotFoundError resource rid))"
| "not_found_error e = e"

fun adjust_error :: "exn \<Rightarrow> exn" where
  "adjust_error (NotFoundError resource rid) = HTTPException 404 (exn_message (NotFoundError resource rid))"
| "adjust_error (InsufficientStockError i n k) = HTTPException 422 (exn_message (InsufficientStockError i n k))"
| "adjust_error e = e"

fun create_error :: "string \<Rightarrow> exn \<Rightarrow> exn" where
  "create_error name IntegrityError =
     HTTPException 409 (''An item with the name '' @ [CHR 0x27] @ name @ [CHR 0x27] @ '' already exists.'')"
| "create_error name e = e"

fun transition_error :: "exn \<Rightarrow> exn" where
  "transition_error (NotFoundError resource rid) = HTTPException 404 (exn_message (NotFoundError resource rid))"
| "transition_error (InvalidTransitionError s t) = HTTPException 422 (exn_message (InvalidTransitionError s t))"
| "transition_error (InsufficientStockError i n k) = HTTPException 422 (exn_message (InsufficientStockError i n k))"
| "transition_error (ConflictError resource rid) = HTTPException 409 (exn_message (ConflictError resource rid))"
| "transition_error e = e"

definition validated :: "bool \<Rightarrow> ('r, 'a) io \<Rightarrow> ('r, 'a) io" where
  "validated ok m = (if ok then m else raise_exn RequestValidationError)"

definition as_body :: "('a \<Rightarrow> body) \<Rightarrow> ('r, 'a) io \<Rightarrow> ('r, body) io" where
  "as_body f m = and_then m (\<lambda>a. done_with (f a))"

section \<open>Items\<close>

definition api_create_item :: "'r env \<Rightarrow> ItemCreate \<Rightarrow> ('r, body) io" where
  "api_create_item env b =
     validated (item_create_valid b)
       (as_body (ItemBody \<circ> item_response)
         (mapped (create_error (ic_name b))
           (create_item env (get_cache env) (ic_name b) (price_cents b) (ic_stock_quantity b)
              (ic_description b) (ic_low_stock_threshold b))))"

definition api_list_items :: "'r env \<Rightarrow> ('r, body) io" where
  "api_list_items env = as_body (ItemsBody \<circ> map item_response) (list_items env)"

definition api_get_item :: "uuid \<Rightarrow> ('r, body) io" where
  "api_get_item iid = as_body (ItemBody \<circ> item_response) (mapped not_found_error (get_item iid))"

definition api_adjust_stock :: "'r env \<Rightarrow> uuid \<Rightarrow> ItemStockAdjust \<Rightarrow> ('r, body) io" where
  "api_adjust_stock env iid b =
     validated (item_stock_adjust_valid b)
       (as_body (ItemBody \<circ> item_response)
         (mapped adjust_error (adjust_stock env (get_cache env) iid (sa_delta b) (sa_reason b))))"

section \<open>Orders\<close>

text \<open>A calendar day, counted from the epoch, as the range of its instants.\<close>

definition day_start :: "int \<Rightarrow> int" where
  "day_start d = d * microseconds_per_day"

definition day_end :: "int \<Rightarrow> int" where
  "day_end d = d * microseconds_per_day + (microseconds_per_day - 1)"

definition date_range :: "order_filter \<Rightarrow> int option \<times> int option" where
  "date_range f =
     (case of_date f of
        Some d \<Rightarrow> (Some (day_start d), Some (day_end d))
      | None \<Rightarrow> (of_from_date f, of_to_date f))"

definition api_list_orders :: "order_filter \<Rightarrow> ('r, body) io" where
  "api_list_orders f =
     as_body (OrdersBody \<circ> map order_response)
       (list_orders (of_status f) (fst (date_range f)) (snd (date_range f)) (of_customer_ref f))"

definition api_place_order :: "'r env \<Rightarrow> OrderCreate \<Rightarrow> ('r, body) io" where
  "api_place_order env b =
     validated (order_create_valid b)
       (as_body (OrderBody \<circ> order_response)
         (mapped not_found_error (place_order env (oc_item_id b) (oc_quantity b) (oc_customer_ref b))))"

definition api_get_order :: "uuid \<Rightarrow> ('r, body) io" where
  "api_get_order oid = as_body OrderDetailBody (mapped not_found_error (get_order_detail oid))"

fun service_method :: "'r env \<Rightarrow> 'r cache_service \<Rightarrow> order_action \<Rightarrow> uuid \<Rightarrow> ('r, order option) io" where
  "service_method env cache ConfirmAction oid = confirm_order env cache oid"
| "service_method env cache ShipAction oid = ship_order env oid"
| "service_method env cache DeliverAction oid = deliver_order env oid"
| "service_method env cache CancelAction oid = cancel_order env cache oid"

definition transition_router :: "'r env \<Rightarrow> order_action \<Rightarrow> uuid \<Rightarrow> ('r, body) io" where
  "transition_router env action oid =
     and_then (mapped transition_error (service_method env (get_cache env) action oid)) (\<lambda>found.
     case found of None \<Rightarrow> raise_exn ResponseValidationError
     | Some r \<Rightarrow> done_with (OrderBody (order_response r)))"

section \<open>Stock\<close>

definition api_low_stock_alerts :: "('r, body) io" where
  "api_low_stock_alerts = as_body (AlertsBody \<circ> map low_stock_alert) get_low_stock_items"

definition api_get_stock :: "'r env \<Rightarrow> bool \<Rightarrow> uuid \<Rightarrow> ('r, body) io" where
  "api_get_stock env within_limit iid =
     (if \<not> within_limit then raise_exn RateLimitExceeded
      else as_body (StockBody \<circ> stock_response) (mapped not_found_error (get_stock (get_cache env) iid)))"

definition default_movement_limit :: nat where
  "default_movement_limit = 100"

definition api_get_movements :: "uuid \<Rightarrow> ('r, body) io" where
  "api_get_movements iid =
     as_body (MovementsBody \<circ> map stock_movement_response)
       (mapped not_found_error (get_movements iid default_movement_limit))"

section \<open>Analytics\<close>

definition api_analytics_summary :: "'r env \<Rightarrow> int \<Rightarrow> ('r, body) io" where
  "api_analytics_summary env days =
     validated (days_valid days)
       (and_then get_stock_analytics (\<lambda>s.
        and_then (get_order_analytics env days) (\<lambda>orders.
        and_then (get_movement_analytics env days) (\<lambda>m.
        done_with (SummaryBody \<lparr>as_stock = s, as_orders = orders, as_movements = m\<rparr>)))))"

definition api_stock_analytics :: "('r, body) io" where
  "api_stock_analytics = as_body StockAnalyticsBody get_stock_analytics"

definition api_order_analytics :: "'r env \<Rightarrow> int \<Rightarrow> ('r, body) io" where
  "api_order_analytics env days =
     validated (days_valid days) (as_body OrderAnalyticsBody (get_order_analytics env days))"

definition api_movement_analytics :: "'r env \<Rightarrow> int \<Rightarrow> ('r, body) io" where
  "api_movement_analytics env days =
     validated (days_valid days) (as_body MovementAnalyticsBody (get_movement_analytics env days))"

section \<open>The application\<close>

fun handler :: "'r env \<Rightarrow> bool \<Rightarrow> endpoint \<Rightarrow> ('r, body) io" where
  "handler env lim (PostItem b) = api_create_item env b"
| "handler env lim GetItems = api_list_items env"
| "handler env lim (GetItem i) = api_get_item i"
| "handler env lim (PatchItemStock i b) = api_adjust_stock env i b"
| "handler env lim (GetOrders f) = api_list_orders f"
| "handler env lim (PostOrder b) = api_place_order env b"
| "handler env lim (GetOrder i) = api_get_order i"
| "handler env lim (PostOrderAction i a) = transition_router env a i"
| "handler env lim GetStockAlertsLow = api_low_stock_alerts"
| "handler env lim (GetStock i) = api_get_stock env lim i"
| "handler env lim (GetStockMovements i) = api_get_movements i"
| "handler env lim (GetAnalyticsSummary d) = api_analytics_summary env d"
| "handler env lim GetAnalyticsStock = api_stock_analytics"
| "handler env lim (GetAnalyticsOrders d) = api_order_analytics env d"
| "handler env lim (GetAnalyticsMovements d) = api_movement_analytics env d"
| "handler env lim GetHealth = done_with (HealthBody ''ok'' ''0.1.0'')"

fun success_status :: "endpoint \<Rightarrow> int" where
  "success_status (PostItem b) = 201"
| "success_status (PostOrder b) = 201"
| "success_status _ = 200"

text \<open>
  The exception handlers: \<open>HTTPException\<close>, validation errors and the rate limit become
  responses, anything else leaves the application. A response is built before the database
  dependency ends, so what its commit raises after a value no longer changes the response.
\<close>

fun error_response :: "exn \<Rightarrow> exn + http_response" where
  "error_response (HTTPException code detail) = Inr (json_response code (DetailBody detail))"
| "error_response RequestValidationError = Inr (json_response 422 (DetailBody ''validation error''))"
| "error_response RateLimitExceeded = Inr (json_response 429 (DetailBody ''Rate limit exceeded''))"
| "error_response e = Inl e"

fun respond :: "int \<Rightarrow> exn + body \<Rightarrow> exn + body \<Rightarrow> exn + http_response" where
  "respond code (Inr b) outcome = Inr (json_response code b)"
| "respond code (Inl _) (Inl e) = error_response e"
| "respond code (Inl _) (Inr b) = Inr (json_response code b)"

definition router_app :: "'r env \<Rightarrow> bool \<Rightarrow> 'r app" where
  "router_app env lim request =
     (\<lambda>w. let e = req_endpoint request;
              answered = fst (handler env lim e (open_session w))
          in case get_db env (handler env lim e) w of
               (outcome, w') \<Rightarrow> (respond (success_status e) answered outcome, w'))"

text \<open>The request id goes on every response that the application returned.\<close>

definition logging_middleware :: "'r env \<Rightarrow> 'r app \<Rightarrow> 'r app" where
  "logging_middleware env call_next request =
     and_then (uuid4 env) (\<lambda>rid.
     and_then (call_next request) (\<lambda>response.
     done_with (response\<lparr>resp_request_id := Some (uuid_str rid)\<rparr>)))"

text \<open>The outermost handler answers 500 for what is left.\<close>

definition server_error :: "'r app \<Rightarrow> http_request \<Rightarrow> 'r world \<Rightarrow> http_response \<times> 'r world" where
  "server_error app request w =
     (case app request w of
        (Inr response, w') \<Rightarrow> (response, w')
      | (Inl e, w') \<Rightarrow> (json_response 500 (DetailBody ''Internal Server Error''), w'))"

definition serve :: "'r env \<Rightarrow> bool \<Rightarrow> http_request \<Rightarrow> 'r world \<Rightarrow> http_response \<times> 'r world" where
  "serve env lim =
     server_error (logging_middleware env
       (dispatch (require_auth (env_settings env)) (valid_api_keys (env_settings env))
         (router_app env lim)))"

end
