(* ===== verification/Serial_Runs.thy ===== *)
theory Serial_Runs
  imports Api Service_Contracts
begin

text \<open>
  The application answering requests one after the other. \<open>request_server\<close> is the interface of
  a server whose steps keep an invariant and answer acceptably; it is interpreted on \<open>serve\<close>
  with the invariant that the committed tables are audited and agree with the cache. Its
  consequences for whole runs are the properties stated at the end.
\<close>

section \<open>A server with an invariant\<close>

locale request_server =
  fixes step :: "'q \<Rightarrow> 'w \<Rightarrow> 'a \<times> 'w"
    and good :: "'w \<Rightarrow> bool"
    and acceptable :: "'q \<Rightarrow> 'a \<Rightarrow> bool"
  assumes step_good: "good w \<Longrightarrow> good (snd (step q w))"
    and step_acceptable: "good w \<Longrightarrow> acceptable q (fst (step q w))"
begin

fun run :: "'q list \<Rightarrow> 'w \<Rightarrow> 'a list \<times> 'w" where
  "run [] w = ([], w)"
| "run (q # qs) w = (case step q w of (a, w') \<Rightarrow> (case run qs w' of (as, w'') \<Rightarrow> (a # as, w'')))"

lemma run_good: "good w \<Longrightarrow> good (snd (run qs w))"
proof (induction qs arbitrary: w)
  case (Cons q qs)
  obtain a w' where s: "step q w = (a, w')" by fastforce
  then have "good w'" using step_good [OF Cons.prems, of q] by simp
  from Cons.IH [OF this] show ?case by (auto simp: s split: prod.split)
qed simp

lemma run_length: "length (fst (run qs w)) = length qs"
  by (induction qs arbitrary: w) (auto split: prod.splits, metis fst_conv)

lemma run_acceptable: "good w \<Longrightarrow> list_all2 acceptable qs (fst (run qs w))"
proof (induction qs arbitrary: w)
  case (Cons q qs)
  obtain a w' where s: "step q w = (a, w')" by fastforce
  then have "good w'" "acceptable q a"
    using step_good [OF Cons.prems, of q] step_acceptable [OF Cons.prems, of q] by simp_all
  with Cons.IH [OF this(1)] show ?case by (auto simp: s split: prod.split)
qed simp

lemma run_append:
  "run (ps @ qs) w =
     (case run ps w of (as, w') \<Rightarrow> (case run qs w' of (bs, w'') \<Rightarrow> (as @ bs, w'')))"
  by (induction ps arbitrary: w) (auto split: prod.splits)

end

section \<open>Contracts through the endpoints\<close>

lemma wp_mapped:
  "wp (mapped f m) Q w = wp m (\<lambda>r w'. case r of Inl e \<Rightarrow> Q (Inl (f e)) w' | Inr a \<Rightarrow> Q (Inr a) w') w"
  by (simp add: mapped_def wp_def catching_def raise_exn_def split: prod.split sum.split)

lemma wp_as_body:
  "wp (as_body f m) Q w = wp m (\<lambda>r w'. case r of Inl e \<Rightarrow> Q (Inl e) w' | Inr a \<Rightarrow> Q (Inr (f a)) w') w"
  by (simp add: as_body_def wp_def and_then_def done_with_def split: prod.split sum.split)

text \<open>
  What a handler owes the request: the contract on the state, and that a conflict it answers
  comes from a failed flush.
\<close>

definition conflict_broken :: "exn + 'a \<Rightarrow> 'r world \<Rightarrow> bool" where
  "conflict_broken res w \<longleftrightarrow> (\<forall>detail. res = Inl (HTTPException 409 detail) \<longrightarrow> broken (sess w))"

definition endpoint_ok :: "'r cache_service \<Rightarrow> tables \<Rightarrow> exn + 'a \<Rightarrow> 'r world \<Rightarrow> bool" where
  "endpoint_ok cache t res w \<longleftrightarrow> state_ok cache t res w \<and> conflict_broken res w"

lemma endpoint_ok_raise:
  "ready env cache w \<Longrightarrow> \<not> is_HTTPException e \<Longrightarrow> endpoint_ok cache (db w) (Inl e) w"
  by (auto simp: endpoint_ok_def conflict_broken_def state_ok_def ready_def consistent_def)

lemma endpoint_ok_method:
  assumes "method_ok cache t res w"
  shows "endpoint_ok cache t res w"
  using assms by (cases res) (auto simp: method_ok_def endpoint_ok_def conflict_broken_def)

lemma endpoint_ok_as_body:
  assumes "wp m (endpoint_ok cache t) w"
  shows "wp (as_body f m) (endpoint_ok cache t) w"
  unfolding wp_as_body
  by (rule wp_mono [OF assms])
     (auto simp: endpoint_ok_def conflict_broken_def intro: state_ok_value state_ok_error split: sum.split)

text \<open>A mapping of the exceptions of a service that answers 409 only to conflicts.\<close>

lemma endpoint_ok_mapped:
  assumes "wp m (method_ok cache t) w"
    and "\<And>e detail. \<not> out_of_place e \<Longrightarrow> f e \<noteq> HTTPException 409 detail"
  shows "wp (mapped f m) (endpoint_ok cache t) w"
  unfolding wp_mapped
  by (rule wp_mono [OF assms(1)])
     (use assms(2) in \<open>auto simp: endpoint_ok_def conflict_broken_def method_ok_def
        intro: state_ok_value state_ok_error split: sum.split\<close>)

lemma not_found_error_409: "\<not> out_of_place e \<Longrightarrow> not_found_error e \<noteq> HTTPException 409 detail"
  by (cases e) simp_all

lemma adjust_error_409: "\<not> out_of_place e \<Longrightarrow> adjust_error e \<noteq> HTTPException 409 detail"
  by (cases e) simp_all

lemma transition_error_409: "\<not> out_of_place e \<Longrightarrow> transition_error e \<noteq> HTTPException 409 detail"
  by (cases e) simp_all

lemmas endpoint_ok_not_found = endpoint_ok_mapped [where f = not_found_error, OF _ not_found_error_409, simplified]
lemmas endpoint_ok_adjust = endpoint_ok_mapped [where f = adjust_error, OF _ adjust_error_409, simplified]

lemma create_item_integrity:
  assumes "ready env cache w"
  shows "wp (create_item env cache name price stock description threshold)
           (\<lambda>r w'. r = Inl IntegrityError \<longrightarrow> broken (sess w')) w"
  unfolding wp_create_item [OF readyD(2) [OF assms] readyD(3) [OF assms] refl refl]
  by (simp split: option.split)

lemma create_error_409:
  "\<not> out_of_place e \<Longrightarrow> create_error name e = HTTPException 409 detail \<Longrightarrow> e = IntegrityError"
  by (cases e) simp_all

lemma service_method_ok:
  assumes "ready env cache w"
  shows "wp (service_method env cache action oid) (method_ok cache (db w)) w"
  using confirm_order_ok [OF assms] transition_ok [OF assms] cancel_order_ok [OF assms]
  by (cases action) (simp_all add: ship_order_def deliver_order_def)

lemma analytics_reads_only:
  "reads_only get_stock_analytics" "reads_only (get_order_analytics env d)"
  "reads_only (get_movement_analytics env d)"
  by (auto simp: get_stock_analytics_def get_order_analytics_def get_movement_analytics_def
      since_days_def quantized_def intro!: reads_only_intros)

lemmas handler_defs = api_create_item_def api_list_items_def api_get_item_def api_adjust_stock_def
  api_list_orders_def api_place_order_def api_get_order_def transition_router_def
  api_low_stock_alerts_def api_get_stock_def api_get_movements_def api_analytics_summary_def
  api_stock_analytics_def api_order_analytics_def api_movement_analytics_def

lemma endpoint_ok_reads_only:
  assumes "reads_only m" and "ready env cache w"
  shows "wp m (endpoint_ok cache (db w)) w"
  by (rule wp_mono [OF reads_only_ok [OF assms]]) (rule endpoint_ok_method)

lemma endpoint_ok_validated:
  assumes "ready env cache w" and "wp m (endpoint_ok cache (db w)) w"
  shows "wp (validated ok m) (endpoint_ok cache (db w)) w"
  using assms by (simp add: validated_def wp_raise_exn endpoint_ok_raise)

lemma api_create_item_ok:
  assumes "ready env (get_cache env) w"
  shows "wp (api_create_item env b) (endpoint_ok (get_cache env) (db w)) w"
  unfolding api_create_item_def
proof (intro endpoint_ok_validated [OF assms] endpoint_ok_as_body)
  show "wp (mapped (create_error (ic_name b)) (create_item env (get_cache env) (ic_name b) (price_cents b)
      (ic_stock_quantity b) (ic_description b) (ic_low_stock_threshold b))) (endpoint_ok (get_cache env) (db w)) w"
    unfolding wp_mapped
    by (rule wp_mono [OF wp_conj [OF create_item_ok [OF assms] create_item_integrity [OF assms]]])
       (auto simp: endpoint_ok_def conflict_broken_def method_ok_def dest: create_error_409
          intro: state_ok_value state_ok_error split: sum.splits)
qed

text \<open>A transition that returns has found its order: the reload at its end never fails.\<close>

definition finds :: "('r, 'a option) io \<Rightarrow> bool" where
  "finds m \<longleftrightarrow> (\<forall>w. fst (m w) \<noteq> Inr None)"

lemma finds_intros:
  "(\<And>a. finds (f a)) \<Longrightarrow> finds (and_then m f)"
  "finds (raise_exn e)"
  "finds h \<Longrightarrow> finds h' \<Longrightarrow> finds (if b then h else h')"
  "finds h \<Longrightarrow> (\<And>x. finds (g x)) \<Longrightarrow> finds (case y of None \<Rightarrow> h | Some x \<Rightarrow> g x)"
  by (auto simp: finds_def and_then_def raise_exn_def split: prod.split sum.split option.split)

lemma finds_reload:
  "finds (and_then (transition_status env oid v st)
     (\<lambda>updated. if \<not> updated then raise_exn e else reload_order oid))"
  unfolding finds_def
proof
  fix w
  have "wp (and_then (transition_status env oid v st)
      (\<lambda>updated. if \<not> updated then raise_exn e else reload_order oid)) (\<lambda>r w'. r \<noteq> Inr None) w"
    by (simp add: wp_and_then wp_transition_status wp_if wp_raise_exn reload_order_def wp_order_get_by_id
        table_simps split: option.split)
  then show "fst (and_then (transition_status env oid v st)
      (\<lambda>updated. if \<not> updated then raise_exn e else reload_order oid) w) \<noteq> Inr None"
    by (simp add: wp_result)
qed

lemma service_method_finds: "finds (service_method env cache action oid)"
  by (cases action)
     (simp only: service_method.simps ship_order_def deliver_order_def confirm_order_def transition_def
        cancel_order_def Let_def; intro finds_reload finds_intros)+

lemma finds_mapped:
  assumes "finds m"
  shows "finds (mapped f m)"
  unfolding finds_def
proof
  fix w
  have "fst (m w) \<noteq> Inr None" using assms by (simp add: finds_def)
  then show "fst (mapped f m w) \<noteq> Inr None"
    by (auto simp: mapped_def catching_def raise_exn_def split: prod.split sum.split)
qed

lemma transition_router_ok:
  assumes "ready env (get_cache env) w"
  shows "wp (transition_router env action oid) (endpoint_ok (get_cache env) (db w)) w"
proof -
  let ?m = "mapped transition_error (service_method env (get_cache env) action oid)"
  have "finds ?m" by (intro finds_mapped service_method_finds)
  then have "wp ?m (\<lambda>r w'. r \<noteq> Inr None) w" unfolding wp_result finds_def by blast
  with endpoint_ok_mapped [OF service_method_ok [OF assms] transition_error_409]
  have "wp ?m (\<lambda>r w'. endpoint_ok (get_cache env) (db w) r w' \<and> r \<noteq> Inr None) w"
    by (rule wp_conj)
  then show ?thesis
    unfolding transition_router_def wp_and_then
    by (rule wp_mono)
       (auto simp: endpoint_ok_def conflict_broken_def wp_case_option wp_raise_exn wp_done_with
          intro: state_ok_value state_ok_error split: sum.split option.split)
qed

lemma reads_only_summary: "reads_only (and_then get_stock_analytics (\<lambda>s.
     and_then (get_order_analytics env days) (\<lambda>orders.
     and_then (get_movement_analytics env days) (\<lambda>m. done_with (f s orders m)))))"
  by (intro reads_only_bind analytics_reads_only reads_only_basic)

lemma handler_ok:
  assumes "ready env (get_cache env) w"
  shows "wp (handler env lim e) (endpoint_ok (get_cache env) (db w)) w"
proof -
  note reads = reads_only_ok [OF _ assms] endpoint_ok_reads_only [OF _ assms]
  show ?thesis
  proof (cases e)
    case (PostItem b)
    then show ?thesis using api_create_item_ok [OF assms] by simp
  next
    case (PostOrderAction i a)
    then show ?thesis using transition_router_ok [OF assms] by simp
  next
    case (PatchItemStock i b)
    then show ?thesis
      by (simp add: api_adjust_stock_def)
         (intro endpoint_ok_validated [OF assms] endpoint_ok_as_body endpoint_ok_adjust adjust_stock_ok [OF assms])
  next
    case (PostOrder b)
    then show ?thesis
      by (simp add: api_place_order_def)
         (intro endpoint_ok_validated [OF assms] endpoint_ok_as_body endpoint_ok_not_found place_order_ok [OF assms])
  next
    case (GetStock i)
    then show ?thesis
      by (simp add: api_get_stock_def wp_raise_exn endpoint_ok_raise [OF assms])
         (intro impI endpoint_ok_as_body endpoint_ok_not_found get_stock_ok [OF assms])
  qed (simp only: handler.simps handler_defs;
       (rule endpoint_ok_validated [OF assms])?; (rule endpoint_ok_as_body)?; (rule endpoint_ok_not_found)?;
       rule reads; intro reads_only_services analytics_reads_only reads_only_summary reads_only_basic)+
qed


section \<open>The application as a server\<close>

definition serving :: "'r env \<Rightarrow> 'r world \<Rightarrow> bool" where
  "serving env w \<longleftrightarrow> cache_ok env (get_cache env) \<and> consistent (get_cache env) (db w) (redis w)"

lemma success_status_range: "success_status e \<noteq> 409"
  by (cases e) simp_all

lemma error_response_409:
  "error_response e = Inr response \<Longrightarrow> resp_status response = 409 \<Longrightarrow>
     (\<And>detail. e = HTTPException 409 detail \<Longrightarrow> P) \<Longrightarrow> P"
  by (cases e) (auto simp: json_response_def)

lemma router_app_serves:
  assumes "serving env w" and "router_app env lim request w = (r, w')"
  shows "serving env w' \<and> evolves (db w) (db w')" and "r = Inr response \<Longrightarrow> resp_status response \<noteq> 409"
proof -
  let ?c = "get_cache env" and ?h = "handler env lim (req_endpoint request)"
  from assms(1) have ok: "cache_ok env ?c" "consistent ?c (db w) (redis w)"
    by (simp_all add: serving_def)
  have e: "wp ?h (endpoint_ok ?c (db w)) (open_session w)"
    using handler_ok [OF ready_open [OF ok]] by simp
  have w': "w' = snd (get_db env ?h w)"
    using assms(2) by (simp add: router_app_def Let_def split: prod.splits)
  have "wp ?h (state_ok ?c (db w)) (open_session w)"
    by (rule wp_mono [OF e]) (simp add: endpoint_ok_def)
  from get_db_consistent [OF this ok(2)] show "serving env w' \<and> evolves (db w) (db w')"
    unfolding w' serving_def using ok(1) by blast
  obtain a w1 where h: "?h (open_session w) = (a, w1)" by fastforce
  with e have a: "endpoint_ok ?c (db w) a w1" by (simp add: wp_def)
  obtain o' where o': "get_db env ?h w = (o', w')" using w' by (metis prod.collapse)
  have g: "o' \<noteq> Inl (HTTPException 409 detail)" if "a = Inl x" for x detail
  proof -
    have "wp (get_db env ?h) (\<lambda>r' _. r' \<noteq> Inl (HTTPException 409 detail)) w"
      using a that
      by (auto simp: wp_get_db wp_rules wp_result [of ?h] h endpoint_ok_def conflict_broken_def
          state_ok_def wp_flush_quiet)
    with o' show ?thesis by (simp add: wp_def)
  qed
  have r: "r = respond (success_status (req_endpoint request)) a o'"
    using assms(2) h o' by (simp add: router_app_def)
  show "resp_status response \<noteq> 409" if "r = Inr response"
    using that g r
    by (cases "(success_status (req_endpoint request), a, o')" rule: respond.cases)
       (auto simp: json_response_def success_status_range elim: error_response_409)
qed

lemma dispatch_cases:
  "dispatch require keys app q = app q \<or>
   (\<exists>code b. (code = 401 \<or> code = 403) \<and> dispatch require keys app q = done_with (json_response code b))"
  unfolding dispatch_def by (cases "req_api_key q") (simp_all, blast+)

lemma server_serves:
  assumes "serving env w"
  shows "serving env (snd (serve env lim request w)) \<and>
    evolves (db w) (db (snd (serve env lim request w))) \<and>
    resp_status (fst (serve env lim request w)) \<noteq> 409"
proof -
  have t: "serving env (tick w)" using assms by (simp add: serving_def)
  let ?app = "dispatch (require_auth (env_settings env)) (valid_api_keys (env_settings env)) (router_app env lim)"
  obtain r w' where d: "?app request (tick w) = (r, w')" by fastforce
  have "serving env w' \<and> evolves (db w) (db w') \<and> (\<forall>response. r = Inr response \<longrightarrow> resp_status response \<noteq> 409)"
  proof (cases "?app request = router_app env lim request")
    case True
    with d have "router_app env lim request (tick w) = (r, w')" by simp
    with router_app_serves [OF t this] show ?thesis by simp
  next
    case False
    with dispatch_cases [of "require_auth (env_settings env)" "valid_api_keys (env_settings env)"
        "router_app env lim" request] d t
    show ?thesis by (auto simp: done_with_def json_response_def)
  qed
  then show ?thesis
    using d by (cases r)
      (simp_all add: serve_def server_error_def logging_middleware_def and_then_def uuid4_def
        tick_def [symmetric] done_with_def json_response_def)
qed

text \<open>Requests answered one after the other; each comes with the verdict of the rate limiter.\<close>

definition serve_step :: "'r env \<Rightarrow> bool \<times> http_request \<Rightarrow> 'r world \<Rightarrow> http_response \<times> 'r world" where
  "serve_step env q = serve env (fst q) (snd q)"

fun serve_all :: "'r env \<Rightarrow> (bool \<times> http_request) list \<Rightarrow> 'r world \<Rightarrow> http_response list \<times> 'r world" where
  "serve_all env [] w = ([], w)"
| "serve_all env (q # qs) w =
     (case serve_step env q w of (a, w') \<Rightarrow>
        (case serve_all env qs w' of (as, w'') \<Rightarrow> (a # as, w'')))"

interpretation nova: request_server "serve_step env" "\<lambda>w. serving env w \<and> evolves t (db w)"
  "\<lambda>_ response. resp_status response \<noteq> 409" for env t
  by unfold_locales (use server_serves in \<open>auto simp: serve_step_def intro: evolves_trans\<close>)

lemma serve_all_run: "serve_all env qs w = nova.run env qs w"
  by (induction qs arbitrary: w) (simp_all add: nova.run.simps)

lemma served:
  assumes "serving env w"
  shows "serving env (snd (serve_all env qs w))"
    and "evolves (db w) (db (snd (serve_all env qs w)))"
    and "\<forall>response \<in> set (fst (serve_all env qs w)). resp_status response \<noteq> 409"
proof -
  have g: "serving env w \<and> evolves (db w) (db w)" using assms by simp
  show "serving env (snd (serve_all env qs w))" "evolves (db w) (db (snd (serve_all env qs w)))"
    using nova.run_good [OF g, of qs] by (simp_all add: serve_all_run)
  show "\<forall>response \<in> set (fst (serve_all env qs w)). resp_status response \<noteq> 409"
    using nova.run_acceptable [OF g, of qs] unfolding serve_all_run
    by (auto simp: list_all2_conv_all_nth in_set_conv_nth)
qed

end
