(* ===== verification/Sample_State.thy ===== *)
theory Sample_State
  imports Conservation Serial_Runs
begin

text \<open>
  A small deployment with concrete parameters: a Redis server kept as a map, counters for
  identifiers and clock, and tables with one item, its first movement and one pending order.
  The instances of the properties evaluate the model on it.
\<close>

section \<open>Parameters\<close>

definition map_client :: "(string \<rightharpoonup> string) redis_client" where
  "map_client =
     \<lparr>redis_get = (\<lambda>k r. (Inr (r k), r)),
      redis_setex = (\<lambda>k ttl v r. (Inr (), r(k \<mapsto> v))),
      redis_delete = (\<lambda>k r. (Inr (), r(k := None)))\<rparr>"

definition sample_settings :: settings where
  "sample_settings = default_settings\<lparr>require_auth := True, api_keys := ''k1''\<rparr>"

definition sample_env :: "(string \<rightharpoonup> string) env" where
  "sample_env =
     \<lparr>env_uuid4 = (\<lambda>n. word_of_nat (n + 100)), env_utc_now = (\<lambda>n. int n), env_settings = sample_settings,
      env_redis = map_client, env_collation = map of_char\<rparr>"

lemma redis_laws_map_client: "redis_laws map_client ttl"
  by (auto simp: redis_laws_def redis_reads_def map_client_def)

lemma sample_env_simps [simp]:
  "env_uuid4 sample_env n = word_of_nat (n + 100)" "env_utc_now sample_env n = int n"
  "env_settings sample_env = sample_settings" "env_redis sample_env = map_client"
  by (simp_all add: sample_env_def)

lemma get_cache_sample [simp]: "get_cache sample_env = Some map_client"
  by (simp add: get_cache_def cache_service_init_def get_redis_def sample_settings_def default_settings_def)

lemma cache_ok_sample [simp]: "cache_ok sample_env (Some map_client)"
  by (simp add: cache_ok_def redis_laws_map_client)

lemma valid_keys_sample [simp]: "valid_api_keys sample_settings = {''k1''}"
  by (simp add: valid_api_keys_def sample_settings_def default_settings_def py_strip_def strip_by_def py_space_def)

lemma require_auth_sample [simp]: "require_auth sample_settings"
  by (simp add: sample_settings_def)

interpretation sample_deployment: cache_deployment sample_env "Some map_client"
  by unfold_locales simp

section \<open>Tables\<close>

definition sample_item :: menu_item where
  "sample_item =
     \<lparr>item_id = 1, item_name = ''Burger'', item_description = None, item_price = 1299, stock_quantity = 10,
      low_stock_threshold = 3, item_version = 1, item_created_at = 0, item_updated_at = 0\<rparr>"

definition sample_movement :: stock_movement where
  "sample_movement =
     \<lparr>mv_id = 2, mv_item_id = 1, mv_order_id = None, movement_type = ADJUSTMENT, quantity_delta = 10,
      stock_before = 0, stock_after = 10, reason = None, mv_created_at = 0\<rparr>"

definition sample_order :: "int \<Rightarrow> order" where
  "sample_order n =
     \<lparr>order_id = 5, order_item_id = 1, quantity = n, status = PENDING, customer_ref = None,
      order_version = 1, order_created_at = 0, order_updated_at = 0\<rparr>"

definition sample_tables :: "int \<Rightarrow> tables" where
  "sample_tables n =
     \<lparr>menu_items = [sample_item], order_rows = [sample_order n], stock_movements = [sample_movement]\<rparr>"

definition sample_world :: "int \<Rightarrow> (string \<rightharpoonup> string) world" where
  "sample_world n = \<lparr>db = sample_tables n, sess = fresh_session, redis = Map.empty, calls = 0\<rparr>"

lemma sample_simps [simp]:
  "item_id sample_item = 1" "stock_quantity sample_item = 10" "item_version sample_item = 1"
  "item_price sample_item = 1299" "low_stock_threshold sample_item = 3" "item_name sample_item = ''Burger''"
  "order_id (sample_order n) = 5" "order_item_id (sample_order n) = 1" "quantity (sample_order n) = n"
  "status (sample_order n) = PENDING" "order_version (sample_order n) = 1"
  "order_created_at (sample_order n) = 0" "customer_ref (sample_order n) = None"
  "find_item i (sample_tables n) = (if i = 1 then Some sample_item else None)"
  "find_order i (sample_tables n) = (if i = 5 then Some (sample_order n) else None)"
  "stock_movements (sample_tables n) = [sample_movement]" "menu_items (sample_tables n) = [sample_item]"
  "order_rows (sample_tables n) = [sample_order n]"
  "db (sample_world n) = sample_tables n" "redis (sample_world n) = Map.empty" "calls (sample_world n) = 0"
  by (simp_all add: sample_item_def sample_order_def sample_tables_def sample_world_def find_item_def
      find_order_def)

lemma sample_movement_simps [simp]:
  "mv_id sample_movement = 2" "mv_item_id sample_movement = 1" "mv_order_id sample_movement = None"
  "quantity_delta sample_movement = 10" "movement_type sample_movement = ADJUSTMENT"
  "mv_created_at sample_movement = 0"
  by (simp_all add: sample_movement_def)

lemma audit_ok_sample:
  assumes "0 < n" and "n < 2 ^ 31"
  shows "audit_ok (sample_tables n)"
proof -
  have "schema_ok (sample_tables n)"
    using assms by (simp add: schema_ok_def item_types_ok_def item_checks_ok_def order_types_ok_def
        order_checks_ok_def movement_types_ok_def int4_def sample_movement_def)
  moreover have "ledger_ok (sample_tables n)"
    by (simp add: ledger_ok_def item_movements_def sample_movement_def)
  moreover have "trail_ok (sample_tables n)"
    by (simp add: trail_ok_def order_trail_def movement_ok_def sample_movement_def)
  ultimately show ?thesis by (simp add: audit_ok_def)
qed

lemma consistent_sample:
  assumes "0 < n" and "n < 2 ^ 31"
  shows "consistent (Some map_client) (sample_tables n) Map.empty"
  using audit_ok_sample [OF assms]
  by (simp add: consistent_def cache_coherent_def cached_def map_client_def)

text \<open>The same after the confirmation of the order.\<close>

definition confirmed_item :: menu_item where
  "confirmed_item = sample_item\<lparr>stock_quantity := 6, item_version := 2\<rparr>"

definition confirmed_order :: order where
  "confirmed_order = (sample_order 4)\<lparr>status := CONFIRMED, order_version := 2\<rparr>"

definition confirmed_movement :: stock_movement where
  "confirmed_movement =
     \<lparr>mv_id = 3, mv_item_id = 1, mv_order_id = Some 5, movement_type = DEDUCTION, quantity_delta = - 4,
      stock_before = 10, stock_after = 6, reason = None, mv_created_at = 1\<rparr>"

definition confirmed_world :: "(string \<rightharpoonup> string) world" where
  "confirmed_world =
     \<lparr>db = \<lparr>menu_items = [confirmed_item], order_rows = [confirmed_order],
            stock_movements = [sample_movement, confirmed_movement]\<rparr>,
      sess = fresh_session, redis = Map.empty, calls = 0\<rparr>"

lemma confirmed_simps [simp]:
  "item_id confirmed_item = 1" "stock_quantity confirmed_item = 6" "item_version confirmed_item = 2"
  "order_id confirmed_order = 5" "order_item_id confirmed_order = 1" "quantity confirmed_order = 4"
  "status confirmed_order = CONFIRMED" "order_version confirmed_order = 2"
  "find_item i (db confirmed_world) = (if i = 1 then Some confirmed_item else None)"
  "find_order i (db confirmed_world) = (if i = 5 then Some confirmed_order else None)"
  "stock_movements (db confirmed_world) = [sample_movement, confirmed_movement]"
  "menu_items (db confirmed_world) = [confirmed_item]" "order_rows (db confirmed_world) = [confirmed_order]"
  "item_price confirmed_item = 1299" "low_stock_threshold confirmed_item = 3" "item_name confirmed_item = ''Burger''"
  "customer_ref confirmed_order = None"
  "mv_id confirmed_movement = 3" "calls confirmed_world = 0"
  by (simp_all add: confirmed_item_def confirmed_order_def confirmed_movement_def confirmed_world_def
      find_item_def find_order_def sample_item_def sample_order_def)

lemma audit_ok_confirmed: "audit_ok (db confirmed_world)"
proof -
  have "schema_ok (db confirmed_world)"
    by (simp add: schema_ok_def item_types_ok_def item_checks_ok_def order_types_ok_def order_checks_ok_def
        movement_types_ok_def int4_def sample_movement_def confirmed_movement_def)
  moreover have "ledger_ok (db confirmed_world)"
    by (simp add: ledger_ok_def item_movements_def sample_movement_def confirmed_movement_def)
  moreover have "trail_ok (db confirmed_world)"
    by (simp add: trail_ok_def order_trail_def movement_ok_def sample_movement_def confirmed_movement_def)
  ultimately show ?thesis by (simp add: audit_ok_def)
qed

end
