(* ===== verification/Request_Properties.thy ===== *)
theory Request_Properties
  imports Sample_State
begin

text \<open>
  The properties of single requests: what each operation of the services leaves committed
  and answers, branch by branch, with the endpoint's mapping of exceptions and the database
  dependency around it. They rest on the branch lemmas of \<open>Services_Correct\<close>; the first
  sections give the conditions under which no statement fails, and carry a result through
  endpoint and commit.
\<close>

section \<open>When nothing fails\<close>

text \<open>A change of stock within the types, with a new identifier for its movement, is accepted.\<close>

lemma change_accepted:
  assumes "schema_ok (view w)" and "find_item (item_id it) (view w) = Some it"
    and "0 \<le> stock_quantity it + d" and "stock_quantity it + d < 2 ^ 31" and "item_version it + 1 < 2 ^ 31"
    and "\<And>mid created. mv_id (new mid created) = mid" and "\<And>mid created. records_change it d oid kind (new mid created)"
    and "case oid of None \<Rightarrow> True | Some i \<Rightarrow> find_order i (view w) \<noteq> None"
    and "env_uuid4 env (Suc (calls w)) \<notin> mv_id ` set (stock_movements (view w))"
  shows "change_fault env it d new w = None"
proof -
  let ?now = "env_utc_now env (calls w)"
  let ?m = "new (env_uuid4 env (Suc (calls w))) (env_utc_now env (Suc (Suc (calls w))))"
  note m = assms(7) [of "env_uuid4 env (Suc (calls w))" "env_utc_now env (Suc (Suc (calls w)))",
      unfolded records_change_def]
  have it: "item_types_ok it \<and> item_checks_ok it"
    using assms(1,2) by (intro schema_ok_item)
  then have stock: "0 \<le> stock_quantity it" "stock_quantity it < 2 ^ 31"
    by (simp_all add: item_checks_ok_def item_types_ok_def int4_def)
  have "- (2 ^ 31) \<le> item_version it" using it by (simp add: item_types_ok_def int4_def)
  with it assms(3-5) have "item_types_ok ((changed_item it d)\<lparr>item_updated_at := ?now\<rparr>)"
    "item_checks_ok ((changed_item it d)\<lparr>item_updated_at := ?now\<rparr>)"
    by (simp_all add: item_types_ok_def item_checks_ok_def changed_item_def int4_def abs_less_iff)
  then have 1: "statement_fault (view w) (stock_update it (changed_item it d) ?now) = None"
    using assms(2) stock_update_columns [OF changed_item_def, of it d ?now]
    by (simp add: stock_update_def statement_fault.simps Let_def)
  have "movement_types_ok ?m"
    using m assms(3,4) stock by (simp add: movement_types_ok_def int4_def)
  then have 2: "statement_fault (apply_statement (stock_update it (changed_item it d) ?now) (view w))
      (InsertMovement ?m) = None"
    using assms(2,6,8,9) m
    by (auto simp: statement_fault.simps find_item_change [OF assms(2)] stock_update_def table_simps
        split: option.splits)
  from 1 2 show ?thesis by (simp add: change_fault_def Let_def)
qed


section \<open>Through the endpoint\<close>

lemma transition_router_raises:
  assumes "service_method env (get_cache env) action oid w = (Inl e, w')"
  shows "transition_router env action oid w = (Inl (transition_error e), w')"
  using assms by (simp add: transition_router_def mapped_def catching_def and_then_def raise_exn_def)

lemma transition_router_returns:
  assumes "service_method env (get_cache env) action oid w = (Inr (Some r), w')"
  shows "transition_router env action oid w = (Inr (OrderBody (order_response r)), w')"
  using assms by (simp add: transition_router_def mapped_def catching_def and_then_def done_with_def)

text \<open>A result of a handler with nothing pending, committed.\<close>

lemma committed_result:
  assumes "get_db env h w = (res, w')" and "h (open_session w) = (r, w1)" and "committing r"
    and "\<not> broken (sess w1)" and "pending (sess w1) = []"
  shows "res = r \<and> db w' = view w1 \<and> redis w' = redis w1 \<and> calls w' = calls w1"
  using get_db_committed [of h, OF assms(2-5), of env] assms(1) by (simp add: set_pending_idem [OF assms(5)])

lemma open_session_simps:
  "view (open_session w) = db w" "\<not> broken (sess (open_session w))" "pending (sess (open_session w)) = []"
  "calls (open_session w) = calls w" "redis (open_session w) = redis w"
  by simp_all

lemma stock_of_change:
  assumes "find_item (item_id it) t = Some it"
  shows "stock_of (apply_statement (stock_update it (changed_item it d) now) t) j =
    (if j = item_id it then Some (stock_quantity it + d) else stock_of t j)"
  by (simp add: stock_of_def find_item_change [OF assms])

lemma audit_find:
  assumes "audit_ok t" and "find_order oid t = Some r"
  obtains it where "find_item (order_item_id r) t = Some it" and "item_id it = order_item_id r"
    and "order_id r = oid" and "0 < quantity r" and "quantity r < 2 ^ 31"
    and "0 \<le> stock_quantity it" and "stock_quantity it < 2 ^ 31"
    and "trail_for (status r) (quantity r) (order_version r) (order_trail oid t)"
proof -
  have r: "order_types_ok r \<and> order_checks_ok r \<and> (\<exists>it. find_item (order_item_id r) t = Some it)"
    using assms by (intro schema_ok_order) (simp_all add: audit_ok_def)
  then obtain it where it: "find_item (order_item_id r) t = Some it" by blast
  have "item_types_ok it \<and> item_checks_ok it"
    using assms(1) it by (intro schema_ok_item) (simp_all add: audit_ok_def)
  moreover have "trail_for (status r) (quantity r) (order_version r) (order_trail oid t)"
    using assms by (intro trail_ok_find) (simp_all add: audit_ok_def)
  ultimately show thesis
    using that [OF it found_item_id [OF it] found_order_id [OF assms(2)]] r
    by (simp add: order_types_ok_def order_checks_ok_def item_types_ok_def item_checks_ok_def int4_def)
qed

section \<open>What a request changes\<close>

text \<open>
  The stock of one item changes by a delta and its version by one, with one movement that
  records it; every other item stays as it is.
\<close>

definition stock_change_recorded ::
  "tables \<Rightarrow> tables \<Rightarrow> menu_item \<Rightarrow> int \<Rightarrow> uuid option \<Rightarrow> movement_kind \<Rightarrow> bool" where
  "stock_change_recorded t t' it d oid kind \<longleftrightarrow>
     (\<exists>now. \<forall>i. find_item i t' = (if i = item_id it then Some ((changed_item it d)\<lparr>item_updated_at := now\<rparr>)
                             else find_item i t)) \<and>
     (\<exists>m. stock_movements t' = stock_movements t @ [m] \<and> records_change it d oid kind m)"

text \<open>One order moves to a status; the others stay.\<close>

definition order_moved :: "tables \<Rightarrow> tables \<Rightarrow> uuid \<Rightarrow> order \<Rightarrow> order_status \<Rightarrow> order \<Rightarrow> bool" where
  "order_moved t t' oid r st r' \<longleftrightarrow>
     find_order oid t = Some r \<and> find_order oid t' = Some r' \<and> status r' = st \<and>
     can_transition_to (status r) st \<and> order_version r' = order_version r + 1 \<and>
     quantity r' = quantity r \<and> order_item_id r' = order_item_id r \<and> customer_ref r' = customer_ref r \<and>
     (\<forall>i. i \<noteq> oid \<longrightarrow> find_order i t' = find_order i t)"

definition stock_unchanged :: "tables \<Rightarrow> tables \<Rightarrow> bool" where
  "stock_unchanged t t' \<longleftrightarrow> menu_items t' = menu_items t \<and> stock_movements t' = stock_movements t"

lemma order_moved_update:
  assumes "find_order oid t = Some r" and "can_transition_to (status r) st"
    and "\<And>i. find_order i t1 = find_order i t"
  shows "order_moved t (apply_statement (UpdateOrder oid st (order_version r + 1) now) t1) oid r st (moved_order st now r)"
  using assms by (simp add: order_moved_def table_simps moved_order_def)

lemma stock_unchanged_update: "stock_unchanged t (apply_statement (UpdateOrder oid st v now) t)"
  by (simp add: stock_unchanged_def table_simps)

lemma stock_change_recorded_move:
  assumes "find_item (item_id it) t = Some it" and "records_change it d oid kind m"
  shows "stock_change_recorded t (apply_statement (InsertMovement m)
           (apply_statement (stock_update it (changed_item it d) now) t)) it d oid kind"
    and "stock_change_recorded t (apply_statement (UpdateOrder i st v now') (apply_statement (InsertMovement m)
           (apply_statement (stock_update it (changed_item it d) now) t))) it d oid kind"
  using assms(2) find_item_change [OF assms(1)]
  by (auto simp: stock_change_recorded_def table_simps) (simp_all add: stock_update_def table_simps)

lemma stock_change_recordedD:
  assumes "stock_change_recorded t t' it d oid kind"
  shows "stock_of t' i = (if i = item_id it then Some (stock_quantity it + d) else stock_of t i)"
    and "\<exists>it'. find_item (item_id it) t' = Some it' \<and> stock_quantity it' = stock_quantity it + d \<and>
          item_version it' = item_version it + 1"
  using assms by (auto simp: stock_change_recorded_def stock_of_def)

section \<open>Confirmation and cancellation commit\<close>

lemma moves_commit:
  assumes "audit_ok (db w)" and "find_order oid (db w) = Some r"
    and "find_item (order_item_id r) (db w) = Some it"
    and "\<And>mid created. records_change it d (Some oid) kind (new mid created)" and "kind \<noteq> ADJUSTMENT"
    and "change_fault env it d new (open_session w) = None"
    and "can_transition_to (status r) st"
    and "trail_for st (quantity r) (order_version r + 1) (order_trail oid (db w) @ [(kind, d)])"
    and "service_method env (get_cache env) action oid (open_session w) =
      (Inr (Some (moved_order st now r)),
       tick (log_statement (UpdateOrder oid st (order_version r + 1) now)
         (stock_changed env (get_cache env) it d new (open_session w))))"
    and "get_db env (transition_router env action oid) w = (res, w')"
    and "\<And>mid created. mv_id (new mid created) = mid"
  shows "res = Inr (OrderBody (order_response (moved_order st now r))) \<and>
    order_moved (db w) (db w') oid r st (moved_order st now r) \<and>
    stock_change_recorded (db w) (db w') it d (Some oid) kind \<and> audit_ok (db w') \<and>
    calls w' = calls w + 4 \<and>
    mv_id ` set (stock_movements (db w')) = mv_id ` set (stock_movements (db w)) \<union> {env_uuid4 env (Suc (calls w))}"
proof -
  let ?w = "open_session w"
  let ?w1 = "tick (log_statement (UpdateOrder oid st (order_version r + 1) now)
      (stock_changed env (get_cache env) it d new ?w))"
  have item: "find_item (item_id it) (db w) = Some it" "order_item_id r = item_id it"
    using assms(3) found_item_id by metis+
  have "transition_router env action oid ?w = (Inr (OrderBody (order_response (moved_order st now r))), ?w1)"
    by (rule transition_router_returns [OF assms(9)])
  from committed_result [OF assms(10) this]
  have res: "res = Inr (OrderBody (order_response (moved_order st now r)))" "db w' = view ?w1"
    "calls w' = calls w + 4"
    by (simp_all add: committing_def)
  have "mv_id ` set (stock_movements (db w')) =
      mv_id ` set (stock_movements (db w)) \<union> {env_uuid4 env (Suc (calls w))}"
    unfolding res(2) by (simp add: view_stock_changed table_simps stock_update_def assms(11) insert_commute)
  moreover
  have "order_moved (db w) (db w') oid r st (moved_order st now r)"
    using assms(2,7) unfolding res(2) by (simp add: order_moved_update view_stock_changed table_simps)
  moreover have "stock_change_recorded (db w) (db w') it d (Some oid) kind"
    using stock_change_recorded_move(2) [OF item(1) assms(4)]
    unfolding res(2) by (simp add: view_stock_changed)
  moreover have "audit_ok (db w')"
    unfolding res(2) view_simps view_stock_changed
    by (rule audit_ok_move [OF assms(1,2) item assms(4,5) _ _ assms(8)])
       (use change_fault_None [OF assms(6)] trail_for_version [OF assms(8)] in simp_all)
  ultimately show ?thesis using res(1,3) by blast
qed

lemma confirm_commits:
  assumes "audit_ok (db w)" and "find_order oid (db w) = Some r" and "status r = PENDING"
    and "find_item (order_item_id r) (db w) = Some it" and "quantity r \<le> stock_quantity it"
    and "item_version it + 1 < 2 ^ 31"
    and "env_uuid4 env (Suc (calls w)) \<notin> mv_id ` set (stock_movements (db w))"
    and "get_db env (transition_router env ConfirmAction oid) w = (res, w')"
  shows "\<exists>r'. res = Inr (OrderBody (order_response r')) \<and>
    order_moved (db w) (db w') oid r CONFIRMED r' \<and>
    stock_change_recorded (db w) (db w') it (- quantity r) (Some oid) DEDUCTION \<and> audit_ok (db w') \<and>
    calls w' = calls w + 4 \<and>
    mv_id ` set (stock_movements (db w')) = mv_id ` set (stock_movements (db w)) \<union> {env_uuid4 env (Suc (calls w))}"
proof -
  obtain f: "item_id it = order_item_id r" "0 < quantity r" "quantity r < 2 ^ 31"
      "0 \<le> stock_quantity it" "stock_quantity it < 2 ^ 31" "order_version r = 1" "order_trail oid (db w) = []"
    by (rule audit_find [OF assms(1,2)]) (use assms(3,4) in auto)
  let ?d = "deduction oid r it"
  have fault: "change_fault env it (- quantity r) ?d (open_session w) = None"
    by (rule change_accepted [where oid = "Some oid" and kind = DEDUCTION])
       (use assms f in \<open>simp_all add: audit_okD(1) deduction_def change_record_def stock_movement_init_def records_change_def\<close>)
  have "service_method env (get_cache env) ConfirmAction oid (open_session w) =
      (Inr (Some (moved_order CONFIRMED (env_utc_now env (calls w + 3)) r)),
       tick (log_statement (UpdateOrder oid CONFIRMED (order_version r + 1) (env_utc_now env (calls w + 3)))
         (stock_changed env (get_cache env) it (- quantity r) ?d (open_session w))))"
    using confirm_order_deducts [of oid "open_session w" r it env "get_cache env"] assms f(6) fault
    by (simp add: int4_def)
  from moves_commit [OF assms(1,2,4) _ _ fault _ _ this assms(8), of DEDUCTION] f(6,7) assms(3)
  show ?thesis by (auto simp: deduction_def change_record_def stock_movement_init_def records_change_def)
qed

lemma cancel_commits:
  assumes "audit_ok (db w)" and "find_order oid (db w) = Some r"
    and "status r = CONFIRMED \<or> status r = SHIPPED"
    and "find_item (order_item_id r) (db w) = Some it" and "stock_quantity it + quantity r < 2 ^ 31"
    and "item_version it + 1 < 2 ^ 31"
    and "env_uuid4 env (Suc (calls w)) \<notin> mv_id ` set (stock_movements (db w))"
    and "get_db env (transition_router env CancelAction oid) w = (res, w')"
  shows "\<exists>r'. res = Inr (OrderBody (order_response r')) \<and>
    order_moved (db w) (db w') oid r CANCELLED r' \<and>
    stock_change_recorded (db w) (db w') it (quantity r) (Some oid) RESTORATION \<and> audit_ok (db w') \<and>
    calls w' = calls w + 4 \<and>
    mv_id ` set (stock_movements (db w')) = mv_id ` set (stock_movements (db w)) \<union> {env_uuid4 env (Suc (calls w))}"
proof -
  obtain f: "item_id it = order_item_id r" "0 < quantity r" "quantity r < 2 ^ 31"
      "0 \<le> stock_quantity it" "stock_quantity it < 2 ^ 31"
      "trail_for (status r) (quantity r) (order_version r) (order_trail oid (db w))"
    by (rule audit_find [OF assms(1,2)]) (use assms(3,4) in auto)
  let ?d = "restoration oid r it"
  have fault: "change_fault env it (quantity r) ?d (open_session w) = None"
    by (rule change_accepted [where oid = "Some oid" and kind = RESTORATION])
       (use assms f in \<open>simp_all add: audit_okD(1) restoration_def change_record_def stock_movement_init_def records_change_def\<close>)
  have "service_method env (get_cache env) CancelAction oid (open_session w) =
      (Inr (Some (moved_order CANCELLED (env_utc_now env (calls w + 3)) r)),
       tick (log_statement (UpdateOrder oid CANCELLED (order_version r + 1) (env_utc_now env (calls w + 3)))
         (stock_changed env (get_cache env) it (quantity r) ?d (open_session w))))"
    using cancel_order_restores [of oid "open_session w" r it env "get_cache env"] assms
      trail_for_version [OF f(6)] fault
    by simp
  from moves_commit [OF assms(1,2,4) _ _ fault _ _ this assms(8), of RESTORATION] f(6) assms(3)
  show ?thesis by (auto simp: restoration_def change_record_def stock_movement_init_def records_change_def)
qed


section \<open>Properties of the order endpoints\<close>

text \<open>
  C11. Confirming a pending order whose quantity is in stock: the response is the order,
  CONFIRMED with the next version, and the committed state has exactly the deduction: the
  stock of its item goes down by the quantity, no other stock changes, one DEDUCTION movement
  with the stock before and after is appended, and no other order is touched.
\<close>

theorem confirm_deducts_stock:
  assumes "audit_ok (db w)" and "find_order oid (db w) = Some r" and "status r = PENDING"
    and "find_item (order_item_id r) (db w) = Some it" and "quantity r \<le> stock_quantity it"
    and "item_version it + 1 < 2 ^ 31"
    and "env_uuid4 env (Suc (calls w)) \<notin> mv_id ` set (stock_movements (db w))"
    and "get_db env (transition_router env ConfirmAction oid) w = (res, w')"
  shows "\<exists>r'. res = Inr (OrderBody (order_response r')) \<and>
    order_moved (db w) (db w') oid r CONFIRMED r' \<and>
    stock_change_recorded (db w) (db w') it (- quantity r) (Some oid) DEDUCTION"
  using confirm_commits [OF assms] by blast

theorem confirm_deducts_stock_witness:
  "\<exists>r'. fst (get_db sample_env (transition_router sample_env ConfirmAction 5) (sample_world 4)) =
      Inr (OrderBody (order_response r')) \<and>
    status r' = CONFIRMED \<and>
    stock_of (db (snd (get_db sample_env (transition_router sample_env ConfirmAction 5) (sample_world 4)))) 1 = Some 6"
  using confirm_deducts_stock [of "sample_world 4" 5 "sample_order 4" sample_item sample_env,
      OF _ _ _ _ _ _ _ prod.collapse [symmetric]] audit_ok_sample [of 4]
  by (auto simp: order_moved_def dest!: stock_change_recordedD(1) [where i = 1])

text \<open>
  C12. Confirming a pending order whose quantity exceeds the stock: the response is a 422 with
  the message of \<open>InsufficientStockError\<close>, and although the handler raised, the REJECTED status
  is committed; no stock and no movement changes.
\<close>

theorem confirm_rejects_order:
  assumes "audit_ok (db w)" and "find_order oid (db w) = Some r" and "status r = PENDING"
    and "find_item (order_item_id r) (db w) = Some it" and "stock_quantity it < quantity r"
    and "get_db env (transition_router env ConfirmAction oid) w = (res, w')"
  shows "res = Inl (HTTPException 422
      (exn_message (InsufficientStockError (order_item_id r) (quantity r) (stock_quantity it)))) \<and>
    (\<exists>r'. order_moved (db w) (db w') oid r REJECTED r') \<and> stock_unchanged (db w) (db w')"
proof -
  obtain v: "order_version r = 1" by (rule audit_find [OF assms(1,2)]) (use assms(3) in auto)
  let ?e = "InsufficientStockError (order_item_id r) (quantity r) (stock_quantity it)"
  let ?w1 = "tick (log_statement (UpdateOrder oid REJECTED (order_version r + 1) (env_utc_now env (calls w)))
      (open_session w))"
  have "service_method env (get_cache env) ConfirmAction oid (open_session w) = (Inl ?e, ?w1)"
    using confirm_order_insufficient [of oid "open_session w" r it env "get_cache env"] assms v
    by (simp add: int4_def)
  then have "transition_router env ConfirmAction oid (open_session w) =
      (Inl (HTTPException 422 (exn_message ?e)), ?w1)"
    by (simp add: transition_router_raises)
  from committed_result [OF assms(6) this]
  have res: "res = Inl (HTTPException 422 (exn_message ?e))" "db w' = view ?w1"
    by (simp_all add: committing_def)
  have "order_moved (db w) (db w') oid r REJECTED (moved_order REJECTED (env_utc_now env (calls w)) r)"
    using assms(2,3) unfolding res(2) by (simp add: order_moved_update)
  with res show ?thesis by (auto simp: stock_unchanged_update)
qed

theorem confirm_rejects_order_witness:
  "fst (get_db sample_env (transition_router sample_env ConfirmAction 5) (sample_world 11)) =
     Inl (HTTPException 422 (exn_message (InsufficientStockError 1 11 10))) \<and>
   stock_movements (db (snd (get_db sample_env (transition_router sample_env ConfirmAction 5) (sample_world 11)))) =
     [sample_movement]"
  using confirm_rejects_order [of "sample_world 11" 5 "sample_order 11" sample_item sample_env,
      OF _ _ _ _ _ prod.collapse [symmetric]] audit_ok_sample [of 11]
  by (simp add: stock_unchanged_def)

text \<open>
  C13. Cancelling a confirmed or shipped order gives the stock back: the response is the
  CANCELLED order, its item's stock goes up by the quantity with one RESTORATION movement, and
  nothing else changes.
\<close>

theorem cancel_restores_stock:
  assumes "audit_ok (db w)" and "find_order oid (db w) = Some r"
    and "status r = CONFIRMED \<or> status r = SHIPPED"
    and "find_item (order_item_id r) (db w) = Some it" and "stock_quantity it + quantity r < 2 ^ 31"
    and "item_version it + 1 < 2 ^ 31"
    and "env_uuid4 env (Suc (calls w)) \<notin> mv_id ` set (stock_movements (db w))"
    and "get_db env (transition_router env CancelAction oid) w = (res, w')"
  shows "\<exists>r'. res = Inr (OrderBody (order_response r')) \<and>
    order_moved (db w) (db w') oid r CANCELLED r' \<and>
    stock_change_recorded (db w) (db w') it (quantity r) (Some oid) RESTORATION"
  using cancel_commits [OF assms] by blast

theorem cancel_restores_stock_witness:
  "stock_of (db (snd (get_db sample_env (transition_router sample_env CancelAction 5) confirmed_world))) 1 = Some 10 \<and>
   (\<exists>r'. find_order 5 (db (snd (get_db sample_env (transition_router sample_env CancelAction 5) confirmed_world))) = Some r' \<and>
      status r' = CANCELLED)"
  using cancel_restores_stock [of confirmed_world 5 confirmed_order confirmed_item sample_env,
      OF _ _ _ _ _ _ _ prod.collapse [symmetric]] audit_ok_confirmed
  by (auto simp: order_moved_def dest!: stock_change_recordedD(1) [where i = 1])

text \<open>
  C14. Round trip: a confirmation followed by the cancellation of the same order leaves every
  stock as it was before, the order CANCELLED two versions on, and exactly a DEDUCTION and a
  RESTORATION of the quantity more in the movements.
\<close>

theorem confirm_then_cancel:
  assumes "audit_ok (db w)" and "find_order oid (db w) = Some r" and "status r = PENDING"
    and "find_item (order_item_id r) (db w) = Some it" and "quantity r \<le> stock_quantity it"
    and "item_version it + 2 < 2 ^ 31"
    and "get_db env (transition_router env ConfirmAction oid) w = (res1, w1)"
    and "get_db env (transition_router env CancelAction oid) w1 = (res2, w2)"
    and "env_uuid4 env (Suc (calls w)) \<notin> mv_id ` set (stock_movements (db w))"
    and "env_uuid4 env (Suc (calls w1)) \<notin> mv_id ` set (stock_movements (db w1))"
  shows "(\<forall>i. stock_of (db w2) i = stock_of (db w) i) \<and>
    (\<exists>r2. find_order oid (db w2) = Some r2 \<and> status r2 = CANCELLED \<and> order_version r2 = order_version r + 2) \<and>
    order_trail oid (db w2) = order_trail oid (db w) @ [(DEDUCTION, - quantity r), (RESTORATION, quantity r)]"
proof -
  have v: "item_version it + 1 < 2 ^ 31" using assms(6) by simp
  obtain r1 where one: "order_moved (db w) (db w1) oid r CONFIRMED r1"
      "stock_change_recorded (db w) (db w1) it (- quantity r) (Some oid) DEDUCTION" "audit_ok (db w1)"
    using confirm_commits [OF assms(1-5) v assms(9,7)] by blast
  have i: "item_id it = order_item_id r" using assms(4) by (rule found_item_id)
  from one(1) have r1: "find_order oid (db w1) = Some r1" "status r1 = CONFIRMED" "quantity r1 = quantity r"
      "order_item_id r1 = order_item_id r" "order_version r1 = order_version r + 1"
    by (simp_all add: order_moved_def)
  obtain it1 where it1: "find_item (order_item_id r1) (db w1) = Some it1"
      "stock_quantity it1 = stock_quantity it - quantity r" "item_version it1 = item_version it + 1"
    using stock_change_recordedD(2) [OF one(2)] i r1(4) by auto
  have i1: "item_id it1 = order_item_id r" using found_item_id [OF it1(1)] r1(4) by simp
  have bounds: "stock_quantity it < 2 ^ 31" "item_version it1 + 1 < 2 ^ 31"
    using audited_stock_bounds(2) [OF assms(1,4)] assms(6) it1(3) by simp_all
  obtain r2 where two: "order_moved (db w1) (db w2) oid r1 CANCELLED r2"
      "stock_change_recorded (db w1) (db w2) it1 (quantity r1) (Some oid) RESTORATION"
    using cancel_commits [OF one(3) r1(1) _ it1(1) _ bounds(2) assms(10,8)] r1 it1(2) bounds(1) by auto
  have "stock_of (db w2) j = stock_of (db w) j" for j
    using i i1 r1(3) it1(2) assms(4)
    by (simp add: stock_change_recordedD(1) [OF one(2)] stock_change_recordedD(1) [OF two(2)])
       (simp add: stock_of_def)
  moreover have "order_trail oid (db w2) =
      order_trail oid (db w) @ [(DEDUCTION, - quantity r), (RESTORATION, quantity r)]"
    using one(2) two(2) r1(3)
    by (auto simp: stock_change_recorded_def order_trail_def records_change_def)
  ultimately show ?thesis using two(1) r1(5) by (auto simp: order_moved_def)
qed

theorem confirm_then_cancel_witness:
  "\<exists>w2. w2 = snd (get_db sample_env (transition_router sample_env CancelAction 5)
            (snd (get_db sample_env (transition_router sample_env ConfirmAction 5) (sample_world 4)))) \<and>
     stock_of (db w2) 1 = Some 10 \<and>
     order_trail 5 (db w2) = [(DEDUCTION, - 4), (RESTORATION, 4)]"
proof -
  let ?w1 = "snd (get_db sample_env (transition_router sample_env ConfirmAction 5) (sample_world 4))"
  have w1: "calls ?w1 = 4" "mv_id ` set (stock_movements (db ?w1)) = {2, 101}"
    using confirm_commits [of "sample_world 4" 5 "sample_order 4" sample_item sample_env,
        OF _ _ _ _ _ _ _ prod.collapse [symmetric]] audit_ok_sample [of 4]
    by auto
  have "stock_of (sample_tables 4) 1 = Some 10" "order_trail 5 (sample_tables 4) = []"
    by (simp_all add: stock_of_def order_trail_def)
  with confirm_then_cancel [of "sample_world 4" 5 "sample_order 4" sample_item sample_env,
      OF _ _ _ _ _ _ prod.collapse [symmetric] prod.collapse [symmetric]] audit_ok_sample [of 4] w1
  show ?thesis by simp
qed

end
