(* ===== verification/Run_Properties.thy ===== *)
theory Run_Properties
  imports Request_Properties
begin

text \<open>
  The properties of the application: what every run of requests keeps, what the API-key guard
  lets through, what reads leave alone, and the answers that the database dependency changes.
  They rest on the interpretation of the server in \<open>Serial_Runs\<close>.
\<close>

section \<open>Runs of requests\<close>

text \<open>
  C1. Requests answered one after the other keep the database audited and the cache in
  agreement with it, whatever they are and however they end: the declared constraints hold,
  the movements of every item replay from zero to its stock, every order has exactly the
  movements and the version of its status, and every cached quantity is the committed one.
\<close>

theorem runs_keep_audit:
  assumes "cache_ok env (get_cache env)" and "audit_ok (db w)"
    and "cache_coherent (get_cache env) (db w) (redis w)"
    and "serve_all env requests w = (responses, w')"
  shows "audit_ok (db w') \<and> cache_coherent (get_cache env) (db w') (redis w')"
  using served(1) [of env w requests] assms by (simp add: serving_def consistent_def)

theorem runs_keep_audit_witness:
  "audit_ok (db (snd (serve_all sample_env
     [(True, \<lparr>req_endpoint = PostOrderAction 5 ConfirmAction, req_api_key = Some ''k1''\<rparr>),
      (True, \<lparr>req_endpoint = GetStock 1, req_api_key = None\<rparr>)] (sample_world 4))))"
  using runs_keep_audit [of sample_env "sample_world 4", OF _ _ _ prod.collapse [symmetric]]
    consistent_sample [of 4] by (simp add: consistent_def del: serve_all.simps)

text \<open>
  C2. In such a run the quantities add up: for every item, its stock and what its confirmed,
  shipped and delivered orders hold make exactly what the adjustments brought in, the stock is
  never negative, and so no item is ever oversold.
\<close>

theorem runs_conserve_stock:
  assumes "cache_ok env (get_cache env)" and "audit_ok (db w)"
    and "cache_coherent (get_cache env) (db w) (redis w)"
    and "serve_all env requests w = (responses, w')"
    and "find_item i (db w') = Some it"
  shows "stock_quantity it + held_quantity i (db w') = adjusted_quantity i (db w') \<and>
    0 \<le> stock_quantity it \<and> held_quantity i (db w') \<le> adjusted_quantity i (db w')"
proof -
  have "audit_ok (db w')"
    using served(1) [of env w requests] assms(1-4) by (simp add: serving_def consistent_def)
  from stock_balance [OF this assms(5)] audited_stock_bounds [OF this assms(5)] show ?thesis by simp
qed

theorem runs_conserve_stock_witness:
  "\<exists>it. find_item 1 (db (snd (serve_all sample_env
      [(True, \<lparr>req_endpoint = PostOrderAction 5 ConfirmAction, req_api_key = Some ''k1''\<rparr>),
       (True, \<lparr>req_endpoint = PostOrderAction 5 CancelAction, req_api_key = Some ''k1''\<rparr>)] (sample_world 4)))) = Some it \<and>
     0 \<le> stock_quantity it"
proof -
  let ?qs = "[(True, \<lparr>req_endpoint = PostOrderAction 5 ConfirmAction, req_api_key = Some ''k1''\<rparr>),
       (True, \<lparr>req_endpoint = PostOrderAction 5 CancelAction, req_api_key = Some ''k1''\<rparr>)]"
  have "evolves (sample_tables 4) (db (snd (serve_all sample_env ?qs (sample_world 4))))"
    using served(2) [of sample_env "sample_world 4" ?qs] consistent_sample [of 4]
    by (simp add: serving_def consistent_def del: serve_all.simps)
  then obtain it where "find_item 1 (db (snd (serve_all sample_env ?qs (sample_world 4)))) = Some it"
    unfolding evolves_def by (auto dest!: spec [of _ 1])
  with runs_conserve_stock [of sample_env "sample_world 4", OF _ _ _ prod.collapse [symmetric] this]
    consistent_sample [of 4] show ?thesis by (auto simp: consistent_def simp del: serve_all.simps)
qed

text \<open>
  C3. How rows change over a run: an item keeps its name, price and threshold and its version
  does not go down; an order keeps its item, quantity and customer, moves along the state
  machine with one version per transition, and never disappears; movements are only appended.
\<close>

theorem runs_evolve:
  assumes "cache_ok env (get_cache env)" and "audit_ok (db w)"
    and "cache_coherent (get_cache env) (db w) (redis w)"
    and "serve_all env requests w = (responses, w')"
  shows "(\<forall>i it. find_item i (db w) = Some it \<longrightarrow>
        (\<exists>it'. find_item i (db w') = Some it' \<and> item_evolves it it')) \<and>
    (\<forall>i r. find_order i (db w) = Some r \<longrightarrow>
        (\<exists>r'. find_order i (db w') = Some r' \<and> order_evolves r r')) \<and>
    (\<exists>ms. stock_movements (db w') = stock_movements (db w) @ ms)"
  using served(2) [of env w requests] assms unfolding evolves_def
  by (simp add: serving_def consistent_def)

theorem runs_evolve_witness:
  "\<exists>ms. stock_movements (db (snd (serve_all sample_env
     [(True, \<lparr>req_endpoint = PostOrderAction 5 ConfirmAction, req_api_key = Some ''k1''\<rparr>)]
     (sample_world 4)))) = sample_movement # ms"
  using runs_evolve [of sample_env "sample_world 4", OF _ _ _ prod.collapse [symmetric]]
    consistent_sample [of 4] by (simp add: consistent_def del: serve_all.simps)

text \<open>
  In such a run no request is answered 409: without concurrent transactions the optimistic
  check never fails, and a duplicate item name, which the endpoint maps to 409, is answered
  500, because the commit after the \<open>HTTPException\<close> fails on the session whose flush failed.
\<close>

theorem runs_never_conflict:
  assumes "cache_ok env (get_cache env)" and "audit_ok (db w)"
    and "cache_coherent (get_cache env) (db w) (redis w)"
    and "response \<in> set (fst (serve_all env requests w))"
  shows "resp_status response \<noteq> 409"
  using served(3) [of env w requests] assms by (simp add: serving_def consistent_def)

theorem runs_never_conflict_witness:
  "\<exists>response. fst (serve_all sample_env
     [(True, \<lparr>req_endpoint = GetHealth, req_api_key = None\<rparr>)] (sample_world 4)) = [response] \<and>
     resp_status response \<noteq> 409"
  using runs_never_conflict [of sample_env "sample_world 4"
      "fst (serve sample_env True \<lparr>req_endpoint = GetHealth, req_api_key = None\<rparr> (sample_world 4))"
      "[(True, \<lparr>req_endpoint = GetHealth, req_api_key = None\<rparr>)]"] consistent_sample [of 4]
  by (simp add: consistent_def serve_step_def case_prod_beta)

text \<open>
  C19. A duplicate name is answered 500 and not the 409 that \<open>create_item\<close> maps it to, and
  nothing is created.
\<close>

theorem duplicate_name_answers_500:
  assumes "item_create_valid b"
    and "item_types_ok (new_item env (ic_name b) (price_cents b) (ic_stock_quantity b) (ic_description b)
           (ic_low_stock_threshold b) w)"
    and "ic_name b \<in> item_name ` set (menu_items (db w))"
    and "server_error (router_app env lim) \<lparr>req_endpoint = PostItem b, req_api_key = key\<rparr> w = (response, w')"
  shows "resp_status response = 500 \<and> db w' = db w"
proof -
  let ?it = "new_item env (ic_name b) (price_cents b) (ic_stock_quantity b) (ic_description b) (ic_low_stock_threshold b) (open_session w)"
  have it: "?it = new_item env (ic_name b) (price_cents b) (ic_stock_quantity b) (ic_description b) (ic_low_stock_threshold b) w"
    by (simp add: new_item_def)
  have f: "statement_fault (db w) (InsertItem ?it) = Some IntegrityError"
    using assms(2,3) unfolding it by (simp add: statement_fault.simps)
  let ?h = "api_create_item env b" and ?w1 = "tick (tick (tick (break_session (open_session w))))"
  let ?e = "create_error (ic_name b) IntegrityError"
  have "wp ?h (\<lambda>r w1. r = Inl ?e \<and> w1 = ?w1) (open_session w)"
    using assms(1) f
    by (simp add: api_create_item_def validated_def wp_as_body wp_mapped
        wp_create_item [OF open_session_simps(2,3) refl refl])
  then have h: "?h (open_session w) = (Inl ?e, ?w1)" by (rule wp_eqI)
  have "wp (get_db env ?h) (\<lambda>r w2. r = Inl PendingRollbackError \<and> db w2 = db w) w"
    by (simp add: wp_get_db wp_rules wp_result [of ?h] h)
  then show ?thesis
    using assms(4) h
    by (auto simp: server_error_def router_app_def wp_def json_response_def split: prod.splits)
qed


theorem duplicate_name_answers_500_witness:
  "resp_status (fst (server_error (router_app sample_env True)
      \<lparr>req_endpoint = PostItem (item_create_body ''Burger'' None (Dec 500 (-2)) 1 None), req_api_key = None\<rparr>
      (sample_world 4))) = 500"
  using duplicate_name_answers_500 [of "item_create_body ''Burger'' None (Dec 500 (-2)) 1 None" sample_env
      "sample_world 4" True None, OF _ _ _ prod.collapse [symmetric]]
  by (simp add: item_create_valid_def item_create_body_def dec_cents_def item_types_ok_def price_cents_def
      int4_def)

section \<open>Reads\<close>

text \<open>What a handler has done to the database when it has only read: nothing to commit.\<close>

definition untouched :: "'r world \<Rightarrow> 'r world \<Rightarrow> bool" where
  "untouched w w' \<longleftrightarrow> db w' = db w \<and> executed (sess w') = executed (sess w) \<and>
     (broken (sess w') = broken (sess w)) \<and> quiet (pending (sess w'))"

lemma executed_tick [simp]: "executed (sess (tick w)) = executed (sess w)"
  by (simp add: tick_def)

lemma untouched_ticks: "quiet (pending (sess w)) \<Longrightarrow> untouched w ((tick ^^ n) w)"
  by (induction n) (simp_all add: untouched_def)

lemma wp_state_only:
  "wp (as_body f m) (\<lambda>_. P) w = wp m (\<lambda>_. P) w"
  "wp (mapped g m') (\<lambda>_. P) w = wp m' (\<lambda>_. P) w"
  by (simp_all add: as_body_def mapped_def and_then_def catching_def raise_exn_def done_with_def wp_def
      split: prod.split sum.split)

lemma reads_only_untouched:
  assumes "reads_only m" and "quiet (pending (sess w))"
  shows "wp m (\<lambda>_. untouched w) w"
proof -
  from assms(1) obtain n where "snd (m w) = (tick ^^ n) w" by (auto simp: reads_only_def)
  with untouched_ticks [OF assms(2)] show ?thesis by (simp add: wp_result)
qed

lemma get_stock_untouched:
  assumes "ready env cache w"
  shows "wp (get_stock cache iid) (\<lambda>_. untouched w) w"
proof -
  note rd = readyD [OF assms]
  have q: "stock_quantity it = q"
    if "find_item iid (db w) = Some it" "cached cache iid (redis w) = Some q" for it q
    using rd(6) that by (fastforce simp: cache_coherent_def stock_of_def)
  show ?thesis
    unfolding wp_get_stock [OF rd(2)] Let_def rd(4)
    using rd(2,3) by (auto simp: untouched_def patch_of_def set_pending_def dest: q split: option.split)
qed

lemma read_handler_untouched:
  assumes "ready env (get_cache env) w" and "\<not> writes e"
  shows "wp (handler env lim e) (\<lambda>_. untouched w) w"
proof -
  have q: "quiet (pending (sess w))" using readyD(3) [OF assms(1)] by simp
  have u: "untouched w w" using q by (simp add: untouched_def)
  note reads = reads_only_untouched [OF _ q]
  show ?thesis
  proof (cases e)
    case (GetStock i)
    then show ?thesis
      using get_stock_untouched [OF assms(1)] u
      by (simp add: api_get_stock_def wp_raise_exn wp_state_only)
  next
    case (GetAnalyticsSummary d)
    then show ?thesis
      using u by (simp add: api_analytics_summary_def validated_def wp_raise_exn)
        (intro impI reads reads_only_summary)
  qed (use assms(2) u in \<open>simp_all add: handler_defs validated_def wp_state_only wp_raise_exn wp_done_with
          reads reads_only_services analytics_reads_only\<close>)
qed

lemma get_db_untouched:
  assumes "wp h (\<lambda>_. untouched (open_session w)) (open_session w)"
  shows "db (snd (get_db env h w)) = db w"
proof -
  obtain r w1 where h: "h (open_session w) = (r, w1)" by fastforce
  with assms have u: "untouched (open_session w) w1" by (simp add: wp_def)
  then have v: "view w1 = db w" by (simp add: untouched_def view_def fresh_session_def)
  have "wp (get_db env h) (\<lambda>_ w'. db w' = db w) w"
    using u v
    by (cases r) (auto simp: wp_get_db wp_rules wp_result [of h] h untouched_def wp_flush_quiet)
  then show ?thesis by (simp add: wp_result)
qed

lemma serve_read_untouched:
  assumes "cache_ok env (get_cache env)" and "audit_ok (db w)"
    and "cache_coherent (get_cache env) (db w) (redis w)"
    and "req_method request = ''GET''"
  shows "db (snd (serve env lim request w)) = db w"
proof -
  have nw: "\<not> writes (req_endpoint request)"
    using assms(4) by (simp add: writes_method req_method_def write_methods_def)
  let ?app = "dispatch (require_auth (env_settings env)) (valid_api_keys (env_settings env)) (router_app env lim)"
  have app: "?app request = router_app env lim request"
    using assms(4) by (simp add: dispatch_def)
  have "ready env (get_cache env) (open_session (tick w))"
    using assms(1-3) by (intro ready_open) (simp_all add: consistent_def)
  from get_db_untouched [OF read_handler_untouched [OF this nw]]
  have "db (snd (router_app env lim request (tick w))) = db w"
    by (simp add: router_app_def Let_def case_prod_beta)
  then show ?thesis
    by (cases "fst (router_app env lim request (tick w))"; cases "router_app env lim request (tick w)")
       (simp_all add: serve_def server_error_def logging_middleware_def and_then_def uuid4_def done_with_def
          tick_def [symmetric] app)
qed

text \<open>
  C25. Reads leave the database alone: from a state where the cache agrees with the database, no
  GET request, not even the cache-first read of the stock, which assigns to a row of its
  session, changes any row.
\<close>

theorem reads_change_nothing:
  assumes "cache_ok env (get_cache env)" and "audit_ok (db w)"
    and "cache_coherent (get_cache env) (db w) (redis w)"
    and "req_method request = ''GET''"
  shows "db (snd (serve env lim request w)) = db w"
  using assms by (rule serve_read_untouched)

theorem reads_change_nothing_witness:
  "db (snd (serve sample_env True \<lparr>req_endpoint = GetStock 1, req_api_key = None\<rparr> (sample_world 4))) =
   sample_tables 4"
  using reads_change_nothing [of sample_env "sample_world 4"
      "\<lparr>req_endpoint = GetStock 1, req_api_key = None\<rparr>" True] consistent_sample [of 4]
  by (simp add: consistent_def req_method_def)

section \<open>The API-key guard\<close>

text \<open>
  C26. With authentication on, a request that writes and carries no configured key is answered
  401 (no key) or 403 (another key) and changes nothing: no row, no cache entry.
\<close>

theorem guard_refuses_writes:
  assumes "require_auth (env_settings env)" and "writes (req_endpoint request)"
    and "\<And>key. req_api_key request = Some key \<Longrightarrow> key \<notin> valid_api_keys (env_settings env)"
    and "serve env lim request w = (response, w')"
  shows "resp_status response = (if req_api_key request = None \<or> req_api_key request = Some [] then 401 else 403) \<and>
    db w' = db w \<and> redis w' = redis w"
proof -
  have m: "req_method request \<in> write_methods" "req_method request \<noteq> ''GET''"
    using assms(2) by (auto simp: writes_method req_method_def write_methods_def)
  have p: "\<not> list_ex (\<lambda>p. py_startswith (req_path request) p) public_prefixes"
    using writes_not_public [OF assms(2)] by (simp add: req_path_def)
  show ?thesis
    using assms(1,3,4) m p
    by (cases "req_api_key request")
       (auto simp: serve_def server_error_def logging_middleware_def dispatch_def and_then_def uuid4_def
          done_with_def json_response_def split: if_splits)
qed

theorem guard_refuses_writes_witness:
  "resp_status (fst (serve sample_env True
     \<lparr>req_endpoint = PostOrderAction 5 ConfirmAction, req_api_key = Some ''k2''\<rparr> (sample_world 4))) = 403"
  using guard_refuses_writes [of sample_env
      "\<lparr>req_endpoint = PostOrderAction 5 ConfirmAction, req_api_key = Some ''k2''\<rparr>" True "sample_world 4",
      OF _ _ _ prod.collapse [symmetric]]
  by simp

text \<open>
  The guard is transparent for every other request: a read, or a write with a configured
  key, is answered as it would be with authentication off.
\<close>

theorem guard_passes_others:
  assumes "\<not> writes (req_endpoint request) \<or>
    (\<exists>key. req_api_key request = Some key \<and> key \<in> valid_api_keys (env_settings env))"
  shows "dispatch (require_auth (env_settings env)) (valid_api_keys (env_settings env)) app request = app request"
proof (cases "writes (req_endpoint request)")
  case True
  with assms obtain key where "req_api_key request = Some key" "key \<in> valid_api_keys (env_settings env)" by blast
  moreover have "[] \<notin> valid_api_keys (env_settings env)"
    by (auto simp: valid_api_keys_def)
  ultimately show ?thesis by (auto simp: dispatch_def)
next
  case False
  then have "req_method request = ''GET''"
    by (cases "req_endpoint request") (simp_all add: req_method_def)
  then show ?thesis by (simp add: dispatch_def)
qed

theorem guard_passes_others_witness:
  "dispatch (require_auth (env_settings sample_env)) (valid_api_keys (env_settings sample_env))
     (router_app sample_env True) \<lparr>req_endpoint = GetItems, req_api_key = None\<rparr> =
   router_app sample_env True \<lparr>req_endpoint = GetItems, req_api_key = None\<rparr>"
  by (rule guard_passes_others) simp

end
