(* ===== verification/Item_Properties.thy ===== *)
theory Item_Properties
  imports Run_Properties
begin

text \<open>
  The properties of the item, stock and order endpoints outside confirmation and cancellation:
  creation, placement, adjustment, refused transitions, the stock read, the order detail and
  the date filter.
\<close>

section \<open>Creation, placement, adjustment\<close>

lemma find_item_insert_movement:
  assumes "statement_fault t (InsertItem it) = None"
  shows "find_item i (apply_statement (InsertMovement m) (apply_statement (InsertItem it) t)) =
    (if i = item_id it then Some it else find_item i t)"
  using find_item_inserted [OF assms] by (auto simp: table_simps split: option.split)

text \<open>Values that fit, a free name and new identifiers: no statement of a creation fails.\<close>

definition item_of_body :: "'r env \<Rightarrow> ItemCreate \<Rightarrow> 'r world \<Rightarrow> menu_item" where
  "item_of_body env b w =
     new_item env (ic_name b) (price_cents b) (ic_stock_quantity b) (ic_description b) (ic_low_stock_threshold b) w"

lemma create_accepted:
  assumes "item_create_valid b" and "ic_name b \<notin> item_name ` set (menu_items t)"
    and "ic_stock_quantity b < 2 ^ 31" and "ic_low_stock_threshold b < 2 ^ 31" and "price_cents b < 10 ^ 10"
    and "env_uuid4 env (calls w) \<notin> item_id ` set (menu_items t)"
    and "env_uuid4 env (calls w + 3) \<notin> mv_id ` set (stock_movements t)"
  shows "statement_fault t (InsertItem (item_of_body env b w)) = None"
    and "statement_fault (apply_statement (InsertItem (item_of_body env b w)) t)
      (InsertMovement (first_movement env (item_of_body env b w) w)) = None"
proof -
  let ?it = "item_of_body env b w"
  have valid: "length (ic_name b) \<le> 255" "0 < price_cents b" "0 \<le> ic_stock_quantity b"
      "0 \<le> ic_low_stock_threshold b"
    using assms(1) dec_cents_pos [of "ic_price b"]
    by (auto simp: item_create_valid_def price_cents_def split: option.splits)
  show f1: "statement_fault t (InsertItem ?it) = None"
    using valid assms(2-6)
    by (simp add: statement_fault.simps item_types_ok_def item_checks_ok_def int4_def item_of_body_def)
  show "statement_fault (apply_statement (InsertItem ?it) t) (InsertMovement (first_movement env ?it w)) = None"
    using valid assms(3,7) find_item_inserted [OF f1]
    by (simp add: statement_fault.simps table_simps first_movement_def stock_movement_init_def
        movement_types_ok_def int4_def item_of_body_def)
qed

lemma place_accepted:
  assumes "order_create_valid b" and "oc_quantity b < 2 ^ 31" and "find_item (oc_item_id b) t = Some it"
    and "env_uuid4 env (calls w) \<notin> order_id ` set (order_rows t)"
  shows "statement_fault t (InsertOrder (new_order env (oc_item_id b) (oc_quantity b) (oc_customer_ref b) w)) = None"
  using assms
  by (auto simp: statement_fault.simps order_create_valid_def order_types_ok_def order_checks_ok_def int4_def)

text \<open>
  C18. Creating an item with a valid body, a free name and values that fit the columns: the
  response is the new item with the fields of the body and version 1, the item is committed,
  and one ADJUSTMENT movement from zero to that stock is appended; the other items stay.
\<close>

theorem create_item_creates:
  assumes "item_create_valid b" and "ic_name b \<notin> item_name ` set (menu_items (db w))"
    and "ic_stock_quantity b < 2 ^ 31" and "ic_low_stock_threshold b < 2 ^ 31" and "price_cents b < 10 ^ 10"
    and "env_uuid4 env (calls w) \<notin> item_id ` set (menu_items (db w))"
    and "env_uuid4 env (calls w + 3) \<notin> mv_id ` set (stock_movements (db w))"
    and "get_db env (api_create_item env b) w = (res, w')"
  shows "\<exists>it m. res = Inr (ItemBody (item_response it)) \<and>
    item_name it = ic_name b \<and> item_price it = price_cents b \<and> stock_quantity it = ic_stock_quantity b \<and>
    low_stock_threshold it = ic_low_stock_threshold b \<and> item_description it = ic_description b \<and>
    item_version it = 1 \<and>
    (\<forall>i. find_item i (db w') = (if i = item_id it then Some it else find_item i (db w))) \<and>
    stock_movements (db w') = stock_movements (db w) @ [m] \<and>
    records_change (it\<lparr>stock_quantity := 0\<rparr>) (stock_quantity it) None ADJUSTMENT m"
proof -
  let ?it = "new_item env (ic_name b) (price_cents b) (ic_stock_quantity b) (ic_description b)
      (ic_low_stock_threshold b) (open_session w)"
  let ?m = "first_movement env ?it (open_session w)"
  have f1: "statement_fault (db w) (InsertItem ?it) = None"
    and f2: "statement_fault (apply_statement (InsertItem ?it) (db w)) (InsertMovement ?m) = None"
    using create_accepted [of b "db w" env "open_session w"] assms(1-7) by (simp_all add: item_of_body_def)
  obtain w1 where w1: "api_create_item env b (open_session w) = (Inr (ItemBody (item_response ?it)), w1)"
      "view w1 = apply_statement (InsertMovement ?m) (apply_statement (InsertItem ?it) (db w))"
      "\<not> broken (sess w1)" "pending (sess w1) = []"
  proof -
    have "wp (api_create_item env b) (\<lambda>r w1. r = Inr (ItemBody (item_response ?it)) \<and>
        view w1 = apply_statement (InsertMovement ?m) (apply_statement (InsertItem ?it) (db w)) \<and>
        \<not> broken (sess w1) \<and> pending (sess w1) = []) (open_session w)"
      using assms(1) f1 f2
      by (simp add: api_create_item_def validated_def wp_as_body wp_mapped
          wp_create_item [OF open_session_simps(2,3) refl refl])
    then show thesis using that by (auto simp: wp_def split: prod.splits)
  qed
  from committed_result [OF assms(8) w1(1) _ w1(3,4)] w1(2)
  have res: "res = Inr (ItemBody (item_response ?it))"
      "db w' = apply_statement (InsertMovement ?m) (apply_statement (InsertItem ?it) (db w))"
    by (simp_all add: committing_def)
  show ?thesis
    using res find_item_insert_movement [OF f1, of _ ?m] records_first_movement [of ?it env "open_session w"]
    by (intro exI [of _ ?it] exI [of _ ?m]) (simp add: table_simps)
qed

theorem create_item_creates_witness:
  "\<exists>it. fst (get_db sample_env (api_create_item sample_env (item_create_body ''Salad'' None (Dec 5 0) 7 (Some 2)))
      (sample_world 4)) = Inr (ItemBody (item_response it)) \<and> item_price it = 500 \<and> stock_quantity it = 7"
  using create_item_creates [of "item_create_body ''Salad'' None (Dec 5 0) 7 (Some 2)" "sample_world 4" sample_env,
      OF _ _ _ _ _ _ _ prod.collapse [symmetric]]
  by (auto simp: item_create_valid_def item_create_body_def dec_cents_def price_cents_def)

text \<open>
  Placing an order for an item that exists: the response is the order, PENDING with version
  1, and the order is all that is added; the stock is not touched until the confirmation.
\<close>

theorem place_order_places:
  assumes "order_create_valid b" and "oc_quantity b < 2 ^ 31"
    and "find_item (oc_item_id b) (db w) = Some it"
    and "env_uuid4 env (calls w) \<notin> order_id ` set (order_rows (db w))"
    and "get_db env (api_place_order env b) w = (res, w')"
  shows "\<exists>r. res = Inr (OrderBody (order_response r)) \<and> status r = PENDING \<and> order_version r = 1 \<and>
    quantity r = oc_quantity b \<and> order_item_id r = oc_item_id b \<and> customer_ref r = oc_customer_ref b \<and>
    order_rows (db w') = order_rows (db w) @ [r] \<and> stock_unchanged (db w) (db w')"
proof -
  let ?r = "new_order env (oc_item_id b) (oc_quantity b) (oc_customer_ref b) (open_session w)"
  have f: "statement_fault (db w) (InsertOrder ?r) = None"
    using place_accepted [of b "db w" it env "open_session w"] assms(1-4) by simp
  let ?w1 = "tick (tick (tick (log_statement (InsertOrder ?r) (open_session w))))"
  have i: "find_item (oc_item_id b) (view (open_session w)) = Some it" using assms(3) by simp
  have "wp (api_place_order env b) (\<lambda>r w1. r = Inr (OrderBody (order_response ?r)) \<and> w1 = ?w1) (open_session w)"
    using assms(1) f
    by (simp add: api_place_order_def validated_def wp_as_body wp_mapped
        wp_place_order [OF open_session_simps(2,3) i refl])
  then have h: "api_place_order env b (open_session w) = (Inr (OrderBody (order_response ?r)), ?w1)"
    by (rule wp_eqI)
  from committed_result [OF assms(5) h]
  have "res = Inr (OrderBody (order_response ?r))" "db w' = apply_statement (InsertOrder ?r) (db w)"
    by (simp_all add: committing_def)
  then show ?thesis
    by (intro exI [of _ ?r]) (simp add: table_simps stock_unchanged_def)
qed

theorem place_order_places_witness:
  "\<exists>r. order_rows (db (snd (get_db sample_env (api_place_order sample_env
      \<lparr>oc_item_id = 1, oc_quantity = 3, oc_customer_ref = None\<rparr>) (sample_world 4)))) = [sample_order 4, r] \<and>
    status r = PENDING \<and> quantity r = 3"
  using place_order_places [of "\<lparr>oc_item_id = 1, oc_quantity = 3, oc_customer_ref = None\<rparr>" "sample_world 4"
      sample_item sample_env, OF _ _ _ _ prod.collapse [symmetric]]
  by (auto simp: order_create_valid_def)

lemma adjust_commits:
  assumes "audit_ok (db w)" and "find_item iid (db w) = Some it" and "item_stock_adjust_valid b"
    and "0 \<le> stock_quantity it + sa_delta b" and "stock_quantity it + sa_delta b < 2 ^ 31"
    and "item_version it + 1 < 2 ^ 31"
    and "env_uuid4 env (Suc (calls w)) \<notin> mv_id ` set (stock_movements (db w))"
    and "get_db env (api_adjust_stock env iid b) w = (res, w')"
  shows "(\<exists>it'. res = Inr (ItemBody (item_response it')) \<and> stock_quantity it' = stock_quantity it + sa_delta b) \<and>
    stock_change_recorded (db w) (db w') it (sa_delta b) None ADJUSTMENT \<and>
    reason (last (stock_movements (db w'))) = Some (sa_reason b) \<and> order_rows (db w') = order_rows (db w)"
proof -
  have i: "item_id it = iid" using assms(2) by (rule found_item_id)
  let ?new = "adjustment it (sa_delta b) (sa_reason b)"
  let ?it' = "(changed_item it (sa_delta b))\<lparr>item_updated_at := env_utc_now env (calls w)\<rparr>"
  let ?w1 = "stock_changed env (get_cache env) it (sa_delta b) ?new (open_session w)"
  have "change_fault env it (sa_delta b) ?new (open_session w) = None"
    by (rule change_accepted [where oid = None and kind = ADJUSTMENT])
       (use assms i in \<open>simp_all add: audit_okD(1) adjustment_def change_record_def stock_movement_init_def records_change_def\<close>)
  then have "api_adjust_stock env iid b (open_session w) = (Inr (ItemBody (item_response ?it')), ?w1)"
    using adjust_stock_adjusts [of iid "open_session w" it "sa_delta b" env "sa_reason b" "get_cache env"]
      assms(2-4)
    by (simp add: api_adjust_stock_def validated_def as_body_def mapped_def and_then_def catching_def done_with_def)
  from committed_result [OF assms(8) this]
  have res: "res = Inr (ItemBody (item_response ?it'))" "db w' = view ?w1"
    by (simp_all add: committing_def)
  have item: "find_item (item_id it) (db w) = Some it" using assms(2) i by simp
  have "stock_change_recorded (db w) (db w') it (sa_delta b) None ADJUSTMENT"
    using stock_change_recorded_move(1) [OF item, of "sa_delta b" None ADJUSTMENT]
    unfolding res(2) by (simp add: view_stock_changed adjustment_def)
  moreover have "reason (last (stock_movements (db w'))) = Some (sa_reason b)"
    unfolding res(2) by (simp add: view_stock_changed table_simps adjustment_def change_record_def
        stock_movement_init_def)
  moreover have "order_rows (db w') = order_rows (db w)"
    unfolding res(2) by (simp add: view_stock_changed table_simps stock_update_def)
  ultimately show ?thesis using res(1) by auto
qed

text \<open>
  C17. An adjustment of the stock: a result below zero is answered 422 with nothing changed, and
  otherwise exactly the delta is recorded, on the row and by one ADJUSTMENT movement that
  carries the given reason.
\<close>

theorem adjust_stock_adjusts_row:
  assumes "audit_ok (db w)" and "find_item iid (db w) = Some it" and "item_stock_adjust_valid b"
    and "stock_quantity it + sa_delta b < 2 ^ 31" and "item_version it + 1 < 2 ^ 31"
    and "env_uuid4 env (Suc (calls w)) \<notin> mv_id ` set (stock_movements (db w))"
    and "get_db env (api_adjust_stock env iid b) w = (res, w')"
  shows "if stock_quantity it + sa_delta b < 0
    then res = Inl (HTTPException 422
           (exn_message (InsufficientStockError iid \<bar>sa_delta b\<bar> (stock_quantity it)))) \<and> db w' = db w
    else (\<exists>it'. res = Inr (ItemBody (item_response it')) \<and> stock_quantity it' = stock_quantity it + sa_delta b) \<and>
      stock_change_recorded (db w) (db w') it (sa_delta b) None ADJUSTMENT \<and>
      reason (last (stock_movements (db w'))) = Some (sa_reason b) \<and> order_rows (db w') = order_rows (db w)"
proof (cases "stock_quantity it + sa_delta b < 0")
  case True
  then have "api_adjust_stock env iid b (open_session w) = (Inl (HTTPException 422
      (exn_message (InsufficientStockError iid \<bar>sa_delta b\<bar> (stock_quantity it)))), open_session w)"
    using adjust_stock_insufficient [of iid "open_session w" it "sa_delta b"] assms(2,3)
    by (simp add: api_adjust_stock_def validated_def as_body_def mapped_def and_then_def catching_def raise_exn_def)
  from committed_result [OF assms(7) this] True show ?thesis by (simp add: committing_def)
next
  case False
  with adjust_commits [OF assms(1-3) _ assms(4-7)] show ?thesis by auto
qed

theorem adjust_stock_adjusts_row_witness:
  "fst (get_db sample_env (api_adjust_stock sample_env 1 \<lparr>sa_delta = - 11, sa_reason = ''lost''\<rparr>) (sample_world 4)) =
     Inl (HTTPException 422 (exn_message (InsufficientStockError 1 11 10))) \<and>
   stock_of (db (snd (get_db sample_env (api_adjust_stock sample_env 1 \<lparr>sa_delta = 5, sa_reason = ''found''\<rparr>)
     (sample_world 4)))) 1 = Some 15"
  using adjust_stock_adjusts_row [of "sample_world 4" 1 sample_item "\<lparr>sa_delta = - 11, sa_reason = ''lost''\<rparr>" sample_env,
      OF _ _ _ _ _ _ prod.collapse [symmetric]]
    adjust_stock_adjusts_row [of "sample_world 4" 1 sample_item "\<lparr>sa_delta = 5, sa_reason = ''found''\<rparr>" sample_env,
      OF _ _ _ _ _ _ prod.collapse [symmetric]] audit_ok_sample [of 4]
  by (auto simp: item_stock_adjust_valid_def dest!: stock_change_recordedD(1) [where i = 1])

section \<open>Transitions that are refused\<close>

lemma service_method_missing:
  assumes "find_order oid (view w) = None" and "\<not> broken (sess w)"
  shows "service_method env cache action oid w = (Inl (NotFoundError ''Order'' oid), w)"
  using confirm_order_missing [OF assms] transition_missing [OF assms] cancel_order_missing [OF assms]
  by (cases action) (simp_all only: service_method.simps ship_order_def deliver_order_def)

lemma service_method_refuses:
  assumes "find_order oid (view w) = Some r" and "\<not> broken (sess w)"
    and "\<not> can_transition_to (status r) (action_target action)"
  shows "service_method env cache action oid w =
    (Inl (InvalidTransitionError (status r) (action_target action)), w)"
proof (cases action)
  case ConfirmAction
  with assms(3) have "status r \<noteq> PENDING" by auto
  from confirm_order_invalid [OF assms(1,2) this] show ?thesis
    by (simp only: ConfirmAction service_method.simps action_target.simps)
next
  case CancelAction
  from assms(3) have "\<not> can_transition_to (status r) CANCELLED"
    by (simp only: CancelAction action_target.simps not_False_eq_True)
  from cancel_order_invalid [OF assms(1,2) this] show ?thesis
    by (simp only: CancelAction service_method.simps action_target.simps)
qed (use transition_invalid [OF assms] in \<open>simp_all only: service_method.simps action_target.simps
      ship_order_def deliver_order_def\<close>)

text \<open>
  Every action on an order that does not exist is answered 404, every action that the state
  machine does not allow is answered 422 with the message of \<open>InvalidTransitionError\<close>; both
  change no row and no cache entry. In particular nothing leaves a terminal state.
\<close>

theorem refused_actions:
  assumes "get_db env (transition_router env action oid) w = (res, w')"
    and "case find_order oid (db w) of None \<Rightarrow> True
         | Some r \<Rightarrow> \<not> can_transition_to (status r) (action_target action)"
  shows "res = (case find_order oid (db w) of
        None \<Rightarrow> Inl (HTTPException 404 (exn_message (NotFoundError ''Order'' oid)))
      | Some r \<Rightarrow> Inl (HTTPException 422 (exn_message (InvalidTransitionError (status r) (action_target action))))) \<and>
    db w' = db w \<and> redis w' = redis w"
proof (cases "find_order oid (db w)")
  case None
  then have "transition_router env action oid (open_session w) =
      (Inl (HTTPException 404 (exn_message (NotFoundError ''Order'' oid))), open_session w)"
    using service_method_missing [of oid "open_session w" env "get_cache env" action]
    by (simp add: transition_router_raises)
  from committed_result [OF assms(1) this] None show ?thesis by (simp add: committing_def)
next
  case (Some r)
  with assms(2) have "transition_router env action oid (open_session w) =
      (Inl (HTTPException 422 (exn_message (InvalidTransitionError (status r) (action_target action)))), open_session w)"
    using service_method_refuses [of oid "open_session w" r action env "get_cache env"]
    by (simp add: transition_router_raises)
  from committed_result [OF assms(1) this] Some show ?thesis by (simp add: committing_def)
qed

theorem refused_actions_witness:
  "fst (get_db sample_env (transition_router sample_env ShipAction 5) (sample_world 4)) =
     Inl (HTTPException 422 (exn_message (InvalidTransitionError PENDING SHIPPED))) \<and>
   db (snd (get_db sample_env (transition_router sample_env ShipAction 5) (sample_world 4))) = sample_tables 4"
  using refused_actions [OF prod.collapse [symmetric], where oid = 5 and w = "sample_world 4" and action = ShipAction
      and env = sample_env] by simp

text \<open>
  Shipping a confirmed and delivering a shipped order moves only the order: the response is
  the order in its next status with its next version, and no stock and no movement changes.
\<close>

theorem ship_and_deliver:
  assumes "audit_ok (db w)" and "find_order oid (db w) = Some r"
    and "action = ShipAction \<and> status r = CONFIRMED \<or> action = DeliverAction \<and> status r = SHIPPED"
    and "get_db env (transition_router env action oid) w = (res, w')"
  shows "\<exists>r'. res = Inr (OrderBody (order_response r')) \<and>
    order_moved (db w) (db w') oid r (action_target action) r' \<and> stock_unchanged (db w) (db w')"
proof -
  let ?now = "env_utc_now env (calls w)" and ?st = "action_target action"
  let ?w1 = "tick (log_statement (UpdateOrder oid ?st (order_version r + 1) ?now) (open_session w))"
  obtain t: "trail_for (status r) (quantity r) (order_version r) (order_trail oid (db w))"
    by (rule audit_find [OF assms(1,2)])
  have "service_method env (get_cache env) action oid (open_session w) = (Inr (Some (moved_order ?st ?now r)), ?w1)"
    using assms(2,3) trail_for_version [OF t] transition_moves [of oid "open_session w" r ?st env]
    by (auto simp: ship_order_def deliver_order_def)
  then have "transition_router env action oid (open_session w) =
      (Inr (OrderBody (order_response (moved_order ?st ?now r))), ?w1)"
    by (rule transition_router_returns)
  from committed_result [OF assms(4) this]
  have res: "res = Inr (OrderBody (order_response (moved_order ?st ?now r)))" "db w' = view ?w1"
    by (simp_all add: committing_def)
  have "order_moved (db w) (db w') oid r ?st (moved_order ?st ?now r)"
    using assms(2,3) unfolding res(2) by (auto intro!: order_moved_update)
  with res show ?thesis by (auto simp: stock_unchanged_update)
qed

theorem ship_and_deliver_witness:
  "\<exists>r'. fst (get_db sample_env (transition_router sample_env ShipAction 5) confirmed_world) =
      Inr (OrderBody (order_response r')) \<and> status r' = SHIPPED \<and> order_version r' = 3"
  using ship_and_deliver [OF _ _ _ prod.collapse [symmetric], of confirmed_world 5 confirmed_order ShipAction sample_env]
    audit_ok_confirmed by (auto simp: order_moved_def)

end
