(* ===== verification/Report_Properties.thy ===== *)
theory Report_Properties
  imports Item_Properties
begin

text \<open>
  The properties of the reads: the stock read and its cache, the order detail, the date filter
  of the order list, and the aggregates of the analytics service.
\<close>

section \<open>The stock read\<close>

text \<open>
  C21. From a state where the cache agrees with the database, the stock read answers the
  committed row, hit or miss: the cache never shows a stock that is not the row's.
\<close>

theorem stock_read_answers_row:
  assumes "cache_ok env (get_cache env)" and "audit_ok (db w)"
    and "cache_coherent (get_cache env) (db w) (redis w)" and "find_item iid (db w) = Some it"
    and "get_db env (api_get_stock env True iid) w = (res, w')"
  shows "res = Inr (StockBody (stock_response it)) \<and> db w' = db w \<and>
    cache_coherent (get_cache env) (db w') (redis w')"
proof -
  have rd: "ready env (get_cache env) (open_session w)"
    using assms(1-3) by (intro ready_open) (simp_all add: consistent_def)
  have q: "it\<lparr>stock_quantity := q\<rparr> = it" if "cached (get_cache env) iid (redis w) = Some q" for q
    using assms(3,4) that by (fastforce simp: cache_coherent_def stock_of_def)
  have u: "wp (api_get_stock env True iid) (\<lambda>_. untouched (open_session w)) (open_session w)"
    using read_handler_untouched [OF rd, of "GetStock iid" True] by simp
  have s: "wp (api_get_stock env True iid) (\<lambda>r _. r = Inr (StockBody (stock_response it))) (open_session w)"
    using q assms(4)
    by (auto simp: api_get_stock_def wp_as_body wp_mapped wp_get_stock Let_def split: option.split)
  have c: "wp (api_get_stock env True iid) (\<lambda>_ w1. redis w1 = after_get (get_cache env) iid (redis w)) (open_session w)"
    by (simp add: api_get_stock_def wp_state_only wp_get_stock Let_def split: option.split)
  obtain r w1 where h: "api_get_stock env True iid (open_session w) = (r, w1)" by fastforce
  with u s c have r: "r = Inr (StockBody (stock_response it))" "untouched (open_session w) w1"
      "redis w1 = after_get (get_cache env) iid (redis w)" by (simp_all add: wp_def)
  have "wp (get_db env (api_get_stock env True iid))
      (\<lambda>r' w2. r' = r \<and> redis w2 = redis w1) w"
    using r by (simp add: wp_get_db wp_rules wp_result [of "api_get_stock env True iid"] h untouched_def
        wp_flush_quiet)
  then have "res = r" "redis w' = redis w1" using assms(5) by (simp_all add: wp_def)
  moreover have "db w' = db w" using get_db_untouched [OF u, of env] assms(5) by simp
  ultimately show ?thesis using r(1,3) cache_coherent_get [OF assms(1,3)] by simp
qed

theorem stock_read_answers_row_witness:
  "fst (get_db sample_env (api_get_stock sample_env True 1) (sample_world 4)) =
     Inr (StockBody (stock_response sample_item))"
  using stock_read_answers_row [of sample_env "sample_world 4" 1 sample_item, OF _ _ _ _ prod.collapse [symmetric]]
    consistent_sample [of 4] by (simp add: consistent_def)

text \<open>
  C24. When the cache disagrees with the row, a GET writes: the cached quantity is assigned to the
  row of the session and the commit flushes it. The stock read of an item whose entry is stale
  overwrites the committed stock with the entry, with no movement recorded, so the ledger of
  that item is broken by a read.
\<close>

theorem stale_read_overwrites_stock:
  assumes "audit_ok (db w)" and "find_item iid (db w) = Some it"
    and "cached (get_cache env) iid (redis w) = Some q" and "q \<noteq> stock_quantity it"
    and "0 \<le> q" and "q < 2 ^ 31"
    and "get_db env (api_get_stock env True iid) w = (res, w')"
  shows "stock_of (db w') iid = Some q \<and> stock_movements (db w') = stock_movements (db w) \<and> \<not> ledger_ok (db w')"
proof -
  let ?it' = "it\<lparr>stock_quantity := q\<rparr>"
  let ?p = "patch_of it ?it'" and ?now = "env_utc_now env (calls w)"
  let ?u = "UpdateItem iid (Some q) None ?now"
  have i: "item_id it = iid" using assms(2) by (rule found_item_id)
  have p: "patch_id ?p = iid" "patch_stock ?p = Some q" "patch_version ?p = None"
    using i assms(4) by (simp_all add: patch_of_def)
  have ok: "item_types_ok it \<and> item_checks_ok it"
    using assms(1,2) by (intro schema_ok_item) (simp_all add: audit_ok_def)
  then have f: "statement_fault (db w) ?u = None"
    using assms(2,5,6)
    by (simp add: statement_fault.simps Let_def item_types_ok_def item_checks_ok_def set_item_columns_def int4_def
        abs_less_iff)
  have "wp (get_db env (api_get_stock env True iid))
      (\<lambda>r w2. db w2 = apply_statement ?u (db w)) w"
    using assms(2,3) f p
    by (simp add: wp_get_db wp_rules api_get_stock_def wp_as_body wp_mapped wp_get_stock Let_def
        wp_flush_Cons wp_flush_Nil)
  then have w': "db w' = apply_statement ?u (db w)" using assms(7) by (simp add: wp_def)
  have new: "find_item iid (db w') = Some (set_item_columns (Some q) None ?now it)"
    using assms(2) by (simp add: w' table_simps)
  have "replay 0 (item_movements iid (db w')) = Some (stock_quantity it)"
    using ledger_ok_find [of "db w" iid it] assms(1,2) by (simp add: w' table_simps audit_ok_def)
  then have "\<not> ledger_ok (db w')"
    using ledger_ok_find [OF _ new] assms(4) by auto
  moreover have "stock_of (db w') iid = Some q" using new by (simp add: stock_of_def)
  moreover have "stock_movements (db w') = stock_movements (db w)" by (simp add: w' table_simps)
  ultimately show ?thesis by blast
qed

theorem stale_read_overwrites_stock_witness:
  "stock_of (db (snd (get_db sample_env (api_get_stock sample_env True 1)
      ((sample_world 4)\<lparr>redis := [cache_key_stock 1 \<mapsto> py_str_int 12]\<rparr>)))) 1 = Some 12"
proof -
  have "cached (Some map_client) 1 [cache_key_stock 1 \<mapsto> py_str_int 12] = Some 12"
    using py_int_str_roundtrip [of 12] by (simp add: cached_def map_client_def)
  then show ?thesis
    using stale_read_overwrites_stock [of "(sample_world 4)\<lparr>redis := [cache_key_stock 1 \<mapsto> py_str_int 12]\<rparr>" 1
        sample_item sample_env 12, OF _ _ _ _ _ _ prod.collapse [symmetric]] audit_ok_sample [of 4]
    by simp
qed

section \<open>The order detail\<close>

lemma exponent_money: "exponent (money c) = - 2"
  by (simp add: money_def)

definition detail_of :: "order \<Rightarrow> menu_item \<Rightarrow> stock_movement list \<Rightarrow> order_detail" where
  "detail_of r it ms =
     \<lparr>od_id = order_id r, od_item_id = order_item_id r, od_item_name = item_name it,
      od_item_price = money (item_price it), od_quantity = quantity r,
      od_total_value = money (item_price it * quantity r), od_status = status r,
      od_customer_ref = customer_ref r, od_version = order_version r, od_created_at = order_created_at r,
      od_updated_at = order_updated_at r, od_movements = ms\<rparr>"

lemma order_detail_sum:
  assumes "schema_ok t" and "find_order oid t = Some r" and "find_item (order_item_id r) t = Some it"
  shows "dec_quantize2 (dec_mult (money (item_price it)) (dec_of_int (quantity r))) = Some (money (item_price it * quantity r))"
proof -
  have r: "0 < quantity r" "quantity r < 2 ^ 31"
    using schema_ok_order [OF assms(1,2)] by (simp_all add: order_types_ok_def order_checks_ok_def int4_def)
  have p: "0 < item_price it" "item_price it < 10 ^ 10"
    using schema_ok_item [OF assms(1,3)]
    by (simp_all add: item_types_ok_def item_checks_ok_def abs_less_iff)
  have "item_price it * quantity r < 10 ^ 10 * 2 ^ 31"
    using r p by (intro mult_strict_mono) simp_all
  then have b: "\<bar>item_price it * quantity r\<bar> < 10 ^ 28" using r p by simp
  then show ?thesis using dec_mult_money [OF b] dec_quantize2_money [OF b] by simp
qed

lemma order_detail_answer:
  assumes "audit_ok (db w)" and "find_order oid (db w) = Some r"
    and "find_item (order_item_id r) (db w) = Some it"
  shows "api_get_order oid (open_session w) =
    (Inr (OrderDetailBody (detail_of r it (movements_of_order oid (db w)))), open_session w)"
proof (rule wp_eqI)
  show "wp (api_get_order oid) (\<lambda>r' w1. r' = Inr (OrderDetailBody (detail_of r it (movements_of_order oid (db w)))) \<and>
      w1 = open_session w) (open_session w)"
    using assms(2,3) order_detail_sum [OF audit_okD(1) [OF assms(1)] assms(2,3)]
    by (simp add: api_get_order_def wp_as_body wp_mapped get_order_detail_def wp_rules Let_def detail_of_def)
qed

text \<open>
  C28. The detail of an order shows the order's item at its price and their exact product: the
  total value is price times quantity to the cent, never rounded and never an
  \<open>InvalidOperation\<close>, and the movements are those of the order.
\<close>

theorem order_detail_exact:
  assumes "audit_ok (db w)" and "find_order oid (db w) = Some r"
    and "find_item (order_item_id r) (db w) = Some it"
    and "get_db env (api_get_order oid) w = (res, w')"
  shows "\<exists>d. res = Inr (OrderDetailBody d) \<and> od_item_name d = item_name it \<and>
    dec_cents (od_item_price d) = Some (item_price it) \<and> exponent (od_total_value d) = - 2 \<and>
    dec_cents (od_total_value d) = Some (item_price it * quantity r) \<and>
    od_status d = status r \<and> od_version d = order_version r \<and>
    od_movements d = movements_of_order oid (db w) \<and> db w' = db w"
proof -
  from committed_result [OF assms(4) order_detail_answer [OF assms(1-3)]]
  have "res = Inr (OrderDetailBody (detail_of r it (movements_of_order oid (db w))))" "db w' = db w"
    by (simp_all add: committing_def)
  then show ?thesis by (simp add: detail_of_def exponent_money)
qed

theorem order_detail_exact_witness:
  "\<exists>d. fst (get_db sample_env (api_get_order 5) (sample_world 4)) = Inr (OrderDetailBody d) \<and>
     dec_cents (od_total_value d) = Some 5196"
  using order_detail_exact [OF _ _ _ prod.collapse [symmetric], where w = "sample_world 4" and oid = 5 and
      r = "sample_order 4" and it = sample_item and env = sample_env] audit_ok_sample [of 4]
  by auto

section \<open>The list of orders\<close>

lemma day_iff:
  assumes "0 < (m::int)"
  shows "d * m \<le> c \<and> c \<le> d * m + (m - 1) \<longleftrightarrow> c div m = d"
proof
  assume "d * m \<le> c \<and> c \<le> d * m + (m - 1)"
  then show "c div m = d"
    by (intro int_div_pos_eq [of c m d "c - d * m"]) (simp_all add: mult.commute)
next
  assume "c div m = d"
  then have "c = d * m + c mod m" using div_mult_mod_eq [of c m] by simp
  moreover have "0 \<le> c mod m" "c mod m < m" using assms by simp_all
  ultimately show "d * m \<le> c \<and> c \<le> d * m + (m - 1)" by linarith
qed

text \<open>
  C29. The list of orders with a \<open>date\<close> holds exactly the orders created on that calendar day in
  UTC that match the other filters, newest first; \<open>from_date\<close> and \<open>to_date\<close> are then ignored.
\<close>

theorem orders_of_a_day:
  assumes "of_date f = Some d" and "get_db env (api_list_orders f) w = (res, w')"
  shows "\<exists>rs. res = Inr (OrdersBody (map order_response rs)) \<and>
    set rs = {r \<in> set (order_rows (db w)). order_created_at r div microseconds_per_day = d \<and>
        (case of_status f of None \<Rightarrow> True | Some s \<Rightarrow> status r = s) \<and>
        (case of_customer_ref f of None \<Rightarrow> True | Some c \<Rightarrow> customer_ref r = Some c)} \<and>
    sorted (rev (map order_created_at rs)) \<and> db w' = db w"
proof -
  define rs where "rs = orders_matching (of_status f) (Some (day_start d)) (Some (day_end d)) (of_customer_ref f) (db w)"
  have "wp (api_list_orders f) (\<lambda>r w1. r = Inr (OrdersBody (map order_response rs)) \<and> w1 = open_session w)
      (open_session w)"
    using assms(1)
    by (simp add: api_list_orders_def wp_as_body list_orders_def wp_rules date_range_def rs_def)
  then have h: "api_list_orders f (open_session w) = (Inr (OrdersBody (map order_response rs)), open_session w)"
    by (rule wp_eqI)
  from committed_result [OF assms(2) h]
  have res: "res = Inr (OrdersBody (map order_response rs))" "db w' = db w" by (simp_all add: committing_def)
  have day: "day_start d \<le> c \<and> c \<le> day_end d \<longleftrightarrow> c div microseconds_per_day = d" for c
    unfolding day_start_def day_end_def
    by (rule day_iff) (simp add: microseconds_per_day_def)
  have "set rs = {r \<in> set (order_rows (db w)). order_created_at r div microseconds_per_day = d \<and>
        (case of_status f of None \<Rightarrow> True | Some s \<Rightarrow> status r = s) \<and>
        (case of_customer_ref f of None \<Rightarrow> True | Some c \<Rightarrow> customer_ref r = Some c)}"
    unfolding rs_def orders_matching_def by (auto simp: day [symmetric])
  moreover have "sorted (rev (map order_created_at rs))"
  proof -
    have "sorted (map (\<lambda>r. - order_created_at r) rs)"
      unfolding rs_def orders_matching_def by (rule sorted_sort_key)
    then show ?thesis
      by (simp add: sorted_wrt_rev sorted_map sorted_wrt_map)
  qed
  ultimately show ?thesis using res by blast
qed

theorem orders_of_a_day_witness:
  "\<exists>rs. fst (get_db sample_env (api_list_orders \<lparr>of_status = None, of_date = Some 0, of_from_date = None,
      of_to_date = None, of_customer_ref = None\<rparr>) (sample_world 4)) = Inr (OrdersBody (map order_response rs)) \<and>
    set rs = {sample_order 4}"
  using orders_of_a_day [OF _ prod.collapse [symmetric], where f = "\<lparr>of_status = None, of_date = Some 0,
      of_from_date = None, of_to_date = None, of_customer_ref = None\<rparr>" and d = 0 and env = sample_env and w = "sample_world 4"]
  by (auto simp: microseconds_per_day_def)


section \<open>Aggregates\<close>

lemma wp_get_stock_analytics:
  assumes "\<not> broken (sess w)"
    and "\<bar>sum_list (map (\<lambda>it. item_price it * stock_quantity it) (menu_items (view w)))\<bar> < 10 ^ 28"
  shows "get_stock_analytics w = (Inr
      \<lparr>total_items = length (menu_items (view w)),
       total_units = sum_list (map stock_quantity (menu_items (view w))),
       total_value = money (sum_list (map (\<lambda>it. item_price it * stock_quantity it) (menu_items (view w)))),
       low_stock_count = count_rows (\<lambda>it. stock_quantity it \<le> low_stock_threshold it \<and> 0 < stock_quantity it)
         (menu_items (view w)),
       out_of_stock_count = count_rows (\<lambda>it. stock_quantity it = 0) (menu_items (view w))\<rparr>, w)"
  by (rule wp_eqI)
     (use assms(1) coalesce_sum_numeric_quantized [OF assms(2)] in \<open>simp add: get_stock_analytics_def wp_rules\<close>)

lemma low_stock_items_counted:
  assumes "\<forall>it \<in> set rows. item_checks_ok it"
  shows "length (filter (\<lambda>it. stock_quantity it \<le> low_stock_threshold it) rows) =
    count_rows (\<lambda>it. stock_quantity it \<le> low_stock_threshold it \<and> 0 < stock_quantity it) rows +
    count_rows (\<lambda>it. stock_quantity it = 0) rows"
  using assms by (induction rows) (auto simp: item_checks_ok_def)

lemma stock_value_bound:
  assumes "schema_ok t" and "length (menu_items t) \<le> 10 ^ 8"
  shows "\<bar>sum_list (map (\<lambda>it. item_price it * stock_quantity it) (menu_items t))\<bar> < 10 ^ 28"
proof -
  let ?rows = "menu_items t"
  have rows: "item_types_ok it \<and> item_checks_ok it" if "it \<in> set ?rows" for it
    using assms(1) that by (simp add: schema_ok_def)
  have "\<bar>item_price it * stock_quantity it\<bar> \<le> 10 ^ 10 * 2 ^ 31" if "it \<in> set ?rows" for it
  proof -
    have "0 < item_price it" "item_price it \<le> 10 ^ 10" "0 \<le> stock_quantity it" "stock_quantity it \<le> 2 ^ 31"
      using rows [OF that] by (simp_all add: item_types_ok_def item_checks_ok_def int4_def abs_less_iff)
    then have "item_price it * stock_quantity it \<le> 10 ^ 10 * 2 ^ 31" by (intro mult_mono) simp_all
    moreover have "0 \<le> item_price it * stock_quantity it"
      using \<open>0 < item_price it\<close> \<open>0 \<le> stock_quantity it\<close> by simp
    ultimately show ?thesis by simp
  qed
  then have "\<bar>sum_list (map (\<lambda>it. item_price it * stock_quantity it) ?rows)\<bar> \<le> int (length ?rows) * (10 ^ 10 * 2 ^ 31)"
    by (rule sum_list_bound)
  also have "\<dots> \<le> 10 ^ 8 * (10 ^ 10 * 2 ^ 31)" using assms(2) by (intro mult_right_mono) simp_all
  also have "\<dots> < 10 ^ 28" by simp
  finally show ?thesis .
qed

text \<open>
  C30. The stock summary is exact: the units are the sum of the stocks, the value is the sum of
  price times stock to the cent, the items it counts as out of stock are those without any, those
  it counts as low have some and at most their threshold, and together they are the items that
  the low-stock alerts list.
\<close>

theorem stock_summary_exact:
  assumes "audit_ok (db w)" and "length (menu_items (db w)) \<le> 10 ^ 8"
    and "get_db env api_stock_analytics w = (res, w')"
  shows "\<exists>a. res = Inr (StockAnalyticsBody a) \<and> total_items a = length (menu_items (db w)) \<and>
    total_units a = sum_list (map stock_quantity (menu_items (db w))) \<and>
    dec_cents (total_value a) = Some (sum_list (map (\<lambda>it. item_price it * stock_quantity it) (menu_items (db w)))) \<and>
    out_of_stock_count a = length (filter (\<lambda>it. stock_quantity it = 0) (menu_items (db w))) \<and>
    low_stock_count a =
      length (filter (\<lambda>it. 0 < stock_quantity it \<and> stock_quantity it \<le> low_stock_threshold it) (menu_items (db w))) \<and>
    low_stock_count a + out_of_stock_count a = length (low_stock_items (db w)) \<and> db w' = db w"
proof -
  let ?rows = "menu_items (db w)"
  have rows: "item_types_ok it \<and> item_checks_ok it" if "it \<in> set ?rows" for it
    using assms(1) that by (simp add: audit_ok_def schema_ok_def)
  have b: "\<bar>sum_list (map (\<lambda>it. item_price it * stock_quantity it) (menu_items (view (open_session w))))\<bar> < 10 ^ 28"
    using stock_value_bound [of "db w"] assms(1,2) by (simp add: audit_ok_def)
  obtain a where a: "get_stock_analytics (open_session w) = (Inr a, open_session w)"
    "total_items a = length ?rows" "total_units a = sum_list (map stock_quantity ?rows)"
    "total_value a = money (sum_list (map (\<lambda>it. item_price it * stock_quantity it) ?rows))"
    "low_stock_count a = count_rows (\<lambda>it. stock_quantity it \<le> low_stock_threshold it \<and> 0 < stock_quantity it) ?rows"
    "out_of_stock_count a = count_rows (\<lambda>it. stock_quantity it = 0) ?rows"
    by (rule that [OF wp_get_stock_analytics [OF open_session_simps(2) b]]) simp_all
  have "api_stock_analytics (open_session w) = (Inr (StockAnalyticsBody a), open_session w)"
    using a(1) by (simp add: api_stock_analytics_def as_body_def and_then_def done_with_def)
  from committed_result [OF assms(3) this]
  have "res = Inr (StockAnalyticsBody a)" "db w' = db w" by (simp_all add: committing_def)
  moreover have "low_stock_count a + out_of_stock_count a = length (low_stock_items (db w))"
    using low_stock_items_counted [of ?rows] rows a(5,6) by (simp add: low_stock_items_def)
  moreover have "low_stock_count a =
      length (filter (\<lambda>it. 0 < stock_quantity it \<and> stock_quantity it \<le> low_stock_threshold it) ?rows)"
    by (simp add: a(5) count_rows_def conj_commute)
  ultimately show ?thesis using a(2-4,6) by (simp add: count_rows_def)
qed

theorem stock_summary_exact_witness:
  "\<exists>a. fst (get_db sample_env api_stock_analytics (sample_world 4)) = Inr (StockAnalyticsBody a) \<and>
     total_units a = 10 \<and> dec_cents (total_value a) = Some 12990"
  using stock_summary_exact [OF _ _ prod.collapse [symmetric], of "sample_world 4" sample_env]
    audit_ok_sample [of 4] by auto

text \<open>The join of orders with items, by the unique item of each order.\<close>

definition price_of :: "tables \<Rightarrow> uuid \<Rightarrow> int" where
  "price_of t i = (case find_item i t of None \<Rightarrow> 0 | Some it \<Rightarrow> item_price it)"

definition order_value :: "order_status \<Rightarrow> int \<Rightarrow> tables \<Rightarrow> int" where
  "order_value st since t =
     sum_rows (\<lambda>r. status r = st \<and> since \<le> order_created_at r) (\<lambda>r. price_of t (order_item_id r) * quantity r)
       (order_rows t)"

lemma key_rows:
  assumes "distinct (map item_id items)"
  shows "filter (\<lambda>it. k = item_id it) items = (case row_lookup item_id k items of None \<Rightarrow> [] | Some it \<Rightarrow> [it])"
  using assms
proof (induction items)
  case (Cons it items)
  show ?case
  proof (cases "item_id it = k")
    case True
    with Cons.prems have "k \<notin> item_id ` set items" by auto
    then have "filter (\<lambda>it. k = item_id it) items = []" by (auto simp: filter_empty_conv)
    with True show ?thesis by simp
  next
    case False
    with Cons show ?thesis by (simp add: eq_commute [of k])
  qed
qed simp

lemma orders_joined_eq:
  assumes "distinct (map item_id (menu_items t))"
  shows "orders_joined st since t =
    concat (map (\<lambda>r. case find_item (order_item_id r) t of None \<Rightarrow> [] | Some it \<Rightarrow> [(r, it)])
      (filter (\<lambda>r. status r = st \<and> since \<le> order_created_at r) (order_rows t)))"
proof -
  have one: "concat (map (\<lambda>it. if k = item_id it \<and> b then [(r, it)] else []) (menu_items t)) =
      (if b then (case find_item k t of None \<Rightarrow> [] | Some it \<Rightarrow> [(r, it)]) else [])" for k b and r :: order
  proof -
    have all: "concat (map (\<lambda>it. if k = item_id it \<and> b then [(r, it)] else []) items) =
        (if b then map (Pair r) (filter (\<lambda>it. k = item_id it) items) else [])" for items
      by (induction items) simp_all
    show ?thesis
      unfolding all key_rows [OF assms] find_item_def by (simp split: option.split)
  qed
  have "concat (map (\<lambda>r. if status r = st \<and> since \<le> order_created_at r
        then (case find_item (order_item_id r) t of None \<Rightarrow> [] | Some it \<Rightarrow> [(r, it)]) else []) rows) =
      concat (map (\<lambda>r. case find_item (order_item_id r) t of None \<Rightarrow> [] | Some it \<Rightarrow> [(r, it)])
        (filter (\<lambda>r. status r = st \<and> since \<le> order_created_at r) rows))" for rows
    by (induction rows) simp_all
  then show ?thesis by (simp add: orders_joined_def one)
qed

lemma joined_sum:
  assumes "distinct (map item_id (menu_items t))"
  shows "sum_list (map (\<lambda>(r, it). item_price it * quantity r) (orders_joined st since t)) = order_value st since t"
    and "length (orders_joined st since t) \<le> length (order_rows t)"
proof -
  have "sum_list (map (\<lambda>(r, it). item_price it * quantity r)
      (concat (map (\<lambda>r. case find_item (order_item_id r) t of None \<Rightarrow> [] | Some it \<Rightarrow> [(r, it)]) rows))) =
      sum_list (map (\<lambda>r. price_of t (order_item_id r) * quantity r) rows)" for rows
    by (induction rows) (auto simp: price_of_def split: option.split)
  then show "sum_list (map (\<lambda>(r, it). item_price it * quantity r) (orders_joined st since t)) = order_value st since t"
    by (simp add: orders_joined_eq [OF assms] order_value_def sum_rows_def)
  have "length (concat (map (\<lambda>r. case find_item (order_item_id r) t of None \<Rightarrow> [] | Some it \<Rightarrow> [(r, it)]) rows))
      \<le> length rows" for rows :: "order list"
    by (induction rows) (auto split: option.split)
  from this [of "filter (\<lambda>r. status r = st \<and> since \<le> order_created_at r) (order_rows t)"]
  show "length (orders_joined st since t) \<le> length (order_rows t)"
    unfolding orders_joined_eq [OF assms] by (rule le_trans) (rule length_filter_le)
qed

lemma order_value_sum_exact:
  assumes "schema_ok t" and "length (order_rows t) \<le> 10 ^ 8"
  shows "dec_quantize2 (order_value_sum (orders_joined st since t)) = Some (money (order_value st since t))"
proof -
  have d: "distinct (map item_id (menu_items t))" using assms(1) by (simp add: schema_ok_def)
  have "\<bar>(case x of (r, it) \<Rightarrow> item_price it * quantity r)\<bar> \<le> 10 ^ 10 * 2 ^ 31"
    if x: "x \<in> set (orders_joined st since t)" for x
  proof -
    obtain r it where rt: "x = (r, it)" "r \<in> set (order_rows t)" "it \<in> set (menu_items t)"
      using x by (auto simp: orders_joined_def)
    have "0 < item_price it" "item_price it \<le> 10 ^ 10" "0 < quantity r" "quantity r \<le> 2 ^ 31"
      using assms(1) rt(2,3) by (auto simp: schema_ok_def item_types_ok_def item_checks_ok_def order_types_ok_def
          order_checks_ok_def int4_def abs_less_iff)
    then have "item_price it * quantity r \<le> 10 ^ 10 * 2 ^ 31" "0 < item_price it * quantity r"
      by (intro mult_mono mult_pos_pos; simp)+
    then show ?thesis by (simp add: rt(1))
  qed
  then have "\<bar>sum_list (map (\<lambda>(r, it). item_price it * quantity r) (orders_joined st since t))\<bar>
      \<le> int (length (orders_joined st since t)) * (10 ^ 10 * 2 ^ 31)"
    by (rule sum_list_bound)
  also have "\<dots> \<le> 10 ^ 8 * (10 ^ 10 * 2 ^ 31)"
    using le_trans [OF joined_sum(2) [OF d] assms(2), of st since] by (intro mult_right_mono) simp_all
  also have "\<dots> < 10 ^ 28" by simp
  finally show ?thesis
    using coalesce_sum_numeric_quantized [of "\<lambda>(r, it). item_price it * quantity r" "orders_joined st since t"]
    unfolding order_value_sum_def joined_sum(1) [OF d] by simp
qed

text \<open>The orders of a status in a period, as the tables hold them.\<close>

definition orders_in :: "order_status \<Rightarrow> int \<Rightarrow> tables \<Rightarrow> nat" where
  "orders_in st since t = length (filter (\<lambda>r. status r = st \<and> since \<le> order_created_at r) (order_rows t))"

lemma count_rows_since: "count_rows (\<lambda>r. status r = st) (orders_since since t) = orders_in st since t"
  by (simp add: count_rows_def orders_since_def orders_in_def conj_commute)

lemma orders_since_length: "length (orders_since since t) = length (filter (\<lambda>r. since \<le> order_created_at r) (order_rows t))"
  by (simp add: orders_since_def)

text \<open>
  C31. The order summary is exact: each of its six counts is the number of orders of its own
  status that were created in the period, they add up to the total, and revenue and refund are,
  to the cent, the sums of price times quantity over the delivered and over the cancelled orders
  of the period (over all the cancelled ones: see the finding on \<open>refund_counts_undeducted\<close>).
\<close>

theorem order_summary_exact:
  assumes "audit_ok (db w)" and "length (order_rows (db w)) \<le> 10 ^ 8" and "days_valid days"
    and "since = env_utc_now env (calls w) - days * microseconds_per_day"
    and "get_db env (api_order_analytics env days) w = (res, w')"
  shows "\<exists>a. res = Inr (OrderAnalyticsBody a) \<and>
    total_orders a = length (filter (\<lambda>r. since \<le> order_created_at r) (order_rows (db w))) \<and>
    pending_count a = orders_in PENDING since (db w) \<and>
    confirmed_count a = orders_in CONFIRMED since (db w) \<and>
    shipped_count a = orders_in SHIPPED since (db w) \<and>
    delivered_count a = orders_in DELIVERED since (db w) \<and>
    cancelled_count a = orders_in CANCELLED since (db w) \<and>
    rejected_count a = orders_in REJECTED since (db w) \<and>
    total_orders a = pending_count a + confirmed_count a + shipped_count a + delivered_count a
      + cancelled_count a + rejected_count a \<and>
    dec_cents (revenue a) = Some (order_value DELIVERED since (db w)) \<and>
    dec_cents (refund_value a) = Some (order_value CANCELLED since (db w))"
proof -
  note exact = order_value_sum_exact [OF audit_okD(1) [OF assms(1)] assms(2)]
  let ?rows = "orders_since since (db w)"
  define a where "a = \<lparr>total_orders = length ?rows,
        pending_count = count_rows (\<lambda>r. status r = PENDING) ?rows,
        confirmed_count = count_rows (\<lambda>r. status r = CONFIRMED) ?rows,
        shipped_count = count_rows (\<lambda>r. status r = SHIPPED) ?rows,
        delivered_count = count_rows (\<lambda>r. status r = DELIVERED) ?rows,
        cancelled_count = count_rows (\<lambda>r. status r = CANCELLED) ?rows,
        rejected_count = count_rows (\<lambda>r. status r = REJECTED) ?rows,
        revenue = money (order_value DELIVERED since (db w)),
        refund_value = money (order_value CANCELLED since (db w))\<rparr>"
  have "wp (api_order_analytics env days) (\<lambda>r w1. r = Inr (OrderAnalyticsBody a) \<and> w1 = tick (open_session w))
      (open_session w)"
    using assms(3,4) exact
    by (simp add: api_order_analytics_def validated_def wp_as_body get_order_analytics_def wp_rules a_def)
  then have h: "api_order_analytics env days (open_session w) = (Inr (OrderAnalyticsBody a), tick (open_session w))"
    by (rule wp_eqI)
  from committed_result [OF assms(5) h] have "res = Inr (OrderAnalyticsBody a)" by (simp add: committing_def)
  then show ?thesis
    using count_rows_status [of ?rows]
    by (intro exI [of _ a]) (simp add: a_def count_rows_since orders_since_length)
qed

theorem order_summary_exact_witness:
  "\<exists>a. fst (get_db sample_env (api_order_analytics sample_env 30) (sample_world 4)) = Inr (OrderAnalyticsBody a) \<and>
     total_orders a = 1"
  using order_summary_exact [OF _ _ _ refl prod.collapse [symmetric], where w = "sample_world 4" and
      env = sample_env and days = 30] audit_ok_sample [of 4]
  by (auto simp: days_valid_def microseconds_per_day_def)

text \<open>
  The refund counts orders that never had stock deducted: cancelling a pending order, which
  leaves no movement and no stock changed, raises the refund by its price times its quantity.
\<close>

theorem refund_counts_undeducted:
  assumes "audit_ok (db w)" and "find_order oid (db w) = Some r" and "status r = PENDING"
    and "since \<le> order_created_at r"
    and "get_db env (transition_router env CancelAction oid) w = (res, w')"
  shows "order_value CANCELLED since (db w') =
      order_value CANCELLED since (db w) + price_of (db w) (order_item_id r) * quantity r \<and>
    order_trail oid (db w') = [] \<and> stock_unchanged (db w) (db w')"
proof -
  let ?now = "env_utc_now env (calls w)"
  let ?u = "UpdateOrder oid CANCELLED (order_version r + 1) ?now"
  obtain t: "order_version r = 1" "order_trail oid (db w) = []"
    by (rule audit_find [OF assms(1,2)]) (use assms(3) in auto)
  have "service_method env (get_cache env) CancelAction oid (open_session w) =
      (Inr (Some (moved_order CANCELLED ?now r)), tick (log_statement ?u (open_session w)))"
    using cancel_order_pending [of oid "open_session w" r env "get_cache env"] assms(2,3) t by (simp add: int4_def)
  from committed_result [OF assms(5) transition_router_returns [OF this]]
  have w': "db w' = apply_statement ?u (db w)" by (simp add: committing_def)
  have price: "price_of (db w') = price_of (db w)" by (rule ext) (simp add: price_of_def w' table_simps)
  have o: "order_rows (db w') = row_update order_id oid (set_order_columns CANCELLED (order_version r + 1) ?now)
      (order_rows (db w))" by (simp add: w' table_simps)
  have "order_value CANCELLED since (db w') =
      order_value CANCELLED since (db w) + price_of (db w) (order_item_id r) * quantity r"
    unfolding order_value_def o price
    using assms(1-4)
    by (subst sum_rows_row_update [where r = r])
       (simp_all add: audit_ok_def schema_ok_def find_order_def)
  then show ?thesis using t(2) by (simp add: w' table_simps stock_unchanged_update)
qed

theorem refund_counts_undeducted_witness:
  "order_value CANCELLED 0 (db (snd (get_db sample_env (transition_router sample_env CancelAction 5) (sample_world 4)))) =
     5196"
proof -
  have "order_value CANCELLED 0 (sample_tables 4) = 0" "price_of (sample_tables 4) 1 = 1299"
    by (simp_all add: order_value_def price_of_def)
  with refund_counts_undeducted [OF _ _ _ _ prod.collapse [symmetric], where w = "sample_world 4" and oid = 5 and
      r = "sample_order 4" and since = 0 and env = sample_env] audit_ok_sample [of 4]
  show ?thesis by simp
qed

text \<open>
  C32. The movement summary and the stock agree: over a period that holds all movements, the net
  change is the sum of the stocks of all items, and the movements are counted in exactly one
  type each.
\<close>

theorem movement_summary_balances:
  assumes "audit_ok (db w)" and "days_valid days"
    and "\<forall>m \<in> set (stock_movements (db w)). env_utc_now env (calls w) - days * microseconds_per_day \<le> mv_created_at m"
    and "get_db env (api_movement_analytics env days) w = (res, w')"
  shows "\<exists>a. res = Inr (MovementAnalyticsBody a) \<and>
    net_stock_change a = sum_list (map stock_quantity (menu_items (db w))) \<and>
    total_deductions a + total_restorations a + total_adjustments a = length (stock_movements (db w))"
proof -
  let ?rows = "stock_movements (db w)"
  have all: "movements_since (env_utc_now env (calls w) - days * microseconds_per_day) (db w) = ?rows"
    using assms(3) by (simp add: movements_since_def)
  define a where "a = \<lparr>total_deductions = count_rows (\<lambda>m. movement_type m = DEDUCTION) ?rows,
        total_restorations = count_rows (\<lambda>m. movement_type m = RESTORATION) ?rows,
        total_adjustments = count_rows (\<lambda>m. movement_type m = ADJUSTMENT) ?rows,
        net_stock_change = sum_list (map quantity_delta ?rows)\<rparr>"
  have "wp (api_movement_analytics env days) (\<lambda>r w1. r = Inr (MovementAnalyticsBody a) \<and> w1 = tick (open_session w))
      (open_session w)"
    using assms(2) all
    by (simp add: api_movement_analytics_def validated_def wp_as_body get_movement_analytics_def wp_rules a_def)
  then have h: "api_movement_analytics env days (open_session w) = (Inr (MovementAnalyticsBody a), tick (open_session w))"
    by (rule wp_eqI)
  from committed_result [OF assms(4) h] have res: "res = Inr (MovementAnalyticsBody a)" by (simp add: committing_def)
  have "sum_list (map quantity_delta ?rows) = sum_list (map stock_quantity (menu_items (db w)))"
    by (rule all_deltas_sum [OF assms(1)])
  with res show ?thesis
    using count_rows_movement_type [of ?rows] by (intro exI [of _ a]) (simp add: a_def)
qed

theorem movement_summary_balances_witness:
  "\<exists>a. fst (get_db sample_env (api_movement_analytics sample_env 30) (sample_world 4)) = Inr (MovementAnalyticsBody a) \<and>
     net_stock_change a = 10"
  using movement_summary_balances [OF _ _ _ prod.collapse [symmetric], where w = "sample_world 4" and
      env = sample_env and days = 30] audit_ok_sample [of 4]
  by (auto simp: days_valid_def microseconds_per_day_def)

end
