(* ===== verification/Cache_Transparency.thy ===== *)
theory Cache_Transparency
  imports Report_Properties
begin

text \<open>
  The cache is an optimisation: two deployments that draw the same identifiers and instants
  and check the same keys, but differ in their Redis client, its state, or in having a cache
  at all, are compared request by request. \<open>same_base\<close> relates two worlds that agree on
  everything but Redis, \<open>blind\<close> two methods that cannot tell such worlds apart, with one rule
  per construct of the services.
\<close>

section \<open>Methods that do not depend on the cache\<close>

named_theorems blind_rules

definition same_base :: "'r world \<Rightarrow> 's world \<Rightarrow> bool" where
  "same_base w v \<longleftrightarrow> db w = db v \<and> sess w = sess v \<and> calls w = calls v"

definition blind :: "('r, 'a) io \<Rightarrow> ('s, 'a) io \<Rightarrow> bool" where
  "blind m n \<longleftrightarrow>
     (\<forall>w v. same_base w v \<longrightarrow> fst (m w) = fst (n v) \<and> same_base (snd (m w)) (snd (n v)))"

definition same_sources :: "'r env \<Rightarrow> 's env \<Rightarrow> bool" where
  "same_sources env env' \<longleftrightarrow>
     env_uuid4 env = env_uuid4 env' \<and> env_utc_now env = env_utc_now env' \<and>
     env_collation env = env_collation env' \<and>
     require_auth (env_settings env) = require_auth (env_settings env') \<and>
     valid_api_keys (env_settings env) = valid_api_keys (env_settings env')"

lemma same_base_view: "same_base w v \<Longrightarrow> view w = view v"
  by (simp add: same_base_def view_def)

lemma blindI:
  assumes "\<And>w v. same_base w v \<Longrightarrow>
    wp m (\<lambda>r w'. wp n (\<lambda>r' v'. r = r' \<and> same_base w' v') v) w"
  shows "blind m n"
  using assms by (simp add: blind_def wp_result)

lemma blindE:
  assumes "blind m n" and "same_base w v"
  obtains r w1 v1 where "m w = (r, w1)" and "n v = (r, v1)" and "same_base w1 v1"
proof -
  from assms have "fst (m w) = fst (n v)" "same_base (snd (m w)) (snd (n v))" by (auto simp: blind_def)
  then show thesis using that by (metis prod.collapse)
qed

lemma blind_done_with [blind_rules]: "blind (done_with a) (done_with a)"
  by (simp add: blind_def done_with_def)

lemma blind_raise_exn [blind_rules]: "blind (raise_exn e) (raise_exn e)"
  by (simp add: blind_def raise_exn_def)

lemma blind_and_then [blind_rules]:
  assumes "blind m n" and "\<And>a. blind (f a) (g a)"
  shows "blind (and_then m f) (and_then n g)"
  unfolding blind_def
proof (intro allI impI)
  fix w :: "'a world" and v :: "'c world"
  assume b: "same_base w v"
  obtain r w1 v1 where s: "m w = (r, w1)" "n v = (r, v1)" and "same_base w1 v1"
    using blindE [OF assms(1) b] .
  with assms(2) show "fst (and_then m f w) = fst (and_then n g v) \<and>
      same_base (snd (and_then m f w)) (snd (and_then n g v))"
    by (cases r) (simp_all add: and_then_def s blind_def)
qed

lemma blind_catching [blind_rules]:
  assumes "blind m n" and "\<And>e. blind (h e) (k e)"
  shows "blind (catching m h) (catching n k)"
  unfolding blind_def
proof (intro allI impI)
  fix w :: "'a world" and v :: "'c world"
  assume b: "same_base w v"
  obtain r w1 v1 where s: "m w = (r, w1)" "n v = (r, v1)" and "same_base w1 v1"
    using blindE [OF assms(1) b] .
  with assms(2) show "fst (catching m h w) = fst (catching n k v) \<and>
      same_base (snd (catching m h w)) (snd (catching n k v))"
    by (cases r) (simp_all add: catching_def s blind_def)
qed

lemma blind_if [blind_rules]:
  "blind m n \<Longrightarrow> blind m' n' \<Longrightarrow> blind (if b then m else m') (if b then n else n')"
  by simp

lemma blind_option [blind_rules]:
  "blind m n \<Longrightarrow> (\<And>a. blind (f a) (g a)) \<Longrightarrow>
     blind (case x of None \<Rightarrow> m | Some a \<Rightarrow> f a) (case x of None \<Rightarrow> n | Some a \<Rightarrow> g a)"
  by (cases x) simp_all

section \<open>Session and cache\<close>

lemma blind_session_read [blind_rules]: "blind (session_read q) (session_read q)"
  by (simp add: blind_def session_read_def same_base_def view_def)

lemma blind_session_execute [blind_rules]: "blind (session_execute s) (session_execute s)"
  by (auto simp: blind_def session_execute_def same_base_def view_def split: option.split)

lemma blind_session_modify [blind_rules]: "blind (session_modify old new) (session_modify old new)"
  by (simp add: blind_def session_modify_def same_base_def Let_def)

lemma blind_session_rollback [blind_rules]: "blind session_rollback session_rollback"
  by (simp add: blind_def session_rollback_def same_base_def)

lemma blind_uuid4 [blind_rules]: "same_sources env env' \<Longrightarrow> blind (uuid4 env) (uuid4 env')"
  by (simp add: blind_def uuid4_def same_base_def same_sources_def)

lemma blind_utc_now [blind_rules]: "same_sources env env' \<Longrightarrow> blind (utc_now env) (utc_now env')"
  by (simp add: blind_def utc_now_def same_base_def same_sources_def)

lemma blind_flush_patches:
  "same_sources env env' \<Longrightarrow> blind (flush_patches env ps) (flush_patches env' ps)"
  by (induction ps) (simp_all add: flush_patches.simps blind_rules)

lemma blind_session_flush [blind_rules]:
  assumes "same_sources env env'"
  shows "blind (session_flush env) (session_flush env')"
  using blind_flush_patches [OF assms] by (auto simp: blind_def session_flush_def same_base_def)

lemma blind_commit_step [blind_rules]:
  "blind (\<lambda>w. (Inr (), w\<lparr>db := view w, sess := fresh_session\<rparr>))
     (\<lambda>w. (Inr (), w\<lparr>db := view w, sess := fresh_session\<rparr>))"
  by (simp add: blind_def same_base_def view_def)

lemma blind_session_commit [blind_rules]:
  assumes "same_sources env env'"
  shows "blind (session_commit env) (session_commit env')"
proof -
  have "blind (and_then (session_flush env) (\<lambda>_ w. (Inr (), w\<lparr>db := view w, sess := fresh_session\<rparr>)))
      (and_then (session_flush env') (\<lambda>_ w. (Inr (), w\<lparr>db := view w, sess := fresh_session\<rparr>)))"
    by (intro blind_rules assms)
  then show ?thesis by (simp add: blind_def session_commit_def same_base_def)
qed

text \<open>
  The one call of the services on the cache that a write makes: whatever the clients do, it
  returns, and it leaves everything but Redis alone.
\<close>

lemma blind_cache_set_stock [blind_rules]:
  "blind (cache_set_stock env cache iid q) (cache_set_stock env' cache' iid q)"
  by (rule blindI) (simp add: wp_cache_set_stock same_base_def)

section \<open>Repositories, services and endpoints\<close>

lemmas repository_defs = session_insert_item_def session_refresh_item_def item_create_def item_get_by_id_def
  item_get_by_id_with_lock_def item_list_low_stock_def item_save_def session_refresh_order_def order_create_def
  order_list_orders_def order_get_by_id_def transition_status_def create_movement_def
  list_movements_for_order_def list_movements_for_item_def

lemma blind_item_list_all [blind_rules]:
  assumes "same_sources env env'"
  shows "blind (item_list_all env) (item_list_all env')"
proof -
  have "all_items_by_name env = all_items_by_name env'"
    using assms by (simp add: fun_eq_iff all_items_by_name_def same_sources_def)
  then show ?thesis by (simp add: item_list_all_def blind_session_read)
qed

lemma blind_repositories [blind_rules]:
  assumes "same_sources env env'"
  shows "blind (item_create env new) (item_create env' new)"
    and "blind (item_save env it) (item_save env' it)"
    and "blind (order_create env mk_order) (order_create env' mk_order)"
    and "blind (transition_status env oid v st) (transition_status env' oid v st)"
    and "blind (create_movement env mk_movement) (create_movement env' mk_movement)"
  unfolding repository_defs by (intro blind_rules assms)+

lemma blind_queries [blind_rules]:
  "blind (item_get_by_id iid) (item_get_by_id iid)"
  "blind (item_get_by_id_with_lock iid) (item_get_by_id_with_lock iid)"
  "blind item_list_low_stock item_list_low_stock"
  "blind (order_get_by_id oid) (order_get_by_id oid)"
  "blind (order_list_orders st f d c) (order_list_orders st f d c)"
  "blind (list_movements_for_order oid) (list_movements_for_order oid)"
  "blind (list_movements_for_item iid k) (list_movements_for_item iid k)"
  unfolding repository_defs by (intro blind_rules)+

lemma blind_services [blind_rules]:
  assumes "same_sources env env'"
  shows "blind (create_item env cache name price stock description threshold)
      (create_item env' cache' name price stock description threshold)"
    and "blind (adjust_stock env cache iid delta why) (adjust_stock env' cache' iid delta why)"
    and "blind (place_order env iid qty ref) (place_order env' iid qty ref)"
    and "blind (service_method env cache action oid) (service_method env' cache' action oid)"
proof -
  show "blind (create_item env cache name price stock description threshold)
      (create_item env' cache' name price stock description threshold)"
    unfolding create_item_def by (intro blind_rules assms)
  show "blind (adjust_stock env cache iid delta why) (adjust_stock env' cache' iid delta why)"
    unfolding adjust_stock_def Let_def by (intro blind_rules assms)
  show "blind (place_order env iid qty ref) (place_order env' iid qty ref)"
    unfolding place_order_def by (intro blind_rules assms)
  show "blind (service_method env cache action oid) (service_method env' cache' action oid)"
    by (cases action)
       (simp_all only: service_method.simps confirm_order_def ship_order_def deliver_order_def transition_def
          cancel_order_def restore_stock_def reload_order_def Let_def;
        intro blind_rules assms)+
qed

lemma blind_reads [blind_rules]:
  "blind (get_item iid) (get_item iid)"
  "blind (get_order_detail oid) (get_order_detail oid)"
  "blind (list_orders st f d c) (list_orders st f d c)"
  "blind (get_movements iid k) (get_movements iid k)"
  "blind get_low_stock_items get_low_stock_items"
  "blind get_stock_analytics get_stock_analytics"
  unfolding get_item_def get_order_detail_def list_orders_def get_movements_def get_low_stock_items_def
    get_stock_analytics_def quantized_def Let_def
  by (intro blind_rules)+

lemma blind_timed_reads [blind_rules]:
  assumes "same_sources env env'"
  shows "blind (list_items env) (list_items env')"
    and "blind (get_order_analytics env days) (get_order_analytics env' days)"
    and "blind (get_movement_analytics env days) (get_movement_analytics env' days)"
  unfolding list_items_def get_order_analytics_def get_movement_analytics_def since_days_def quantized_def
  by (intro blind_rules assms)+

lemma blind_wrappers [blind_rules]:
  "blind m n \<Longrightarrow> blind (mapped f m) (mapped f n)"
  "blind m n \<Longrightarrow> blind (validated ok m) (validated ok n)"
  "blind m n \<Longrightarrow> blind (as_body g m) (as_body g n)"
  unfolding mapped_def validated_def as_body_def by (intro blind_rules, assumption)+

fun reads_stock :: "endpoint \<Rightarrow> bool" where
  "reads_stock (GetStock i) = True"
| "reads_stock _ = False"

lemma blind_handler:
  assumes "same_sources env env'" and "\<not> reads_stock e"
  shows "blind (handler env lim e) (handler env' lim e)"
  using assms(2)
  by (cases e)
     (simp_all only: handler.simps handler_defs reads_stock.simps not_True_eq_False; intro blind_rules assms(1))+

section \<open>Requests\<close>

text \<open>Between two requests no session is open: only the tables and the draws are compared.\<close>

definition aligned :: "'r world \<Rightarrow> 's world \<Rightarrow> bool" where
  "aligned w v \<longleftrightarrow> db w = db v \<and> calls w = calls v"

lemma get_db_blind:
  assumes "same_sources env env'" and "blind m n" and "aligned w v"
  shows "fst (get_db env m w) = fst (get_db env' n v)"
    and "aligned (snd (get_db env m w)) (snd (get_db env' n v))"
    and "fst (m (open_session w)) = fst (n (open_session v))"
proof -
  let ?b = "\<lambda>env h. catching (and_then h (\<lambda>a. and_then (session_commit env) (\<lambda>_. done_with a)))
      (\<lambda>e. if is_HTTPException e then and_then (session_commit env) (\<lambda>_. raise_exn e)
           else and_then session_rollback (\<lambda>_. raise_exn e))"
  have o: "same_base (open_session w) (open_session v)"
    using assms(3) by (simp add: aligned_def same_base_def)
  have "blind (?b env m) (?b env' n)" by (intro blind_rules assms(1,2))
  from blindE [OF this o] obtain r w1 v1 where s: "?b env m (open_session w) = (r, w1)"
      "?b env' n (open_session v) = (r, v1)" "same_base w1 v1" .
  then show "fst (get_db env m w) = fst (get_db env' n v)"
    and "aligned (snd (get_db env m w)) (snd (get_db env' n v))"
    by (simp_all add: get_db_def open_session_def session_close_def session_rollback_def aligned_def same_base_def)
  show "fst (m (open_session w)) = fst (n (open_session v))"
    using assms(2) o by (simp add: blind_def)
qed

text \<open>What the stock read answers, whatever is in a cache that agrees with the tables.\<close>

definition stock_answer :: "bool \<Rightarrow> uuid \<Rightarrow> tables \<Rightarrow> exn + body" where
  "stock_answer within_limit iid t =
     (if \<not> within_limit then Inl RateLimitExceeded
      else case find_item iid t of
             None \<Rightarrow> Inl (not_found_error (NotFoundError ''MenuItem'' iid))
           | Some it \<Rightarrow> Inr (StockBody (stock_response it)))"

lemma stock_read_handler:
  assumes "cache_coherent (get_cache env) (db w) (redis w)"
  shows "wp (api_get_stock env lim iid)
    (\<lambda>r w'. r = stock_answer lim iid (db w) \<and> db w' = db w \<and> view w' = db w \<and> calls w' = calls w \<and>
      \<not> broken (sess w') \<and> (\<forall>p \<in> set (pending (sess w')). patch_stock p = None \<and> patch_version p = None))
    (open_session w)"
proof -
  have q: "it\<lparr>stock_quantity := q\<rparr> = it"
    if "cached (get_cache env) iid (redis w) = Some q" "find_item iid (db w) = Some it" for q it
    using assms that by (fastforce simp: cache_coherent_def stock_of_def)
  show ?thesis
    using q
    by (auto simp: api_get_stock_def stock_answer_def wp_as_body wp_mapped wp_rules get_stock_def patch_of_def
        fresh_session_def split: option.split)
qed

lemma stock_read_request:
  assumes "cache_coherent (get_cache env) (db w) (redis w)"
  shows "fst (get_db env (api_get_stock env lim iid) w) = stock_answer lim iid (db w)"
    and "aligned (snd (get_db env (api_get_stock env lim iid) w)) w"
    and "fst (api_get_stock env lim iid (open_session w)) = stock_answer lim iid (db w)"
proof -
  let ?h = "api_get_stock env lim iid"
  obtain r w1 where h: "?h (open_session w) = (r, w1)" by fastforce
  with stock_read_handler [OF assms, of lim iid] have r: "r = stock_answer lim iid (db w)" "db w1 = db w"
      "view w1 = db w" "calls w1 = calls w" "\<not> broken (sess w1)" "quiet (pending (sess w1))"
    by (simp_all add: wp_def quiet_def)
  have "wp (get_db env ?h) (\<lambda>r' w'. r' = r \<and> db w' = db w \<and> calls w' = calls w) w"
    using r(2-6) by (cases r) (simp_all add: wp_get_db wp_rules wp_result [of ?h] h wp_flush_quiet)
  with r(1) show "fst (get_db env ?h w) = stock_answer lim iid (db w)" "aligned (snd (get_db env ?h w)) w"
    by (simp_all add: wp_result aligned_def)
  show "fst (?h (open_session w)) = stock_answer lim iid (db w)" by (simp add: h r(1))
qed

text \<open>A request that reads the stock needs caches that agree with the tables, no other does.\<close>

definition cache_agrees :: "'r env \<Rightarrow> 'r world \<Rightarrow> bool" where
  "cache_agrees env w \<longleftrightarrow> cache_coherent (get_cache env) (db w) (redis w)"

lemma router_app_aligned:
  assumes "same_sources env env'" and "aligned w v"
    and "reads_stock (req_endpoint request) \<Longrightarrow> cache_agrees env w \<and> cache_agrees env' v"
  shows "fst (router_app env lim request w) = fst (router_app env' lim request v) \<and>
    aligned (snd (router_app env lim request w)) (snd (router_app env' lim request v))"
proof (cases "reads_stock (req_endpoint request)")
  case False
  from get_db_blind [OF assms(1) blind_handler [OF assms(1) False] assms(2)] show ?thesis
    by (simp add: router_app_def Let_def case_prod_beta)
next
  case True
  then obtain i where e: "req_endpoint request = GetStock i" by (cases "req_endpoint request") simp_all
  have c: "cache_coherent (get_cache env) (db w) (redis w)" "cache_coherent (get_cache env') (db v) (redis v)"
    using assms(3) [OF True] by (simp_all add: cache_agrees_def)
  have "aligned (snd (get_db env (api_get_stock env lim i) w)) (snd (get_db env' (api_get_stock env' lim i) v))"
    using stock_read_request(2) [OF c(1), of lim i] stock_read_request(2) [OF c(2), of lim i] assms(2)
    by (simp add: aligned_def)
  moreover have "db w = db v" using assms(2) by (simp add: aligned_def)
  ultimately show ?thesis
    by (simp add: router_app_def Let_def case_prod_beta e stock_read_request(1,3) [OF c(1)]
        stock_read_request(1,3) [OF c(2)])
qed

lemma serve_aligned:
  assumes "same_sources env env'" and "aligned w v"
    and "reads_stock (req_endpoint request) \<Longrightarrow> cache_agrees env w \<and> cache_agrees env' v"
  shows "fst (serve env lim request w) = fst (serve env' lim request v) \<and>
    aligned (snd (serve env lim request w)) (snd (serve env' lim request v))"
proof -
  let ?app = "\<lambda>env. dispatch (require_auth (env_settings env)) (valid_api_keys (env_settings env))
    (router_app env lim) request"
  have t: "aligned (tick w) (tick v)" using assms(2) by (simp add: aligned_def)
  have agrees: "cache_agrees env (tick w) = cache_agrees env w" "cache_agrees env' (tick v) = cache_agrees env' v"
    by (simp_all add: cache_agrees_def)
  have "fst (?app env (tick w)) = fst (?app env' (tick v)) \<and>
      aligned (snd (?app env (tick w))) (snd (?app env' (tick v)))"
  proof -
    have keys: "require_auth (env_settings env) = require_auth (env_settings env')"
        "valid_api_keys (env_settings env) = valid_api_keys (env_settings env')"
      using assms(1) by (simp_all add: same_sources_def)
    have "fst (router_app env lim request (tick w)) = fst (router_app env' lim request (tick v)) \<and>
        aligned (snd (router_app env lim request (tick w))) (snd (router_app env' lim request (tick v)))"
      using assms(3) by (intro router_app_aligned [OF assms(1) t]) (simp add: agrees)
    then show ?thesis
      using t by (simp add: dispatch_def keys done_with_def split: option.split)
  qed
  moreover obtain r w1 where a: "?app env (tick w) = (r, w1)" by fastforce
  moreover obtain r' v1 where b: "?app env' (tick v) = (r', v1)" by fastforce
  ultimately have eq: "r = r'" "aligned w1 v1" by simp_all
  have rid: "env_uuid4 env (calls w) = env_uuid4 env' (calls v)"
    using assms(1,2) by (simp add: same_sources_def aligned_def)
  show ?thesis
    using a b eq rid
    by (cases r') (simp_all add: serve_def server_error_def logging_middleware_def and_then_def uuid4_def done_with_def
        tick_def [symmetric])
qed

section \<open>Runs\<close>

lemma runs_aligned:
  assumes "same_sources env env'" and "aligned w v"
    and "(\<forall>q \<in> set requests. \<not> reads_stock (req_endpoint (snd q))) \<or> serving env w \<and> serving env' v"
  shows "fst (serve_all env requests w) = fst (serve_all env' requests v) \<and>
    aligned (snd (serve_all env requests w)) (snd (serve_all env' requests v))"
  using assms(2,3)
proof (induction requests arbitrary: w v)
  case (Cons q requests)
  have "reads_stock (req_endpoint (snd q)) \<Longrightarrow> cache_agrees env w \<and> cache_agrees env' v"
    using Cons.prems(2) by (auto simp: serving_def consistent_def cache_agrees_def)
  from serve_aligned [OF assms(1) Cons.prems(1) this, where lim = "fst q"]
  obtain a w1 v1 where s: "serve_step env q w = (a, w1)" "serve_step env' q v = (a, v1)" "aligned w1 v1"
    unfolding serve_step_def by (metis prod.collapse)
  have "(\<forall>q \<in> set requests. \<not> reads_stock (req_endpoint (snd q))) \<or> serving env w1 \<and> serving env' v1"
    using Cons.prems(2) server_serves [of env w "fst q" "snd q"] server_serves [of env' v "fst q" "snd q"] s(1,2)
    by (auto simp: serve_step_def)
  from Cons.IH [OF s(3) this] s(1,2) show ?case by (simp add: case_prod_beta)
qed simp

text \<open>
  C22. The cache is transparent: two deployments of the service on the same tables, with the
  same keys, identifiers and clock, one with a cache and one with another cache or none, give
  every sequence of requests the same responses, stock reads included, and commit the same
  tables, provided each cache agrees with the tables at the start and its server keeps the
  documented laws.
\<close>

theorem cache_transparent:
  assumes "same_sources env env'"
    and "cache_ok env (get_cache env)" and "cache_ok env' (get_cache env')"
    and "audit_ok (db w)" and "cache_coherent (get_cache env) (db w) (redis w)"
    and "cache_coherent (get_cache env') (db w) (redis v)"
    and "db v = db w" and "calls v = calls w"
    and "serve_all env requests w = (responses, w')" and "serve_all env' requests v = (responses', v')"
  shows "responses = responses' \<and> db w' = db v'"
  using runs_aligned [of env env' w v requests] assms
  by (simp add: aligned_def serving_def consistent_def)

text \<open>
  C23. No fault of the cache shows but through a stock read: whatever the Redis client does at
  each call (raising, losing writes, answering other values, with no law assumed and nothing
  asked of what is stored), every sequence of requests without a stock read has the same
  responses and commits the same tables as on any other client or without a cache.
\<close>

theorem cache_faults_invisible:
  assumes "same_sources env env'" and "db v = db w" and "calls v = calls w"
    and "\<forall>q \<in> set requests. \<not> reads_stock (req_endpoint (snd q))"
    and "serve_all env requests w = (responses, w')" and "serve_all env' requests v = (responses', v')"
  shows "responses = responses' \<and> db w' = db v'"
  using runs_aligned [of env env' w v requests] assms
  by (simp add: aligned_def)

text \<open>The same deployment without a cache, and one whose Redis server answers every GET with 7.\<close>

definition cacheless_env :: "(string \<rightharpoonup> string) env" where
  "cacheless_env = sample_env\<lparr>env_settings := sample_settings\<lparr>enable_cache := False\<rparr>\<rparr>"

definition faulty_client :: "nat redis_client" where
  "faulty_client =
     \<lparr>redis_get = (\<lambda>k n. (Inr (Some ''7''), Suc n)),
      redis_setex = (\<lambda>k ttl v n. (Inl ''connection lost'', Suc n)),
      redis_delete = (\<lambda>k n. (Inl ''connection lost'', Suc n))\<rparr>"

definition faulty_env :: "nat env" where
  "faulty_env =
     \<lparr>env_uuid4 = env_uuid4 sample_env, env_utc_now = env_utc_now sample_env, env_settings = sample_settings,
      env_redis = faulty_client, env_collation = env_collation sample_env\<rparr>"

lemma same_sources_sample: "same_sources sample_env cacheless_env" "same_sources sample_env faulty_env"
  by (simp_all add: same_sources_def cacheless_env_def faulty_env_def sample_env_def valid_api_keys_def)

lemma get_cache_cacheless: "get_cache cacheless_env = None"
  by (simp add: get_cache_def cache_service_init_def get_redis_def cacheless_env_def)

definition sample_requests :: "(bool \<times> http_request) list" where
  "sample_requests =
     [(True, \<lparr>req_endpoint = PostOrderAction 5 ConfirmAction, req_api_key = Some ''k1''\<rparr>),
      (True, \<lparr>req_endpoint = PostOrderAction 5 CancelAction, req_api_key = Some ''k1''\<rparr>)]"

theorem cache_transparent_witness:
  "fst (serve_all sample_env ((True, \<lparr>req_endpoint = GetStock 1, req_api_key = None\<rparr>) # sample_requests)
      (sample_world 4)) =
   fst (serve_all cacheless_env ((True, \<lparr>req_endpoint = GetStock 1, req_api_key = None\<rparr>) # sample_requests)
      (sample_world 4))"
  using cache_transparent [OF same_sources_sample(1), of "sample_world 4" "sample_world 4",
      OF _ _ _ _ _ _ _ prod.collapse [symmetric] prod.collapse [symmetric]] consistent_sample [of 4]
  by (simp add: get_cache_cacheless cache_ok_def [of cacheless_env] consistent_def cache_coherent_def
      cached_def [of None] del: serve_all.simps)

theorem cache_faults_invisible_witness:
  "fst (serve_all sample_env sample_requests (sample_world 4)) =
   fst (serve_all faulty_env sample_requests
      \<lparr>db = sample_tables 4, sess = fresh_session, redis = 0, calls = 0\<rparr>)"
  using cache_faults_invisible [OF same_sources_sample(2), of
      "\<lparr>db = sample_tables 4, sess = fresh_session, redis = 0, calls = 0\<rparr>" "sample_world 4" sample_requests,
      OF _ _ _ prod.collapse [symmetric] prod.collapse [symmetric]]
  by (simp add: sample_requests_def del: serve_all.simps)

end
