(* ===== verification/Inventory_Spec.thy ===== *)
theory Inventory_Spec
  imports Serial_Runs
begin

text \<open>
  What the service promises, without rows, sessions, versions, movements or cache: the stock of
  each item, and item, quantity and status of each order. Every request is one step on this
  state with the status code of its answer. The application refines it: the abstraction of the
  tables that a request commits is the step on the abstraction of the tables it found.
\<close>

section \<open>The abstract inventory\<close>

record inventory =
  inv_stock :: "uuid \<rightharpoonup> int"
  inv_orders :: "uuid \<rightharpoonup> uuid \<times> int \<times> order_status"

definition order_summary :: "order \<Rightarrow> uuid \<times> int \<times> order_status" where
  "order_summary r = (order_item_id r, quantity r, status r)"

definition inventory_of :: "tables \<Rightarrow> inventory" where
  "inventory_of t = \<lparr>inv_stock = stock_of t, inv_orders = (\<lambda>i. map_option order_summary (find_order i t))\<rparr>"

lemma inventory_of_simps [simp]:
  "inv_stock (inventory_of t) = stock_of t"
  "inv_orders (inventory_of t) i = map_option order_summary (find_order i t)"
  by (simp_all add: inventory_of_def)

lemma inventory_eqI:
  fixes s s' :: inventory
  assumes "\<And>i. inv_stock s i = inv_stock s' i" and "\<And>i. inv_orders s i = inv_orders s' i"
  shows "s = s'"
  using assms by (cases s; cases s') (simp add: fun_eq_iff)

section \<open>The abstract steps\<close>

text \<open>The life of an order, with the stock that each of its moves adds or takes.\<close>

fun next_status :: "order_action \<Rightarrow> order_status \<Rightarrow> order_status option" where
  "next_status ConfirmAction PENDING = Some CONFIRMED"
| "next_status ShipAction CONFIRMED = Some SHIPPED"
| "next_status DeliverAction SHIPPED = Some DELIVERED"
| "next_status CancelAction PENDING = Some CANCELLED"
| "next_status CancelAction CONFIRMED = Some CANCELLED"
| "next_status CancelAction SHIPPED = Some CANCELLED"
| "next_status _ _ = None"

fun stock_delta :: "order_action \<Rightarrow> order_status \<Rightarrow> int \<Rightarrow> int" where
  "stock_delta ConfirmAction st n = - n"
| "stock_delta CancelAction PENDING n = 0"
| "stock_delta CancelAction st n = n"
| "stock_delta _ st n = 0"

definition act_on_order :: "order_action \<Rightarrow> uuid \<Rightarrow> inventory \<Rightarrow> int \<times> inventory" where
  "act_on_order a oid s =
     (case inv_orders s oid of
        None \<Rightarrow> (404, s)
      | Some (iid, n, st) \<Rightarrow>
          (case next_status a st of
             None \<Rightarrow> (422, s)
           | Some st' \<Rightarrow>
               (case inv_stock s iid of
                  None \<Rightarrow> (404, s)
                | Some k \<Rightarrow>
                    if k + stock_delta a st n < 0
                    then (422, s\<lparr>inv_orders := (inv_orders s)(oid \<mapsto> (iid, n, REJECTED))\<rparr>)
                    else (200, s\<lparr>inv_stock := (inv_stock s)(iid \<mapsto> k + stock_delta a st n),
                                 inv_orders := (inv_orders s)(oid \<mapsto> (iid, n, st'))\<rparr>))))"

definition change_stock :: "uuid \<Rightarrow> int \<Rightarrow> inventory \<Rightarrow> int \<times> inventory" where
  "change_stock iid d s =
     (case inv_stock s iid of
        None \<Rightarrow> (404, s)
      | Some k \<Rightarrow> if k + d < 0 then (422, s) else (200, s\<lparr>inv_stock := (inv_stock s)(iid \<mapsto> k + d)\<rparr>))"

definition found :: "'a option \<Rightarrow> int" where
  "found x = (if x = None then 404 else 200)"

definition in_period :: "int \<Rightarrow> int" where
  "in_period days = (if days_valid days then 200 else 422)"

fun endpoint_step :: "bool \<Rightarrow> uuid \<Rightarrow> endpoint \<Rightarrow> inventory \<Rightarrow> int \<times> inventory" where
  "endpoint_step lim new (PostItem b) s =
     (if \<not> item_create_valid b then (422, s)
      else (201, s\<lparr>inv_stock := (inv_stock s)(new \<mapsto> ic_stock_quantity b)\<rparr>))"
| "endpoint_step lim new (PatchItemStock i b) s =
     (if \<not> item_stock_adjust_valid b then (422, s) else change_stock i (sa_delta b) s)"
| "endpoint_step lim new (PostOrder b) s =
     (if \<not> order_create_valid b then (422, s)
      else if inv_stock s (oc_item_id b) = None then (404, s)
      else (201, s\<lparr>inv_orders := (inv_orders s)(new \<mapsto> (oc_item_id b, oc_quantity b, PENDING))\<rparr>))"
| "endpoint_step lim new (PostOrderAction i a) s = act_on_order a i s"
| "endpoint_step lim new (GetItem i) s = (found (inv_stock s i), s)"
| "endpoint_step lim new (GetOrder i) s = (found (inv_orders s i), s)"
| "endpoint_step lim new (GetStock i) s = (if lim then found (inv_stock s i) else 429, s)"
| "endpoint_step lim new (GetStockMovements i) s = (found (inv_stock s i), s)"
| "endpoint_step lim new (GetAnalyticsSummary d) s = (in_period d, s)"
| "endpoint_step lim new (GetAnalyticsOrders d) s = (in_period d, s)"
| "endpoint_step lim new (GetAnalyticsMovements d) s = (in_period d, s)"
| "endpoint_step lim new _ s = (200, s)"

text \<open>The guard: with authentication on, a write needs a configured key.\<close>

definition refused_code :: "bool \<Rightarrow> string set \<Rightarrow> http_request \<Rightarrow> int option" where
  "refused_code require keys q =
     (if \<not> require \<or> \<not> writes (req_endpoint q) then None
      else case req_api_key q of
             None \<Rightarrow> Some 401
           | Some k \<Rightarrow> if k = [] then Some 401 else if k \<notin> keys then Some 403 else None)"

definition request_step ::
  "bool \<Rightarrow> string set \<Rightarrow> bool \<Rightarrow> uuid \<Rightarrow> http_request \<Rightarrow> inventory \<Rightarrow> int \<times> inventory" where
  "request_step require keys lim new q s =
     (case refused_code require keys q of
        Some code \<Rightarrow> (code, s)
      | None \<Rightarrow> endpoint_step lim new (req_endpoint q) s)"

section \<open>When the database accepts a request\<close>

text \<open>
  What no schema validation rules out: a taken name, identifiers that \<open>uuid4\<close> has drawn before,
  values past the 32-bit columns and prices past \<open>NUMERIC(10, 2)\<close>, and sums past the digits of
  the decimal context. Such a request is answered 500 and changes nothing.
\<close>

definition movement_fits :: "'r env \<Rightarrow> nat \<Rightarrow> menu_item \<Rightarrow> int \<Rightarrow> tables \<Rightarrow> bool" where
  "movement_fits env c it d t \<longleftrightarrow>
     stock_quantity it + d < 2 ^ 31 \<and> item_version it + 1 < 2 ^ 31 \<and>
     env_uuid4 env (Suc c) \<notin> mv_id ` set (stock_movements t)"

definition sums_fit :: "tables \<Rightarrow> bool" where
  "sums_fit t \<longleftrightarrow> length (menu_items t) \<le> 10 ^ 8 \<and> length (order_rows t) \<le> 10 ^ 8"

fun fits :: "'r env \<Rightarrow> nat \<Rightarrow> endpoint \<Rightarrow> tables \<Rightarrow> bool" where
  "fits env c (PostItem b) t \<longleftrightarrow>
     ic_name b \<notin> item_name ` set (menu_items t) \<and> ic_stock_quantity b < 2 ^ 31 \<and>
     ic_low_stock_threshold b < 2 ^ 31 \<and> price_cents b < 10 ^ 10 \<and>
     env_uuid4 env c \<notin> item_id ` set (menu_items t) \<and>
     env_uuid4 env (c + 3) \<notin> mv_id ` set (stock_movements t)"
| "fits env c (PatchItemStock i b) t \<longleftrightarrow>
     (case find_item i t of None \<Rightarrow> True | Some it \<Rightarrow> movement_fits env c it (sa_delta b) t)"
| "fits env c (PostOrder b) t \<longleftrightarrow>
     oc_quantity b < 2 ^ 31 \<and> env_uuid4 env c \<notin> order_id ` set (order_rows t)"
| "fits env c (PostOrderAction i a) t \<longleftrightarrow>
     (case find_order i t of None \<Rightarrow> True
      | Some r \<Rightarrow>
          (case find_item (order_item_id r) t of None \<Rightarrow> True
           | Some it \<Rightarrow> movement_fits env c it (stock_delta a (status r) (quantity r)) t))"
| "fits env c (GetAnalyticsSummary d) t \<longleftrightarrow> sums_fit t"
| "fits env c GetAnalyticsStock t \<longleftrightarrow> sums_fit t"
| "fits env c (GetAnalyticsOrders d) t \<longleftrightarrow> sums_fit t"
| "fits env c _ t \<longleftrightarrow> True"

end
