(* ===== verification/Inventory_Handlers.thy ===== *)
theory Inventory_Handlers
  imports Inventory_Spec Report_Properties
begin

text \<open>
  Every handler of the application, run from an audited state inside its transaction, meets the
  abstract step of its endpoint: what it will commit and answer is the step, or a statement has
  been refused that \<open>fits\<close> does not promise to be accepted.
\<close>

section \<open>A handler meets its step\<close>

text \<open>The status code that the outcome of a handler leads to.\<close>

definition status_of :: "endpoint \<Rightarrow> exn + body \<Rightarrow> int" where
  "status_of e r =
     (case r of
        Inr b \<Rightarrow> success_status e
      | Inl x \<Rightarrow> (case error_response x of Inr response \<Rightarrow> resp_status response | Inl _ \<Rightarrow> 500))"

definition meets :: "endpoint \<Rightarrow> tables \<Rightarrow> int \<times> inventory \<Rightarrow> exn + body \<Rightarrow> 'r world \<Rightarrow> bool" where
  "meets e t out r w \<longleftrightarrow>
     db w = t \<and> \<not> broken (sess w) \<and> quiet (pending (sess w)) \<and>
     out = (status_of e r, inventory_of (if committing r then view w else t))"

definition fails :: "tables \<Rightarrow> exn + body \<Rightarrow> 'r world \<Rightarrow> bool" where
  "fails t r w \<longleftrightarrow>
     db w = t \<and> (\<exists>x. r = Inl x \<and> (broken (sess w) \<and> is_HTTPException x \<or> error_response x = Inl x))"

definition handles :: "bool \<Rightarrow> endpoint \<Rightarrow> tables \<Rightarrow> int \<times> inventory \<Rightarrow> exn + body \<Rightarrow> 'r world \<Rightarrow> bool" where
  "handles ok e t out r w \<longleftrightarrow> meets e t out r w \<or> \<not> ok \<and> fails t r w"

lemma db_ticks [simp]: "db ((tick ^^ n) w) = db w"
  by (induction n) simp_all

lemma statement_fault_response: "statement_fault t s = Some e \<Longrightarrow> error_response e = Inl e"
  by (cases s) (auto simp: statement_fault.simps Let_def split: if_splits option.splits)

lemma change_fault_response: "change_fault env it d new w = Some e \<Longrightarrow> error_response e = Inl e"
  by (auto simp: change_fault_def Let_def statement_fault_response split: option.splits)

lemma error_response_kept:
  assumes "error_response e = Inl e" and "\<not> out_of_place e" and "\<And>resource rid. e \<noteq> NotFoundError resource rid"
    and "\<And>i n k. e \<noteq> InsufficientStockError i n k" and "\<And>s t. e \<noteq> InvalidTransitionError s t"
  shows "transition_error e = e" and "adjust_error e = e" and "not_found_error e = e"
  using assms by (cases e; simp)+

lemma statement_fault_kind:
  "statement_fault t s = Some e \<Longrightarrow> e = DBAPIError \<or> e = IntegrityError \<or> e = StaleDataError"
  by (cases s) (auto simp: statement_fault.simps Let_def split: if_splits option.splits)

lemma change_fault_kind:
  "change_fault env it d new w = Some e \<Longrightarrow> e = DBAPIError \<or> e = IntegrityError \<or> e = StaleDataError"
  by (auto simp: change_fault_def Let_def split: option.splits dest: statement_fault_kind)

section \<open>The abstraction of what is committed\<close>

lemma inventory_status:
  assumes "find_order oid t = Some r"
  shows "inventory_of (apply_statement (UpdateOrder oid st v now) t) =
    (inventory_of t)\<lparr>inv_orders := (inv_orders (inventory_of t))(oid \<mapsto> (order_item_id r, quantity r, st))\<rparr>"
  using assms by (intro inventory_eqI) (simp_all add: stock_of_statement table_simps order_summary_def)

lemma inventory_change:
  assumes "find_item (item_id it) t = Some it"
  shows "inventory_of (apply_statement (InsertMovement m) (apply_statement (stock_update it (changed_item it d) now) t)) =
    (inventory_of t)\<lparr>inv_stock := (inv_stock (inventory_of t))(item_id it \<mapsto> stock_quantity it + d)\<rparr>"
  by (intro inventory_eqI)
     (simp_all add: stock_of_statement stock_of_change [OF assms] table_simps)

lemma inventory_move:
  assumes "find_order oid t = Some r" and "find_item (item_id it) t = Some it"
  shows "inventory_of (apply_statement (UpdateOrder oid st v now') (apply_statement (InsertMovement m)
      (apply_statement (stock_update it (changed_item it d) now) t))) =
    (inventory_of t)
      \<lparr>inv_stock := (inv_stock (inventory_of t))(item_id it \<mapsto> stock_quantity it + d),
       inv_orders := (inv_orders (inventory_of t))(oid \<mapsto> (order_item_id r, quantity r, st))\<rparr>"
proof -
  have "find_order oid (apply_statement (InsertMovement m) (apply_statement (stock_update it (changed_item it d) now) t)) =
      Some r"
    using assms(1) by (simp add: table_simps)
  from inventory_status [OF this] show ?thesis by (simp add: inventory_change [OF assms(2)])
qed

lemma inventory_same_stock:
  assumes "stock_of t i = Some k"
  shows "(inv_stock (inventory_of t))(i \<mapsto> k) = stock_of t"
  using assms by auto

lemma inventory_created:
  assumes "statement_fault t (InsertItem it) = None"
  shows "inventory_of (apply_statement (InsertMovement m) (apply_statement (InsertItem it) t)) =
    (inventory_of t)\<lparr>inv_stock := (inv_stock (inventory_of t))(item_id it \<mapsto> stock_quantity it)\<rparr>"
  by (rule inventory_eqI)
     (simp_all add: stock_of_def find_item_insert_movement [OF assms], simp_all add: table_simps)

lemma inventory_placed:
  assumes "statement_fault t (InsertOrder r) = None"
  shows "inventory_of (apply_statement (InsertOrder r) t) =
    (inventory_of t)\<lparr>inv_orders := (inv_orders (inventory_of t))(order_id r \<mapsto> order_summary r)\<rparr>"
proof (rule inventory_eqI)
  have "find_order (order_id r) t = None"
    using assms by (simp add: statement_fault.simps find_order_None_iff split: if_splits)
  then show "inv_orders (inventory_of (apply_statement (InsertOrder r) t)) i =
      inv_orders ((inventory_of t)\<lparr>inv_orders := (inv_orders (inventory_of t))(order_id r \<mapsto> order_summary r)\<rparr>) i" for i
    by (simp add: table_simps split: option.split)
qed (simp add: stock_of_statement)

section \<open>Transitions of orders\<close>

lemma next_status_transition:
  "next_status a st = (if can_transition_to st (action_target a) then Some (action_target a) else None)"
  by (cases a; cases st) simp_all

lemma handles_returned:
  assumes "m w = (r, w1)" and "meets e t out r w1"
  shows "wp m (handles ok e t out) w"
  using assms by (simp add: wp_def handles_def)

lemma transition_raised:
  assumes "service_method env (get_cache env) a oid w = (Inl x, w1)"
    and "transition_error x = HTTPException code detail"
    and "db w1 = t" and "\<not> broken (sess w1)" and "quiet (pending (sess w1))" and "inventory_of (view w1) = s"
  shows "wp (transition_router env a oid) (handles ok (PostOrderAction oid a) t (code, s)) w"
  by (rule handles_returned [where m = "transition_router env a oid", OF transition_router_raises [OF assms(1)]])
     (use assms(2-6) in \<open>simp add: meets_def status_of_def committing_def json_response_def\<close>)

lemma transition_returned:
  assumes "service_method env (get_cache env) a oid w = (Inr (Some r), w1)"
    and "db w1 = t" and "\<not> broken (sess w1)" and "quiet (pending (sess w1))" and "inventory_of (view w1) = s"
  shows "wp (transition_router env a oid) (handles ok (PostOrderAction oid a) t (200, s)) w"
  by (rule handles_returned [where m = "transition_router env a oid", OF transition_router_returns [OF assms(1)]])
     (use assms(2-5) in \<open>simp add: meets_def status_of_def committing_def\<close>)

text \<open>A statement of the service that the database refuses.\<close>

lemma transition_failed:
  assumes "\<And>Q. (\<And>n. Q (Inl x) ((tick ^^ n) (break_session w))) \<Longrightarrow> wp (service_method env (get_cache env) a oid) Q w"
    and "x = DBAPIError \<or> x = IntegrityError \<or> x = StaleDataError" and "\<not> ok"
  shows "wp (transition_router env a oid) (handles ok e (db w) out) w"
  unfolding transition_router_def wp_and_then wp_mapped
  by (rule assms(1)) (use assms(2,3) in \<open>auto simp: handles_def fails_def\<close>)

lemma transition_moves_stock:
  assumes rd: "ready env (get_cache env) w"
    and r: "find_order oid (db w) = Some r" and it: "find_item (order_item_id r) (db w) = Some it"
    and d: "0 \<le> stock_quantity it + d"
    and new: "\<And>mid created. mv_id (new mid created) = mid"
      "\<And>mid created. records_change it d (Some oid) kind (new mid created)"
    and success: "change_fault env it d new w = None \<Longrightarrow>
      service_method env (get_cache env) a oid w = (Inr (Some (moved_order st now r)),
        tick (log_statement (UpdateOrder oid st (order_version r + 1) now) (stock_changed env (get_cache env) it d new w)))"
    and fault: "\<And>x Q. change_fault env it d new w = Some x \<Longrightarrow>
      (\<And>n. Q (Inl x) ((tick ^^ n) (break_session w))) \<Longrightarrow> wp (service_method env (get_cache env) a oid) Q w"
  shows "wp (transition_router env a oid) (handles (movement_fits env (calls w) it d (db w)) (PostOrderAction oid a) (db w)
    (200, (inventory_of (db w))
      \<lparr>inv_stock := (inv_stock (inventory_of (db w)))(order_item_id r \<mapsto> stock_quantity it + d),
       inv_orders := (inv_orders (inventory_of (db w)))(oid \<mapsto> (order_item_id r, quantity r, st))\<rparr>)) w"
proof (cases "change_fault env it d new w")
  case None
  have item: "find_item (item_id it) (db w) = Some it" "item_id it = order_item_id r"
    using it found_item_id by metis+
  show ?thesis
    by (rule transition_returned [OF success [OF None]])
       (use readyD(2-4) [OF rd] inventory_move [OF r item(1)] item(2) in \<open>simp_all add: view_stock_changed\<close>)
next
  case (Some x)
  have "\<not> movement_fits env (calls w) it d (db w)"
  proof
    assume "movement_fits env (calls w) it d (db w)"
    then have "change_fault env it d new w = None"
      using readyD(4,5) [OF rd] r it d new found_item_id [OF it]
      by (intro change_accepted [where oid = "Some oid" and kind = kind]) (simp_all add: audit_okD(1) movement_fits_def)
    with Some show False by simp
  qed
  from transition_failed [OF fault [OF Some] change_fault_kind [OF Some] this] show ?thesis .
qed

lemma transition_keeps_stock:
  assumes rd: "ready env (get_cache env) w"
    and r: "find_order oid (db w) = Some r" and it: "find_item (order_item_id r) (db w) = Some it"
    and m: "service_method env (get_cache env) a oid w = (Inr (Some (moved_order st now r)),
      tick (log_statement (UpdateOrder oid st (order_version r + 1) now) w))"
  shows "wp (transition_router env a oid) (handles ok (PostOrderAction oid a) (db w)
    (200, (inventory_of (db w))
      \<lparr>inv_stock := (inv_stock (inventory_of (db w)))(order_item_id r \<mapsto> stock_quantity it),
       inv_orders := (inv_orders (inventory_of (db w)))(oid \<mapsto> (order_item_id r, quantity r, st))\<rparr>)) w"
proof -
  have "stock_of (db w) (order_item_id r) = Some (stock_quantity it)" using it by (simp add: stock_of_def)
  from inventory_same_stock [OF this] show ?thesis
    by (intro transition_returned [OF m])
       (use readyD(2-4) [OF rd] in \<open>simp_all add: inventory_status [OF r]\<close>)
qed

text \<open>The facts about an order that is found, as the methods load it.\<close>

lemma loaded_order:
  assumes "ready env cache w" and "find_order oid (db w) = Some r"
  obtains it where "find_item (order_item_id r) (db w) = Some it" and "find_order oid (view w) = Some r"
    and "find_item (order_item_id r) (view w) = Some it" and "int4 (order_version r + 1)"
    and "stock_of (db w) (order_item_id r) = Some (stock_quantity it)"
    and "0 \<le> stock_quantity it" and "0 < quantity r"
proof -
  obtain it where "find_item (order_item_id r) (db w) = Some it" "0 < quantity r" "0 \<le> stock_quantity it"
      "trail_for (status r) (quantity r) (order_version r) (order_trail oid (db w))"
    by (rule audit_find [OF readyD(5) [OF assms(1)] assms(2)])
  with that assms readyD(4) [OF assms(1)] trail_for_version show thesis by (simp add: stock_of_def)
qed

lemma confirm_handles:
  assumes rd: "ready env (get_cache env) w" and r: "find_order oid (db w) = Some r" and "status r = PENDING"
  shows "wp (transition_router env ConfirmAction oid) (handles (fits env (calls w) (PostOrderAction oid ConfirmAction) (db w))
    (PostOrderAction oid ConfirmAction) (db w) (act_on_order ConfirmAction oid (inventory_of (db w)))) w"
proof (rule loaded_order [OF rd r])
  fix it
  assume it: "find_item (order_item_id r) (db w) = Some it" and order: "find_order oid (view w) = Some r"
    and item: "find_item (order_item_id r) (view w) = Some it" and v: "int4 (order_version r + 1)"
    and k: "stock_of (db w) (order_item_id r) = Some (stock_quantity it)"
  note facts = readyD [OF rd]
  show ?thesis
  proof (cases "stock_quantity it < quantity r")
    case True
    have "service_method env (get_cache env) ConfirmAction oid w =
        (Inl (InsufficientStockError (order_item_id r) (quantity r) (stock_quantity it)),
         tick (log_statement (UpdateOrder oid REJECTED (order_version r + 1) (env_utc_now env (calls w))) w))"
      using confirm_order_insufficient [OF order facts(2) assms(3) item True v] by simp
    then show ?thesis
      using True facts(2-4) assms(3)
      by (simp add: act_on_order_def r order_summary_def k transition_raised inventory_status [OF r])
  next
    case False
    then have q: "quantity r \<le> stock_quantity it" by simp
    have "wp (transition_router env ConfirmAction oid) (handles (movement_fits env (calls w) it (- quantity r) (db w))
        (PostOrderAction oid ConfirmAction) (db w) (200, (inventory_of (db w))
          \<lparr>inv_stock := (inv_stock (inventory_of (db w)))(order_item_id r \<mapsto> stock_quantity it + - quantity r),
           inv_orders := (inv_orders (inventory_of (db w)))(oid \<mapsto> (order_item_id r, quantity r, CONFIRMED))\<rparr>)) w"
      using confirm_order_deducts [OF order facts(2) assms(3) item q facts(3) _ v]
        confirm_order_fault [OF order facts(2) assms(3) item q facts(3)] q
      by (intro transition_moves_stock [OF rd r it, where new = "deduction oid r it" and kind = DEDUCTION])
         (simp_all add: deduction_def change_record_def stock_movement_init_def records_change_def)
    with False assms(3) show ?thesis by (simp add: act_on_order_def r order_summary_def k it)
  qed
qed

lemma cancel_handles:
  assumes rd: "ready env (get_cache env) w" and r: "find_order oid (db w) = Some r"
    and held: "status r = CONFIRMED \<or> status r = SHIPPED"
  shows "wp (transition_router env CancelAction oid) (handles (fits env (calls w) (PostOrderAction oid CancelAction) (db w))
    (PostOrderAction oid CancelAction) (db w) (act_on_order CancelAction oid (inventory_of (db w)))) w"
proof (rule loaded_order [OF rd r])
  fix it
  assume it: "find_item (order_item_id r) (db w) = Some it" and order: "find_order oid (view w) = Some r"
    and item: "find_item (order_item_id r) (view w) = Some it" and v: "int4 (order_version r + 1)"
    and k: "stock_of (db w) (order_item_id r) = Some (stock_quantity it)"
    and pos: "0 \<le> stock_quantity it" "0 < quantity r"
  note facts = readyD [OF rd]
  have "wp (transition_router env CancelAction oid) (handles (movement_fits env (calls w) it (quantity r) (db w))
      (PostOrderAction oid CancelAction) (db w) (200, (inventory_of (db w))
        \<lparr>inv_stock := (inv_stock (inventory_of (db w)))(order_item_id r \<mapsto> stock_quantity it + quantity r),
         inv_orders := (inv_orders (inventory_of (db w)))(oid \<mapsto> (order_item_id r, quantity r, CANCELLED))\<rparr>)) w"
    using cancel_order_restores [OF order facts(2) held item facts(3) _ v]
      cancel_order_fault [OF order facts(2) held item facts(3)] pos
    by (intro transition_moves_stock [OF rd r it, where new = "restoration oid r it" and kind = RESTORATION])
       (simp_all add: restoration_def change_record_def stock_movement_init_def records_change_def)
  with held pos show ?thesis by (auto simp: act_on_order_def r order_summary_def k it)
qed

text \<open>Shipping, delivering, and cancelling what was never confirmed.\<close>

lemma quiet_move_handles:
  assumes rd: "ready env (get_cache env) w" and r: "find_order oid (db w) = Some r"
    and "a = ShipAction \<and> status r = CONFIRMED \<or> a = DeliverAction \<and> status r = SHIPPED \<or>
      a = CancelAction \<and> status r = PENDING"
  shows "wp (transition_router env a oid) (handles ok (PostOrderAction oid a) (db w)
    (act_on_order a oid (inventory_of (db w)))) w"
proof (rule loaded_order [OF rd r])
  fix it
  assume it: "find_item (order_item_id r) (db w) = Some it" and order: "find_order oid (view w) = Some r"
    and v: "int4 (order_version r + 1)" and k: "stock_of (db w) (order_item_id r) = Some (stock_quantity it)"
    and pos: "0 \<le> stock_quantity it"
  let ?now = "env_utc_now env (calls w)" and ?st = "action_target a"
  note facts = readyD [OF rd]
  have "service_method env (get_cache env) a oid w = (Inr (Some (moved_order ?st ?now r)),
      tick (log_statement (UpdateOrder oid ?st (order_version r + 1) ?now) w))"
    using transition_moves [OF order facts(2) _ v] cancel_order_pending [OF order facts(2) _ v] assms(3)
    by (auto simp: ship_order_def deliver_order_def)
  from transition_keeps_stock [OF rd r it this] assms(3) pos show ?thesis
    by (auto simp: act_on_order_def r order_summary_def k it)
qed

lemma transition_handles:
  assumes rd: "ready env (get_cache env) w"
  shows "wp (transition_router env a oid) (handles (fits env (calls w) (PostOrderAction oid a) (db w))
    (PostOrderAction oid a) (db w) (act_on_order a oid (inventory_of (db w)))) w"
proof (cases "find_order oid (db w)")
  case None
  then show ?thesis
    using service_method_missing [of oid w env "get_cache env" a] readyD(2-4) [OF rd]
    by (simp add: act_on_order_def transition_raised)
next
  case (Some r)
  note moves = confirm_handles [OF rd Some] cancel_handles [OF rd Some] quiet_move_handles [OF rd Some, of a]
  show ?thesis
  proof (cases "can_transition_to (status r) (action_target a)")
    case True
    with moves show ?thesis by (cases a; cases "status r") (simp_all del: fits.simps)
  next
    case False
    with service_method_refuses [of oid w r a env "get_cache env"] Some readyD(2-4) [OF rd] show ?thesis
      by (simp add: act_on_order_def order_summary_def next_status_transition transition_raised)
  qed
qed

section \<open>Items, placed orders and reads\<close>

lemma handles_create:
  assumes rd: "ready env (get_cache env) w"
  shows "wp (api_create_item env b) (handles (fits env (calls w) (PostItem b) (db w)) (PostItem b) (db w)
    (endpoint_step lim (env_uuid4 env (calls w)) (PostItem b) (inventory_of (db w)))) w"
proof (cases "item_create_valid b")
  case False
  then show ?thesis
    using readyD(2-4) [OF rd]
    by (simp add: api_create_item_def validated_def wp_raise_exn handles_def meets_def status_of_def committing_def
        json_response_def)
next
  case True
  note facts = readyD [OF rd]
  let ?it = "item_of_body env b w"
  let ?m = "first_movement env ?it w"
  define ok where "ok = fits env (calls w) (PostItem b) (db w)"
  have row: "?it = new_item env (ic_name b) (price_cents b) (ic_stock_quantity b) (ic_description b)
      (ic_low_stock_threshold b) w"
    by (simp add: item_of_body_def)
  have accepted: "statement_fault (db w) (InsertItem ?it) = None"
      "statement_fault (apply_statement (InsertItem ?it) (db w)) (InsertMovement ?m) = None"
    if ok
    using create_accepted [of b "db w" env w] True that by (simp_all add: ok_def)
  have "item_id ?it = env_uuid4 env (calls w)" "stock_quantity ?it = ic_stock_quantity b" by (simp_all add: row)
  note created = inventory_created [of "db w" ?it ?m, unfolded this]
  show ?thesis
    using True facts(2-4) accepted created statement_fault_kind [of "db w" "InsertItem ?it"]
      statement_fault_kind [of "apply_statement (InsertItem ?it) (db w)" "InsertMovement ?m"]
    unfolding api_create_item_def validated_def wp_as_body wp_mapped wp_if wp_create_item [OF facts(2,3) row refl]
      ok_def [symmetric]
    by (auto simp: handles_def meets_def fails_def status_of_def committing_def split: option.split)
qed

lemma handles_place:
  assumes rd: "ready env (get_cache env) w"
  shows "wp (api_place_order env b) (handles (fits env (calls w) (PostOrder b) (db w)) (PostOrder b) (db w)
    (endpoint_step lim (env_uuid4 env (calls w)) (PostOrder b) (inventory_of (db w)))) w"
proof (cases "order_create_valid b")
  case False
  then show ?thesis
    using readyD(2-4) [OF rd]
    by (simp add: api_place_order_def validated_def wp_raise_exn handles_def meets_def status_of_def committing_def
        json_response_def)
next
  case True
  note facts = readyD [OF rd]
  let ?r = "new_order env (oc_item_id b) (oc_quantity b) (oc_customer_ref b) w"
  show ?thesis
  proof (cases "find_item (oc_item_id b) (db w)")
    case None
    then have "place_order env (oc_item_id b) (oc_quantity b) (oc_customer_ref b) w =
        (Inl (NotFoundError ''MenuItem'' (oc_item_id b)), w)"
      using facts(2,4) by (intro place_order_missing) simp_all
    with None True facts(2-4) show ?thesis
      by (simp add: api_place_order_def validated_def as_body_def mapped_def and_then_def catching_def raise_exn_def
          wp_def handles_def meets_def status_of_def committing_def json_response_def stock_of_def)
  next
    case (Some it)
    then have item: "find_item (oc_item_id b) (view w) = Some it" using facts(4) by simp
    define ok where "ok = fits env (calls w) (PostOrder b) (db w)"
    have accepted: "statement_fault (db w) (InsertOrder ?r) = None"
      if ok
      using that by (intro place_accepted [OF True _ Some]) (simp_all add: ok_def)
    have "order_summary ?r = (oc_item_id b, oc_quantity b, PENDING)" by (simp add: order_summary_def)
    note placed = inventory_placed [of "db w" ?r, unfolded this]
    show ?thesis
      using True Some facts(2-4) accepted placed statement_fault_kind [of "db w" "InsertOrder ?r"]
      unfolding api_place_order_def validated_def wp_as_body wp_mapped wp_if wp_place_order [OF facts(2,3) item refl]
        ok_def [symmetric]
      by (auto simp: handles_def meets_def fails_def status_of_def committing_def stock_of_def split: option.split)
  qed
qed

lemma wp_api_adjust:
  assumes "item_stock_adjust_valid b"
  shows "wp (api_adjust_stock env iid b) Q w = wp (adjust_stock env (get_cache env) iid (sa_delta b) (sa_reason b))
      (\<lambda>r w'. case r of Inl e \<Rightarrow> Q (Inl (adjust_error e)) w' | Inr it \<Rightarrow> Q (Inr (ItemBody (item_response it))) w') w"
  unfolding api_adjust_stock_def validated_def wp_if wp_as_body wp_mapped
  using assms by (simp add: wp_def split: prod.split sum.split)

lemma handles_adjust_change:
  assumes rd: "ready env (get_cache env) w" and valid: "item_stock_adjust_valid b"
    and it: "find_item iid (db w) = Some it" and pos: "0 \<le> stock_quantity it + sa_delta b"
  shows "wp (api_adjust_stock env iid b) (handles (fits env (calls w) (PatchItemStock iid b) (db w)) (PatchItemStock iid b)
    (db w) (endpoint_step lim new (PatchItemStock iid b) (inventory_of (db w)))) w"
proof -
  note facts = readyD [OF rd]
  have item: "find_item iid (view w) = Some it" "item_id it = iid" using it facts(4) found_item_id by auto
  let ?new = "adjustment it (sa_delta b) (sa_reason b)"
  define ok where "ok = fits env (calls w) (PatchItemStock iid b) (db w)"
  have step: "endpoint_step lim new (PatchItemStock iid b) (inventory_of (db w)) = (200, (inventory_of (db w))
      \<lparr>inv_stock := (inv_stock (inventory_of (db w)))(item_id it \<mapsto> stock_quantity it + sa_delta b)\<rparr>)"
    using valid pos it item(2) by (simp add: change_stock_def stock_of_def)
  have accepted: "change_fault env it (sa_delta b) ?new w = None" if ok
    using that facts(4,5) it item pos
    by (intro change_accepted [where oid = None and kind = ADJUSTMENT])
       (simp_all add: audit_okD(1) ok_def movement_fits_def adjustment_def change_record_def stock_movement_init_def records_change_def)
  show ?thesis
  proof (cases "change_fault env it (sa_delta b) ?new w")
    case None
    have "find_item (item_id it) (db w) = Some it" using it item(2) by simp
    from inventory_change [OF this] show ?thesis
      unfolding wp_api_adjust [OF valid] step
      using adjust_stock_adjusts [OF item(1) facts(2) pos facts(3) None, of "get_cache env"] facts(2-4)
      by (simp add: wp_def handles_def meets_def status_of_def committing_def view_stock_changed)
  next
    case (Some x)
    with accepted have "\<not> ok" by auto
    with change_fault_kind [OF Some] show ?thesis
      unfolding wp_api_adjust [OF valid] ok_def [symmetric]
      by (intro adjust_stock_fault [OF item(1) facts(2) pos facts(3) Some]) (auto simp: handles_def fails_def)
  qed
qed

lemma handles_adjust:
  assumes rd: "ready env (get_cache env) w"
  shows "wp (api_adjust_stock env iid b) (handles (fits env (calls w) (PatchItemStock iid b) (db w)) (PatchItemStock iid b)
    (db w) (endpoint_step lim new (PatchItemStock iid b) (inventory_of (db w)))) w"
proof (cases "item_stock_adjust_valid b")
  case False
  then show ?thesis
    using readyD(2-4) [OF rd]
    by (simp add: api_adjust_stock_def validated_def wp_raise_exn handles_def meets_def status_of_def committing_def
        json_response_def)
next
  case valid: True
  note facts = readyD [OF rd]
  show ?thesis
  proof (cases "find_item iid (db w)")
    case None
    then show ?thesis
      unfolding wp_api_adjust [OF valid]
      using valid adjust_stock_missing [of iid w env "get_cache env" "sa_delta b" "sa_reason b"] facts(2-4)
      by (simp add: wp_def handles_def meets_def status_of_def committing_def json_response_def change_stock_def
          stock_of_def)
  next
    case (Some it)
    show ?thesis
    proof (cases "stock_quantity it + sa_delta b < 0")
      case True
      have item: "find_item iid (view w) = Some it" using Some facts(4) by simp
      show ?thesis
        unfolding wp_api_adjust [OF valid]
        using valid Some True adjust_stock_insufficient [OF item facts(2) True, of env "get_cache env" "sa_reason b"] facts(2-4)
        by (simp add: wp_def handles_def meets_def status_of_def committing_def json_response_def change_stock_def
            stock_of_def)
    qed (use handles_adjust_change [OF rd valid Some] in simp)
  qed
qed

text \<open>A read answers a code and commits what it found.\<close>

definition answers :: "bool \<Rightarrow> endpoint \<Rightarrow> int \<Rightarrow> exn + body \<Rightarrow> bool" where
  "answers ok e code r \<longleftrightarrow> status_of e r = code \<or> \<not> ok \<and> (\<exists>x. r = Inl x \<and> error_response x = Inl x)"

lemma handles_read:
  assumes rd: "ready env (get_cache env) w" and "\<not> writes e"
    and "wp (handler env lim e) (\<lambda>r _. answers ok e code r) w"
  shows "wp (handler env lim e) (handles ok e (db w) (code, inventory_of (db w))) w"
proof (rule wp_mono [OF wp_conj [OF read_handler_untouched [OF rd assms(2)] assms(3)]])
  fix r and w' :: "'a world"
  assume "untouched w w' \<and> answers ok e code r"
  moreover from this have "view w' = db w"
    using readyD(4) [OF rd] by (simp add: untouched_def view_def)
  ultimately show "handles ok e (db w) (code, inventory_of (db w)) r w'"
    using readyD(2) [OF rd]
    by (auto simp: untouched_def answers_def handles_def meets_def fails_def)
qed

lemma answers_simps [simp]:
  "answers ok e code (Inr b) \<longleftrightarrow> success_status e = code"
  "answers ok e code (Inl (HTTPException c detail)) \<longleftrightarrow> c = code"
  "answers ok e code (Inl RequestValidationError) \<longleftrightarrow> code = 422"
  "answers ok e code (Inl RateLimitExceeded) \<longleftrightarrow> code = 429"
  "answers ok e code (Inl InvalidOperation) \<longleftrightarrow> code = 500 \<or> \<not> ok"
  by (auto simp: answers_def status_of_def json_response_def)

lemma summary_sums_fit:
  assumes "schema_ok t" and "sums_fit t"
  shows "dec_quantize2 (coalesce_sum_numeric (\<lambda>it. item_price it * stock_quantity it) (menu_items t)) =
      Some (money (sum_list (map (\<lambda>it. item_price it * stock_quantity it) (menu_items t))))"
    and "dec_quantize2 (order_value_sum (orders_joined st since t)) = Some (money (order_value st since t))"
  using assms stock_value_bound [of t]
  by (auto simp: sums_fit_def intro: coalesce_sum_numeric_quantized order_value_sum_exact)

text \<open>The code of each read.\<close>

lemma read_answers:
  assumes rd: "ready env (get_cache env) w" and "\<not> writes e"
  shows "wp (handler env lim e) (\<lambda>r _. answers (fits env (calls w) e (db w)) e
    (fst (endpoint_step lim new e (inventory_of (db w)))) r) w"
proof -
  note facts = readyD [OF rd]
  have sums: "dec_quantize2 (coalesce_sum_numeric (\<lambda>it. item_price it * stock_quantity it) (menu_items (db w))) = None \<Longrightarrow>
        \<not> sums_fit (db w)"
      "dec_quantize2 (order_value_sum (orders_joined st since (db w))) = None \<Longrightarrow> \<not> sums_fit (db w)" for st since
    using summary_sums_fit [OF audit_okD(1) [OF facts(5)]] by auto
  note status = found_def in_period_def stock_of_def facts(2,4) wp_as_body wp_mapped validated_def
  show ?thesis
  proof (cases e)
    case (GetStock i)
    then show ?thesis
      by (auto simp: api_get_stock_def wp_raise_exn wp_get_stock [OF facts(2)] Let_def status split: option.split)
  next
    case (GetOrder i)
    show ?thesis
    proof (cases "find_order i (db w)")
      case (Some r)
      obtain it where it: "find_item (order_item_id r) (db w) = Some it" by (rule audit_find [OF facts(5) Some])
      from Some it order_detail_sum [OF audit_okD(1) [OF facts(5)] Some it] GetOrder show ?thesis
        by (simp add: api_get_order_def get_order_detail_def wp_rules Let_def status)
    qed (simp add: GetOrder api_get_order_def get_order_detail_def wp_rules status)
  qed (use assms(2) in \<open>auto dest: sums simp: handler_defs get_item_def list_items_def get_movements_def list_orders_def
      get_low_stock_items_def get_stock_analytics_def get_order_analytics_def get_movement_analytics_def wp_rules status
      split: option.split\<close>)
qed

lemma handler_handles:
  assumes rd: "ready env (get_cache env) w"
  shows "wp (handler env lim e) (handles (fits env (calls w) e (db w)) e (db w)
    (endpoint_step lim (env_uuid4 env (calls w)) e (inventory_of (db w)))) w"
proof (cases "writes e")
  case True
  with handles_create [OF rd] handles_place [OF rd] handles_adjust [OF rd] transition_handles [OF rd] show ?thesis
    by (cases e) (simp_all del: fits.simps)
next
  case False
  have "snd (endpoint_step lim (env_uuid4 env (calls w)) e s) = s" for s
    using False by (cases e) simp_all
  with handles_read [OF rd False read_answers [OF rd False]] show ?thesis by (metis prod.collapse)
qed

end
