(* ===== verification/Inventory_Refinement.thy ===== *)
theory Inventory_Refinement
  imports Inventory_Handlers
begin

text \<open>
  The application refines the abstract inventory of \<open>Inventory_Spec\<close>: request by request, over
  whole runs, and with what follows for quantities that no column can hold.
\<close>

section \<open>The application refines the abstract steps\<close>

lemma get_db_meets:
  assumes "h (open_session w) = (r, w1)" and "meets e (db w) out r w1"
  shows "wp (get_db env h) (\<lambda>r' w'. r' = r \<and> inventory_of (db w') = snd out) w"
  using assms
  by (cases r) (simp_all add: wp_get_db wp_rules wp_result [of h] meets_def wp_flush_quiet committing_def)

lemma get_db_fails:
  assumes "h (open_session w) = (r, w1)" and "fails (db w) r w1"
  shows "wp (get_db env h) (\<lambda>r' w'. (\<exists>y. r' = Inl y \<and> error_response y = Inl y) \<and> db w' = db w) w"
proof -
  obtain x where x: "r = Inl x" "db w1 = db w" "broken (sess w1) \<and> is_HTTPException x \<or> error_response x = Inl x"
    using assms(2) by (auto simp: fails_def)
  show ?thesis
  proof (cases "is_HTTPException x")
    case True
    with x(3) have "broken (sess w1)" by (cases x) simp_all
    with True x(1,2) assms(1) show ?thesis by (simp add: wp_get_db wp_rules wp_result [of h])
  next
    case False
    with x assms(1) show ?thesis by (simp add: wp_get_db wp_rules wp_result [of h])
  qed
qed

definition final_code :: "exn + http_response \<Rightarrow> int" where
  "final_code r = (case r of Inr response \<Rightarrow> resp_status response | Inl _ \<Rightarrow> 500)"

text \<open>One answer and the tables it commits: the step, or a refused request that changes nothing.\<close>

definition refines_step :: "bool \<Rightarrow> int \<times> inventory \<Rightarrow> tables \<Rightarrow> int \<Rightarrow> tables \<Rightarrow> bool" where
  "refines_step ok out t code t' \<longleftrightarrow> (code, inventory_of t') = out \<or> \<not> ok \<and> code = 500 \<and> t' = t"

lemma router_app_refines:
  assumes "serving env w" and "router_app env lim request w = (r, w')"
  shows "refines_step (fits env (calls w) (req_endpoint request) (db w))
    (endpoint_step lim (env_uuid4 env (calls w)) (req_endpoint request) (inventory_of (db w)))
    (db w) (final_code r) (db w')"
proof -
  let ?e = "req_endpoint request"
  let ?h = "handler env lim ?e" and ?out = "endpoint_step lim (env_uuid4 env (calls w)) ?e (inventory_of (db w))"
  define ok where "ok = fits env (calls w) ?e (db w)"
  obtain a w1 where h: "?h (open_session w) = (a, w1)" by fastforce
  obtain a' where g: "get_db env ?h w = (a', w')" "r = respond (success_status ?e) a a'"
    using assms(2) h by (auto simp: router_app_def Let_def split: prod.splits)
  have "ready env (get_cache env) (open_session w)"
    using assms(1) by (intro ready_open) (simp_all add: serving_def)
  from handler_handles [OF this, of lim ?e] h have "meets ?e (db w) ?out a w1 \<or> \<not> ok \<and> fails (db w) a w1"
    by (simp add: wp_def handles_def ok_def)
  then show ?thesis
    unfolding ok_def [symmetric]
  proof (elim disjE conjE)
    assume m: "meets ?e (db w) ?out a w1"
    from get_db_meets [of ?h, OF h m, of env] g(1) have "a' = a" "inventory_of (db w') = snd ?out"
      by (simp_all add: wp_def)
    moreover have "fst ?out = status_of ?e a" using m by (simp add: meets_def)
    moreover have "final_code (respond (success_status ?e) a a) = status_of ?e a"
      by (cases a) (simp_all add: final_code_def status_of_def json_response_def)
    ultimately show "refines_step ok ?out (db w) (final_code r) (db w')"
      by (simp add: refines_step_def g(2) prod_eq_iff)
  next
    assume f: "\<not> ok" "fails (db w) a w1"
    from get_db_fails [of ?h, OF h f(2), of env] g(1) obtain y where "a' = Inl y" "error_response y = Inl y" "db w' = db w"
      by (auto simp: wp_def)
    moreover obtain x where "a = Inl x" using f(2) by (auto simp: fails_def)
    ultimately show "refines_step ok ?out (db w) (final_code r) (db w')"
      using f(1) by (simp add: refines_step_def g(2) final_code_def)
  qed
qed

lemma dispatch_refused_code:
  "dispatch require keys app request =
    (case refused_code require keys request of
       None \<Rightarrow> app request
     | Some code \<Rightarrow> done_with (json_response code (DetailBody (if code = 401 then ''Missing '' @ header_API_KEY @ '' header''
         else ''Invalid API key''))))"
proof (cases "writes (req_endpoint request)")
  case True
  then have "req_method request \<in> write_methods" "req_method request \<noteq> ''GET''"
      "\<not> list_ex (\<lambda>p. py_startswith (req_path request) p) public_prefixes"
    using writes_not_public [OF True] by (auto simp: writes_method req_method_def req_path_def write_methods_def)
  with True show ?thesis by (simp add: dispatch_def refused_code_def split: option.split)
next
  case False
  then have "req_method request = ''GET''" by (cases "req_endpoint request") (simp_all add: req_method_def)
  with False show ?thesis by (simp add: dispatch_def refused_code_def)
qed

text \<open>The step of a request that the application serves from a world: identifiers are drawn in order.\<close>

definition served_step :: "'r env \<Rightarrow> bool \<Rightarrow> http_request \<Rightarrow> 'r world \<Rightarrow> int \<times> inventory" where
  "served_step env lim request w =
     request_step (require_auth (env_settings env)) (valid_api_keys (env_settings env)) lim
       (env_uuid4 env (Suc (calls w))) request (inventory_of (db w))"

lemma serve_refines:
  assumes "serving env w" and "serve env lim request w = (response, w')"
  shows "refines_step (fits env (Suc (calls w)) (req_endpoint request) (db w)) (served_step env lim request w)
    (db w) (resp_status response) (db w')"
proof -
  let ?app = "dispatch (require_auth (env_settings env)) (valid_api_keys (env_settings env)) (router_app env lim)"
  have t: "serving env (tick w)" using assms(1) by (simp add: serving_def)
  obtain r w1 where a: "?app request (tick w) = (r, w1)" by fastforce
  have s: "resp_status response = final_code r" "db w' = db w1"
    using assms(2) a
    by (cases r; simp add: serve_def server_error_def logging_middleware_def and_then_def uuid4_def
        tick_def [symmetric] done_with_def json_response_def final_code_def; fastforce)+
  have "refines_step (fits env (Suc (calls w)) (req_endpoint request) (db w)) (served_step env lim request w)
      (db w) (final_code r) (db w1)"
  proof (cases "refused_code (require_auth (env_settings env)) (valid_api_keys (env_settings env)) request")
    case None
    then have "router_app env lim request (tick w) = (r, w1)" using a by (simp add: dispatch_refused_code)
    from router_app_refines [OF t this] show ?thesis by (simp add: served_step_def request_step_def None)
  next
    case (Some code)
    with a have "final_code r = code \<and> db w1 = db w"
      by (auto simp: dispatch_refused_code done_with_def final_code_def json_response_def)
    then show ?thesis by (simp add: served_step_def request_step_def Some refines_step_def)
  qed
  then show ?thesis by (simp add: s)
qed

text \<open>
  C4. The application refines the abstract inventory, request by request: the status code of
  the answer and the stock and orders that it commits are those of the abstract step, for every
  endpoint, with the guard; unless the database refuses a value of the request (\<open>fits\<close>), and
  then the answer may be 500 with nothing changed.
\<close>

theorem request_refines_inventory:
  assumes "cache_ok env (get_cache env)" and "audit_ok (db w)"
    and "cache_coherent (get_cache env) (db w) (redis w)"
    and "serve env lim request w = (response, w')"
  shows "(resp_status response, inventory_of (db w')) =
      request_step (require_auth (env_settings env)) (valid_api_keys (env_settings env)) lim
        (env_uuid4 env (Suc (calls w))) request (inventory_of (db w)) \<or>
    \<not> fits env (Suc (calls w)) (req_endpoint request) (db w) \<and> resp_status response = 500 \<and> db w' = db w"
  using serve_refines [OF _ assms(4)] assms(1-3)
  by (simp add: serving_def consistent_def refines_step_def served_step_def)

theorem request_refines_inventory_witness:
  "resp_status (fst (serve sample_env True
      \<lparr>req_endpoint = PostOrderAction 5 ConfirmAction, req_api_key = Some ''k1''\<rparr> (sample_world 4))) = 200 \<and>
   stock_of (db (snd (serve sample_env True
      \<lparr>req_endpoint = PostOrderAction 5 ConfirmAction, req_api_key = Some ''k1''\<rparr> (sample_world 4)))) 1 = Some 6"
proof -
  let ?q = "\<lparr>req_endpoint = PostOrderAction 5 ConfirmAction, req_api_key = Some ''k1''\<rparr>"
  have step: "request_step (require_auth sample_settings) (valid_api_keys sample_settings) True 101 ?q
      (inventory_of (sample_tables 4)) =
      (200, (inventory_of (sample_tables 4))\<lparr>inv_stock := (stock_of (sample_tables 4))(1 \<mapsto> 6),
         inv_orders := (inv_orders (inventory_of (sample_tables 4)))(5 \<mapsto> (1, 4, CONFIRMED))\<rparr>)"
    by (simp add: request_step_def refused_code_def act_on_order_def order_summary_def stock_of_def)
  have fit: "fits sample_env 1 (req_endpoint ?q) (sample_tables 4)"
    by (simp add: movement_fits_def)
  have "(resp_status (fst (serve sample_env True ?q (sample_world 4))),
      inventory_of (db (snd (serve sample_env True ?q (sample_world 4))))) =
      (200, (inventory_of (sample_tables 4))\<lparr>inv_stock := (stock_of (sample_tables 4))(1 \<mapsto> 6),
         inv_orders := (inv_orders (inventory_of (sample_tables 4)))(5 \<mapsto> (1, 4, CONFIRMED))\<rparr>)"
    using request_refines_inventory [of sample_env "sample_world 4", OF _ _ _ prod.collapse [symmetric], of True ?q]
      consistent_sample [of 4] step fit
    by (simp add: consistent_def)
  then have "resp_status (fst (serve sample_env True ?q (sample_world 4))) = 200"
      "inv_stock (inventory_of (db (snd (serve sample_env True ?q (sample_world 4))))) 1 = Some 6"
    by simp_all
  then show ?thesis by simp
qed

text \<open>
  The moments of a run: each request with the identifier that its rows would be given, and
  whether the database accepts its values at the tables it found.
\<close>

type_synonym moment = "(bool \<times> http_request) \<times> uuid \<times> bool"

fun moments :: "'r env \<Rightarrow> (bool \<times> http_request) list \<Rightarrow> 'r world \<Rightarrow> moment list" where
  "moments env [] w = []"
| "moments env (q # qs) w =
     (q, env_uuid4 env (Suc (calls w)), fits env (Suc (calls w)) (req_endpoint (snd q)) (db w))
     # moments env qs (snd (serve env (fst q) (snd q) w))"

text \<open>
  A run of the abstract inventory, with the codes of its answers: a request takes its step, or,
  where the database does not accept its values and only there, is refused without effect.
\<close>

inductive inventory_run :: "bool \<Rightarrow> string set \<Rightarrow> inventory \<Rightarrow> moment list \<Rightarrow> int list \<Rightarrow> inventory \<Rightarrow> bool"
  for require :: bool and keys :: "string set"
where
  run_ends: "inventory_run require keys s [] [] s"
| run_answers: "request_step require keys (fst q) new (snd q) s = (code, s1) \<Longrightarrow>
    inventory_run require keys s1 ms codes s2 \<Longrightarrow>
    inventory_run require keys s ((q, new, fit) # ms) (code # codes) s2"
| run_refuses: "inventory_run require keys s ms codes s2 \<Longrightarrow>
    inventory_run require keys s ((q, new, False) # ms) (500 # codes) s2"

inductive_simps inventory_run_Nil [simp]: "inventory_run require keys s [] codes s'"
inductive_simps inventory_run_Cons: "inventory_run require keys s ((q, new, fit) # ms) codes s'"

text \<open>With every request accepted, the run is one function of the requests and the identifiers.\<close>

fun inventory_steps :: "bool \<Rightarrow> string set \<Rightarrow> moment list \<Rightarrow> inventory \<Rightarrow> int list \<times> inventory" where
  "inventory_steps require keys [] s = ([], s)"
| "inventory_steps require keys ((q, new, fit) # ms) s =
     (case request_step require keys (fst q) new (snd q) s of
        (code, s1) \<Rightarrow> (case inventory_steps require keys ms s1 of (codes, s2) \<Rightarrow> (code # codes, s2)))"

definition all_fit :: "moment list \<Rightarrow> bool" where
  "all_fit ms \<longleftrightarrow> list_all (\<lambda>(q, new, fit). fit) ms"

lemma all_fit_simps [simp]: "all_fit []" "all_fit ((q, new, fit) # ms) \<longleftrightarrow> fit \<and> all_fit ms"
  by (simp_all add: all_fit_def)

lemma inventory_run_steps:
  assumes "inventory_run require keys s ms codes s'" and "all_fit ms"
  shows "inventory_steps require keys ms s = (codes, s')"
  using assms by (induction rule: inventory_run.induct) simp_all

lemma serve_all_refines:
  assumes "serving env w"
  shows "inventory_run (require_auth (env_settings env)) (valid_api_keys (env_settings env)) (inventory_of (db w))
    (moments env requests w) (map resp_status (fst (serve_all env requests w)))
    (inventory_of (db (snd (serve_all env requests w))))"
  using assms
proof (induction requests arbitrary: w)
  case (Cons q requests)
  obtain a w1 where s: "serve env (fst q) (snd q) w = (a, w1)" by fastforce
  have "serving env w1" using server_serves [OF Cons.prems, where request = "snd q" and lim = "fst q"] s by simp
  note rest = Cons.IH [OF this]
  from serve_refines [OF Cons.prems s] have
      "(resp_status a, inventory_of (db w1)) = served_step env (fst q) (snd q) w \<or>
       fits env (Suc (calls w)) (req_endpoint (snd q)) (db w) = False \<and> resp_status a = 500 \<and> db w1 = db w"
    by (auto simp: refines_step_def)
  then show ?case
    using rest by (auto simp: serve_step_def s case_prod_beta served_step_def inventory_run_Cons)
qed simp

text \<open>
  C5. Whole runs refine the abstract inventory: the codes of the responses and the stock and
  orders at the end are those of a run of the abstract steps with the identifiers that the
  service draws, in which a request is answered 500 out of turn only where the database does
  not accept its values. When it accepts those of every request, codes and inventory are one
  function of the requests and the identifiers.
\<close>

theorem runs_refine_inventory:
  assumes "cache_ok env (get_cache env)" and "audit_ok (db w)"
    and "cache_coherent (get_cache env) (db w) (redis w)"
    and "serve_all env requests w = (responses, w')"
  shows "inventory_run (require_auth (env_settings env)) (valid_api_keys (env_settings env)) (inventory_of (db w))
      (moments env requests w) (map resp_status responses) (inventory_of (db w')) \<and>
    (all_fit (moments env requests w) \<longrightarrow>
      (map resp_status responses, inventory_of (db w')) =
      inventory_steps (require_auth (env_settings env)) (valid_api_keys (env_settings env))
        (moments env requests w) (inventory_of (db w)))"
  using serve_all_refines [of env w requests] assms
  by (auto simp: serving_def consistent_def dest: inventory_run_steps)

theorem runs_refine_inventory_witness:
  "map resp_status (fst (serve_all sample_env
      [(True, \<lparr>req_endpoint = PostOrderAction 5 ConfirmAction, req_api_key = Some ''k1''\<rparr>),
       (True, \<lparr>req_endpoint = GetOrder 5, req_api_key = None\<rparr>),
       (True, \<lparr>req_endpoint = GetItem 7, req_api_key = None\<rparr>)] (sample_world 4))) = [200, 200, 404]"
proof -
  let ?qs = "[(True, \<lparr>req_endpoint = PostOrderAction 5 ConfirmAction, req_api_key = Some ''k1''\<rparr>),
       (True, \<lparr>req_endpoint = GetOrder 5, req_api_key = None\<rparr>),
       (True, \<lparr>req_endpoint = GetItem 7, req_api_key = None\<rparr>)]"
  have fit: "fits sample_env 1 (PostOrderAction 5 ConfirmAction) (sample_tables 4)"
    by (simp add: movement_fits_def)
  show ?thesis
    using runs_refine_inventory [of sample_env "sample_world 4", OF _ _ _ prod.collapse [symmetric], of ?qs]
      consistent_sample [of 4] fit
    by (auto simp: consistent_def inventory_run_Cons request_step_def refused_code_def act_on_order_def
        order_summary_def stock_of_def found_def simp del: serve_all.simps)
qed

section \<open>Quantities past the columns\<close>

text \<open>
  A step that the schemas allow and whose quantity no 32-bit column can hold. The abstract step
  would store it, and the audited tables cannot: the request ends in the error of the driver.
\<close>

fun overflows :: "endpoint \<Rightarrow> inventory \<Rightarrow> bool" where
  "overflows (PostItem b) s \<longleftrightarrow> item_create_valid b \<and> 2 ^ 31 \<le> ic_stock_quantity b"
| "overflows (PatchItemStock i b) s \<longleftrightarrow>
     item_stock_adjust_valid b \<and> (case inv_stock s i of None \<Rightarrow> False | Some k \<Rightarrow> 2 ^ 31 \<le> k + sa_delta b)"
| "overflows (PostOrder b) s \<longleftrightarrow>
     order_create_valid b \<and> inv_stock s (oc_item_id b) \<noteq> None \<and> 2 ^ 31 \<le> oc_quantity b"
| "overflows (PostOrderAction i CancelAction) s \<longleftrightarrow>
     (case inv_orders s i of None \<Rightarrow> False
      | Some (iid, n, st) \<Rightarrow> (st = CONFIRMED \<or> st = SHIPPED) \<and>
          (case inv_stock s iid of None \<Rightarrow> False | Some k \<Rightarrow> 2 ^ 31 \<le> k + n))"
| "overflows _ s \<longleftrightarrow> False"

definition in_columns :: "inventory \<Rightarrow> bool" where
  "in_columns s \<longleftrightarrow> (\<forall>i k. inv_stock s i = Some k \<longrightarrow> k < 2 ^ 31) \<and>
     (\<forall>i iid n st. inv_orders s i = Some (iid, n, st) \<longrightarrow> n < 2 ^ 31)"

lemma audited_in_columns:
  assumes "audit_ok t"
  shows "in_columns (inventory_of t)"
proof -
  have "quantity r < 2 ^ 31" if "find_order i t = Some r" for i r
    by (rule audit_find [OF assms that])
  then show ?thesis
    using audited_stock_bounds(2) [OF assms] by (auto simp: in_columns_def stock_of_def order_summary_def)
qed

lemma overflow_leaves_columns:
  assumes "overflows e s"
  shows "\<not> in_columns (snd (endpoint_step lim new e s))"
proof (cases e)
  case (PostOrderAction i a)
  with assms obtain iid n st k where "a = CancelAction" "inv_orders s i = Some (iid, n, st)" "st = CONFIRMED \<or> st = SHIPPED"
      "inv_stock s iid = Some k" "2 ^ 31 \<le> k + n"
    by (cases a) (auto split: option.splits)
  with PostOrderAction show ?thesis by (auto simp: act_on_order_def in_columns_def)
qed (use assms in \<open>auto simp: change_stock_def in_columns_def split: option.splits\<close>)

text \<open>
  C20. Quantities past the columns: creating an item, adjusting its stock, placing an order or
  cancelling one with a quantity that the schemas accept and that takes the stock or the order
  past 32 bits is answered 500, and nothing is committed.
\<close>

theorem overflow_answers_500:
  assumes "cache_ok env (get_cache env)" and "audit_ok (db w)"
    and "cache_coherent (get_cache env) (db w) (redis w)"
    and "refused_code (require_auth (env_settings env)) (valid_api_keys (env_settings env)) request = None"
    and "overflows (req_endpoint request) (inventory_of (db w))"
    and "serve env lim request w = (response, w')"
  shows "resp_status response = 500 \<and> db w' = db w"
proof -
  have sv: "serving env w" using assms(1-3) by (simp add: serving_def consistent_def)
  then have "audit_ok (db w')"
    using server_serves [of env w lim request] assms(6) by (simp add: serving_def consistent_def)
  then have "in_columns (inventory_of (db w'))" by (rule audited_in_columns)
  moreover have "\<not> in_columns (snd (served_step env lim request w))"
    using overflow_leaves_columns [OF assms(5)] assms(4) by (simp add: served_step_def request_step_def)
  ultimately have "(resp_status response, inventory_of (db w')) \<noteq> served_step env lim request w"
    by (metis snd_conv)
  with serve_refines [OF sv assms(6)] show ?thesis by (simp add: refines_step_def)
qed

theorem overflow_answers_500_witness:
  "resp_status (fst (serve sample_env True \<lparr>req_endpoint = PostOrder \<lparr>oc_item_id = 1, oc_quantity = 2 ^ 31,
      oc_customer_ref = None\<rparr>, req_api_key = Some ''k1''\<rparr> (sample_world 4))) = 500"
  using overflow_answers_500 [of sample_env "sample_world 4", OF _ _ _ _ _ prod.collapse [symmetric],
        of "\<lparr>req_endpoint = PostOrder \<lparr>oc_item_id = 1, oc_quantity = 2 ^ 31, oc_customer_ref = None\<rparr>,
          req_api_key = Some ''k1''\<rparr>"] consistent_sample [of 4]
    by (simp add: consistent_def refused_code_def order_create_valid_def stock_of_def)

end
