(* ===== verification/Routing.thy ===== *)
theory Routing
  imports Api
begin

text \<open>
  The routers of \<open>app/api/v1\<close> as the tables that their decorators register, included under their
  prefixes by \<open>router.py\<close> and \<open>main.py\<close>, from the method and the path of a request to the
  endpoint of \<open>Http\<close> that the application serves. A route of the table is a candidate for a request
  when its method is the request's and its path agrees segment by segment, a segment in braces with
  any non-empty text; the first candidate in the order of registration is taken, and the segments
  in braces are read as UUIDs, as its function declares them. The body and the query of a request
  come as they are validated (\<open>Schemas\<close>).
\<close>

section \<open>The tables\<close>

text \<open>What a request carries beside its method and path.\<close>

datatype payload =
    No_Payload
  | ItemCreate_Body ItemCreate
  | ItemStockAdjust_Body ItemStockAdjust
  | OrderCreate_Body OrderCreate
  | Order_Query order_filter
  | Days_Query int

text \<open>The function of a route: the endpoint that it is, of the identifiers and the payload.\<close>

type_synonym route_function = "uuid list \<Rightarrow> payload \<Rightarrow> endpoint option"

record route =
  route_method :: string
  route_path :: string
  route_status :: int
  route_name :: string
  route_function :: route_function

definition path_operation :: "string \<Rightarrow> string \<Rightarrow> int \<Rightarrow> string \<Rightarrow> route_function \<Rightarrow> route" where
  "path_operation verb path code name f =
     \<lparr>route_method = verb, route_path = path, route_status = code, route_name = name, route_function = f\<rparr>"

fun plain :: "endpoint \<Rightarrow> route_function" where
  "plain e [] p = Some e"
| "plain e (i # ids) p = None"

fun of_id :: "(uuid \<Rightarrow> endpoint) \<Rightarrow> route_function" where
  "of_id f [i] p = Some (f i)"
| "of_id f ids p = None"

fun of_days :: "(int \<Rightarrow> endpoint) \<Rightarrow> route_function" where
  "of_days f [] (Days_Query d) = Some (f d)"
| "of_days f ids p = None"

fun create_item_route :: route_function where
  "create_item_route [] (ItemCreate_Body b) = Some (PostItem b)"
| "create_item_route ids p = None"

fun adjust_stock_route :: route_function where
  "adjust_stock_route [i] (ItemStockAdjust_Body b) = Some (PatchItemStock i b)"
| "adjust_stock_route ids p = None"

fun list_orders_route :: route_function where
  "list_orders_route [] (Order_Query f) = Some (GetOrders f)"
| "list_orders_route ids p = None"

fun place_order_route :: route_function where
  "place_order_route [] (OrderCreate_Body b) = Some (PostOrder b)"
| "place_order_route ids p = None"

definition include_router :: "string \<Rightarrow> route list \<Rightarrow> route list" where
  "include_router prefix rs = map (\<lambda>r. r\<lparr>route_path := prefix @ route_path r\<rparr>) rs"

definition items_router :: "route list" where
  "items_router = include_router ''/items''
     [path_operation ''POST'' '''' 201 ''create_item'' create_item_route,
      path_operation ''GET'' '''' 200 ''list_items'' (plain GetItems),
      path_operation ''GET'' ''/{item_id}'' 200 ''get_item'' (of_id GetItem),
      path_operation ''PATCH'' ''/{item_id}/stock'' 200 ''adjust_stock'' adjust_stock_route]"

text \<open>
  \<open>_transition_router\<close> registers one more function \<open>transition\<close> for each action; the function
  calls the method of the service that is named after the action of its closure.
\<close>

definition method_named :: "string \<Rightarrow> order_action option" where
  "method_named name =
     find (\<lambda>a. action_value a @ ''_order'' = name) [ConfirmAction, ShipAction, DeliverAction, CancelAction]"

definition transition_route :: "string \<Rightarrow> route" where
  "transition_route action = path_operation ''POST'' (''/{order_id}/'' @ action) 200 ''transition''
     (case method_named (action @ ''_order'') of
        None \<Rightarrow> (\<lambda>ids p. None)
      | Some a \<Rightarrow> of_id (\<lambda>i. PostOrderAction i a))"

definition orders_router :: "route list" where
  "orders_router = include_router ''/orders''
     ([path_operation ''GET'' '''' 200 ''list_orders'' list_orders_route,
       path_operation ''POST'' '''' 201 ''place_order'' place_order_route,
       path_operation ''GET'' ''/{order_id}'' 200 ''get_order'' (of_id GetOrder)]
      @ map transition_route [''confirm'', ''ship'', ''deliver'', ''cancel''])"

definition stock_router :: "route list" where
  "stock_router = include_router ''/stock''
     [path_operation ''GET'' ''/alerts/low'' 200 ''low_stock_alerts'' (plain GetStockAlertsLow),
      path_operation ''GET'' ''/{item_id}'' 200 ''get_stock'' (of_id GetStock),
      path_operation ''GET'' ''/{item_id}/movements'' 200 ''get_movements'' (of_id GetStockMovements)]"

definition analytics_router :: "route list" where
  "analytics_router = include_router ''/analytics''
     [path_operation ''GET'' ''/summary'' 200 ''analytics_summary'' (of_days GetAnalyticsSummary),
      path_operation ''GET'' ''/stock'' 200 ''stock_analytics'' (plain GetAnalyticsStock),
      path_operation ''GET'' ''/orders'' 200 ''order_analytics'' (of_days GetAnalyticsOrders),
      path_operation ''GET'' ''/movements'' 200 ''movement_analytics'' (of_days GetAnalyticsMovements)]"

definition api_router :: "route list" where
  "api_router = include_router ''/api/v1'' (items_router @ orders_router @ stock_router @ analytics_router)"

definition app_routes :: "route list" where
  "app_routes = api_router @ [path_operation ''GET'' ''/health'' 200 ''health'' (plain GetHealth)]"

section \<open>Candidates\<close>

fun is_param :: "string \<Rightarrow> bool" where
  "is_param [] = False"
| "is_param (c # cs) = (c = CHR ''{'')"

fun match_segments :: "string list \<Rightarrow> string list \<Rightarrow> string list option" where
  "match_segments [] [] = Some []"
| "match_segments (p # ps) (s # ss) =
     (if is_param p then (if s = [] then None else map_option (Cons s) (match_segments ps ss))
      else if p = s then match_segments ps ss else None)"
| "match_segments _ _ = None"

definition route_params :: "route \<Rightarrow> string \<Rightarrow> string list option" where
  "route_params r path = match_segments (py_split (CHR ''/'') (route_path r)) (py_split (CHR ''/'') path)"

definition candidates :: "string \<Rightarrow> string \<Rightarrow> (route \<times> string list) list" where
  "candidates verb path =
     concat (map (\<lambda>r. case route_params r path of None \<Rightarrow> [] | Some vals \<Rightarrow> [(r, vals)])
       (filter (\<lambda>r. route_method r = verb) app_routes))"

text \<open>A path parameter read as a UUID: the hyphens left out, 32 hexadecimal digits.\<close>

definition hex_value :: "char \<Rightarrow> nat option" where
  "hex_value c =
     (let n = of_char c :: nat
      in if 48 \<le> n \<and> n < 58 then Some (n - 48)
         else if 97 \<le> n \<and> n < 103 then Some (n - 87)
         else if 65 \<le> n \<and> n < 71 then Some (n - 55) else None)"

fun hex_number :: "nat \<Rightarrow> string \<Rightarrow> nat option" where
  "hex_number acc [] = Some acc"
| "hex_number acc (c # cs) = (case hex_value c of None \<Rightarrow> None | Some d \<Rightarrow> hex_number (16 * acc + d) cs)"

definition parse_uuid :: "string \<Rightarrow> uuid option" where
  "parse_uuid s =
     (let h = filter (\<lambda>c. c \<noteq> CHR ''-'') s
      in if length h = 32 then map_option of_nat (hex_number 0 h) else None)"

fun parse_uuids :: "string list \<Rightarrow> uuid list option" where
  "parse_uuids [] = Some []"
| "parse_uuids (s # ss) =
     (case parse_uuid s of None \<Rightarrow> None | Some u \<Rightarrow> map_option (Cons u) (parse_uuids ss))"

text \<open>The endpoint of a request, with the status that its route declares for success.\<close>

definition route_request :: "string \<Rightarrow> string \<Rightarrow> payload \<Rightarrow> (int \<times> endpoint) option" where
  "route_request verb path p =
     (case candidates verb path of
        [] \<Rightarrow> None
      | (r, vals) # _ \<Rightarrow>
          (case parse_uuids vals of
             None \<Rightarrow> None
           | Some ids \<Rightarrow> map_option (Pair (route_status r)) (route_function r ids p)))"

section \<open>No two routes share a request\<close>

fun overlap :: "string list \<Rightarrow> string list \<Rightarrow> bool" where
  "overlap [] [] = True"
| "overlap (p # ps) (q # qs) = ((is_param p \<or> is_param q \<or> p = q) \<and> overlap ps qs)"
| "overlap _ _ = False"

lemma match_overlap:
  assumes "match_segments ps ss = Some us" and "match_segments qs ss = Some vs"
  shows "overlap ps qs"
  using assms
proof (induction ps ss arbitrary: qs us vs rule: match_segments.induct)
  case (2 p ps s ss)
  then show ?case by (cases qs) (auto split: if_splits)
next
  case 1
  then show ?case by (cases qs) simp_all
qed simp_all

definition clash :: "route \<Rightarrow> route \<Rightarrow> bool" where
  "clash r r' \<longleftrightarrow> route_method r = route_method r' \<and>
     overlap (py_split (CHR ''/'') (route_path r)) (py_split (CHR ''/'') (route_path r'))"

fun clash_free :: "route list \<Rightarrow> bool" where
  "clash_free [] = True"
| "clash_free (r # rs) = (\<not> list_ex (clash r) rs \<and> clash_free rs)"

lemma clash_free_candidates:
  assumes "clash_free rs"
  shows "length (concat (map (\<lambda>r. case route_params r path of None \<Rightarrow> [] | Some vals \<Rightarrow> [(r, vals)])
    (filter (\<lambda>r. route_method r = verb) rs))) \<le> 1"
  using assms
proof (induction rs)
  case (Cons r rs)
  let ?one = "\<lambda>r. case route_params r path of None \<Rightarrow> [] | Some vals \<Rightarrow> [(r, vals)]"
  show ?case
  proof (cases "route_method r = verb \<and> route_params r path \<noteq> None")
    case True
    then obtain vals where vals: "route_params r path = Some vals" by blast
    have "?one r' = []" if "r' \<in> set rs" "route_method r' = verb" for r'
    proof (cases "route_params r' path")
      case (Some vals')
      with vals have "overlap (py_split (CHR ''/'') (route_path r)) (py_split (CHR ''/'') (route_path r'))"
        unfolding route_params_def by (rule match_overlap)
      with True that have "list_ex (clash r) rs" by (auto simp: list_ex_iff clash_def)
      with Cons.prems show ?thesis by simp
    qed simp
    then have "concat (map ?one (filter (\<lambda>r. route_method r = verb) rs)) = []" by simp
    with True vals show ?thesis by simp
  next
    case False
    with Cons show ?thesis by auto
  qed
qed simp

lemma app_routes_clash_free: "clash_free app_routes"
  by code_simp

section \<open>Every endpoint has its route\<close>

fun endpoint_payload :: "endpoint \<Rightarrow> payload" where
  "endpoint_payload (PostItem b) = ItemCreate_Body b"
| "endpoint_payload (PatchItemStock i b) = ItemStockAdjust_Body b"
| "endpoint_payload (GetOrders f) = Order_Query f"
| "endpoint_payload (PostOrder b) = OrderCreate_Body b"
| "endpoint_payload (GetAnalyticsSummary d) = Days_Query d"
| "endpoint_payload (GetAnalyticsOrders d) = Days_Query d"
| "endpoint_payload (GetAnalyticsMovements d) = Days_Query d"
| "endpoint_payload _ = No_Payload"

lemma hex_char_not_slash: "d < 16 \<Longrightarrow> hex_char d \<noteq> CHR ''/''"
  using of_char_eq_iff [of "hex_char d" "CHR ''/''", where ?'a = nat]
  by (auto simp: hex_char_def split: if_splits)

lemma hex_digits_no_slash: "CHR ''/'' \<notin> set (hex_digits k n)"
  using hex_char_not_slash by (induction k arbitrary: n) (auto simp: eq_commute [of "CHR ''/''"])

lemma uuid_str_segment [simp]: "CHR ''/'' \<notin> set (uuid_str u)" "uuid_str u \<noteq> []"
  using hex_digits_no_slash [of 32 "unat u"]
  by (auto simp: uuid_str_def Let_def dest!: in_set_takeD in_set_dropD)

lemma split_uuid [simp]:
  "py_split (CHR ''/'') (uuid_str u) = [uuid_str u]"
  "py_split (CHR ''/'') (uuid_str u @ CHR ''/'' # t) = uuid_str u # py_split (CHR ''/'') t"
  by (simp_all add: py_split_no_sep_id py_split_append)

lemma hex_value_char: "d < 16 \<Longrightarrow> hex_value (hex_char d) = Some d"
  by (auto simp: hex_value_def hex_char_def of_char_of Let_def)

lemma hex_char_not_hyphen: "d < 16 \<Longrightarrow> hex_char d \<noteq> CHR ''-''"
  using of_char_eq_iff [of "hex_char d" "CHR ''-''", where ?'a = nat]
  by (auto simp: hex_char_def split: if_splits)

lemma hex_digits_no_hyphen: "filter (\<lambda>c. c \<noteq> CHR ''-'') (hex_digits k n) = hex_digits k n"
  using hex_char_not_hyphen by (induction k arbitrary: n) auto

lemma hex_number_append:
  "hex_number acc (s @ t) = (case hex_number acc s of None \<Rightarrow> None | Some m \<Rightarrow> hex_number m t)"
  by (induction s arbitrary: acc) (auto split: option.split)

lemma hex_number_digits: "hex_number 0 (hex_digits k n) = Some (n mod 16 ^ k)"
proof (induction k arbitrary: n)
  case (Suc k)
  have "16 * (n div 16 mod 16 ^ k) + n mod 16 = n mod 16 ^ Suc k"
    by (simp add: mod_mult2_eq)
  with Suc show ?case by (simp add: hex_number_append hex_value_char)
qed simp

lemma uuid_str_hyphens: "filter (\<lambda>c. c \<noteq> CHR ''-'') (uuid_str u) = hex_digits 32 (unat u)"
proof -
  let ?h = "hex_digits 32 (unat u)"
  have split: "take 8 ?h @ take 4 (drop 8 ?h) @ take 4 (drop 12 ?h) @ take 4 (drop 16 ?h) @ drop 20 ?h = ?h"
    using append_take_drop_id [of 8 ?h] append_take_drop_id [of 4 "drop 8 ?h"]
      append_take_drop_id [of 4 "drop 12 ?h"] append_take_drop_id [of 4 "drop 16 ?h"] by simp
  have "filter (\<lambda>c. c \<noteq> CHR ''-'') (uuid_str u) =
      filter (\<lambda>c. c \<noteq> CHR ''-'')
        (take 8 ?h @ take 4 (drop 8 ?h) @ take 4 (drop 12 ?h) @ take 4 (drop 16 ?h) @ drop 20 ?h)"
    by (simp add: uuid_str_def Let_def)
  then show ?thesis unfolding split by (simp add: hex_digits_no_hyphen)
qed

lemma parse_uuid_str [simp]: "parse_uuid (uuid_str u) = Some u"
proof -
  have "unat u < 2 ^ LENGTH(128)" by (rule unsigned_less)
  then have "unat u < 16 ^ 32" by simp
  then show ?thesis by (simp add: parse_uuid_def uuid_str_hyphens hex_number_digits)
qed

lemmas routing_defs = candidates_def app_routes_def api_router_def items_router_def orders_router_def stock_router_def
  analytics_router_def transition_route_def include_router_def path_operation_def route_params_def method_named_def

lemma endpoint_routed:
  "route_request (endpoint_method e) (endpoint_path e) (endpoint_payload e) = Some (success_status e, e)"
proof (cases e)
  case (PostOrderAction i a)
  then show ?thesis by (cases a) (simp_all add: route_request_def routing_defs api_prefix_def)
qed (simp_all add: route_request_def routing_defs api_prefix_def)

text \<open>
  C33. Requests reach their handlers: the method, path and payload by which each endpoint is
  addressed, its identifiers printed as text, are routed to that very endpoint with the status
  of its decorator and the identifiers read back; and no method and path whatsoever has two
  candidates, so that the order in which the routers are included and the functions declared (as
  \<open>/stock/alerts/low\<close> before \<open>/stock/{item_id}\<close>) decides nothing.
\<close>

theorem routes_reach_handlers:
  "(\<forall>e. route_request (endpoint_method e) (endpoint_path e) (endpoint_payload e) = Some (success_status e, e)) \<and>
   (\<forall>verb path. length (candidates verb path) \<le> 1)"
  using endpoint_routed clash_free_candidates [OF app_routes_clash_free]
  unfolding candidates_def by blast

end
