(* ===== verification/Configuration.thy ===== *)
theory Configuration
  imports Routing Inventory_Refinement
begin

text \<open>
  How a process of the service is put together: \<open>Settings\<close> read from the environment and the
  \<open>.env\<close> file (\<open>core/config.py\<close>), the constants of \<open>core/constants.py\<close> that nothing reads, the
  engine, factory, client and limiters that the modules construct at import time, the cache that
  a service falls back to, the guard as the application registers it, and the launcher
  (\<open>src/main.py\<close>). How \<open>pydantic\<close> reads a number or a flag is a parameter.
\<close>

section \<open>Settings from the environment\<close>

text \<open>
  Variables by the name of the field, whatever their case. The lookup is that of
  \<open>pydantic-settings\<close>, taken as a union of two maps: a field takes the variable of the process,
  else the one of the file, else its default; other variables are ignored. Text that is no number
  or flag fails the construction. What the repository gives are the names, types and defaults.
\<close>

type_synonym variables = "string \<rightharpoonup> string"

definition text_field :: "variables \<Rightarrow> string \<Rightarrow> string \<Rightarrow> string" where
  "text_field vars name d = (case vars name of None \<Rightarrow> d | Some v \<Rightarrow> v)"

definition parsed_field :: "(string \<Rightarrow> 'a option) \<Rightarrow> variables \<Rightarrow> string \<Rightarrow> 'a \<Rightarrow> 'a option" where
  "parsed_field parse vars name d = (case vars name of None \<Rightarrow> Some d | Some v \<Rightarrow> parse v)"

definition load_settings ::
  "(string \<Rightarrow> int option) \<Rightarrow> (string \<Rightarrow> bool option) \<Rightarrow> variables \<Rightarrow> variables \<Rightarrow> settings option" where
  "load_settings parse_int parse_bool environ dotenv =
     (let vars = dotenv ++ environ; d = default_settings
      in Option.bind (parsed_field parse_int vars ''db_port'' (db_port d)) (\<lambda>port.
         Option.bind (parsed_field parse_int vars ''cache_ttl_seconds'' (cache_ttl_seconds d)) (\<lambda>ttl.
         Option.bind (parsed_field parse_bool vars ''enable_cache'' (enable_cache d)) (\<lambda>cached.
         Option.bind (parsed_field parse_bool vars ''require_auth'' (require_auth d)) (\<lambda>auth.
         Option.bind (parsed_field parse_int vars ''low_stock_default_threshold'' (low_stock_default_threshold d)) (\<lambda>low.
         Some
           \<lparr>db_host = text_field vars ''db_host'' (db_host d), db_port = port,
            db_name = text_field vars ''db_name'' (db_name d), db_user = text_field vars ''db_user'' (db_user d),
            db_password = text_field vars ''db_password'' (db_password d),
            redis_url = text_field vars ''redis_url'' (redis_url d), cache_ttl_seconds = ttl, enable_cache = cached,
            require_auth = auth, api_keys = text_field vars ''api_keys'' (api_keys d),
            rate_limit_stock_read = text_field vars ''rate_limit_stock_read'' (rate_limit_stock_read d),
            rate_limit_default = text_field vars ''rate_limit_default'' (rate_limit_default d),
            environment = text_field vars ''environment'' (environment d),
            log_level = text_field vars ''log_level'' (log_level d), low_stock_default_threshold = low\<rparr>))))))"

text \<open>\<open>get_settings\<close> under \<open>lru_cache(maxsize=1)\<close>: the result of the first call that does not raise is kept.\<close>

definition get_settings :: "settings option \<Rightarrow> settings option \<Rightarrow> settings option \<times> settings option" where
  "get_settings loaded memo = (case memo of Some s \<Rightarrow> (Some s, memo) | None \<Rightarrow> (loaded, loaded))"

lemma get_settings_once:
  "get_settings loaded memo = (Some s, memo') \<Longrightarrow> get_settings later memo' = (Some s, memo')"
  by (auto simp: get_settings_def split: option.splits)

lemmas settings_defs = load_settings_def text_field_def parsed_field_def

section \<open>Constants that nothing reads\<close>

definition ITEM_PREFIX :: string where
  "ITEM_PREFIX = ''nova:item:''"

definition RateLimits_STOCK_READ :: string where
  "RateLimits_STOCK_READ = ''100/minute''"

definition RateLimits_DEFAULT :: string where
  "RateLimits_DEFAULT = ''200/minute''"

definition LogFields :: "(string \<times> string) list" where
  "LogFields =
     [(''REQUEST_ID'', ''request_id''), (''ITEM_ID'', ''item_id''), (''ORDER_ID'', ''order_id''),
      (''STOCK_BEFORE'', ''stock_before''), (''STOCK_AFTER'', ''stock_after''), (''DELTA'', ''delta''),
      (''DURATION_MS'', ''duration_ms'')]"

text \<open>They agree with what the settings default to, and no two log fields collide.\<close>

lemma constants_agree:
  "RateLimits_STOCK_READ = rate_limit_stock_read default_settings"
  "RateLimits_DEFAULT = rate_limit_default default_settings"
  "distinct (map snd LogFields)"
  by (simp_all add: RateLimits_STOCK_READ_def RateLimits_DEFAULT_def LogFields_def default_settings_def)

section \<open>Objects of the process\<close>

record engine_options =
  engine_url :: string
  engine_echo :: bool
  pool_size :: nat
  max_overflow :: nat
  pool_pre_ping :: bool
  pool_recycle :: nat

definition process_engine :: "settings \<Rightarrow> engine_options" where
  "process_engine s =
     \<lparr>engine_url = database_url s, engine_echo = False, pool_size = 10, max_overflow = 20, pool_pre_ping = True,
      pool_recycle = 3600\<rparr>"

definition get_engine :: "settings \<Rightarrow> engine_options" where
  "get_engine s = process_engine s"

record session_options =
  session_bind :: engine_options
  expire_on_commit :: bool
  autocommit :: bool
  autoflush :: bool

definition session_factory :: "settings \<Rightarrow> session_options" where
  "session_factory s =
     \<lparr>session_bind = process_engine s, expire_on_commit = False, autocommit = False, autoflush = False\<rparr>"

definition get_session_factory :: "settings \<Rightarrow> session_options" where
  "get_session_factory s = session_factory s"

record redis_options =
  client_url :: string
  client_encoding :: string
  decode_responses :: bool
  socket_connect_timeout :: nat
  socket_timeout :: nat

definition redis_singleton :: "settings \<Rightarrow> redis_options" where
  "redis_singleton s =
     \<lparr>client_url = redis_url s, client_encoding = ''utf-8'', decode_responses = False, socket_connect_timeout = 2,
      socket_timeout = 2\<rparr>"

text \<open>
  The two limiters, by where they count: the one of \<open>main.py\<close> in Redis, the one that limits the
  stock read in the memory of the process.
\<close>

definition app_limiter_storage :: "settings \<Rightarrow> string option" where
  "app_limiter_storage s = Some (redis_url s)"

definition stock_limiter_storage :: "settings \<Rightarrow> string option" where
  "stock_limiter_storage s = None"

lemma stock_reads_counted_in_memory: "stock_limiter_storage s \<noteq> app_limiter_storage s"
  by (simp add: stock_limiter_storage_def app_limiter_storage_def)

text \<open>
  The constructors of the services: the cache that is passed in, else one over the client of
  the process. Either way a request works on the same cache.
\<close>

definition service_cache :: "'r env \<Rightarrow> 'r cache_service option \<Rightarrow> 'r cache_service" where
  "service_cache env given =
     (case given of Some cache \<Rightarrow> cache | None \<Rightarrow> cache_service_init (get_redis env))"

text \<open>The same default is written out in \<open>ItemService\<close> and in \<open>StockService\<close>.\<close>

definition item_service_cache :: "'r env \<Rightarrow> 'r cache_service option \<Rightarrow> 'r cache_service" where
  "item_service_cache env given =
     (case given of Some cache \<Rightarrow> cache | None \<Rightarrow> cache_service_init (get_redis env))"

definition stock_service_cache :: "'r env \<Rightarrow> 'r cache_service option \<Rightarrow> 'r cache_service" where
  "stock_service_cache env given =
     (case given of Some cache \<Rightarrow> cache | None \<Rightarrow> cache_service_init (get_redis env))"

lemma service_cache_is_get_cache:
  "given = None \<or> given = Some (get_cache env) \<Longrightarrow> service_cache env given = get_cache env"
  "given = None \<or> given = Some (get_cache env) \<Longrightarrow> item_service_cache env given = get_cache env"
  "given = None \<or> given = Some (get_cache env) \<Longrightarrow> stock_service_cache env given = get_cache env"
  by (auto simp: service_cache_def item_service_cache_def stock_service_cache_def get_cache_def)

section \<open>The application and its launcher\<close>

record app_options =
  app_version :: string
  docs_url :: string
  redoc_url :: string
  openapi_url :: string

definition app_metadata :: app_options where
  "app_metadata =
     \<lparr>app_version = ''0.1.0'', docs_url = ''/docs'', redoc_url = ''/redoc'',
      openapi_url = ''/openapi.json''\<rparr>"

record cors_options =
  cors_origins :: "string list"
  cors_methods :: "string list"
  cors_headers :: "string list"

definition cors_middleware :: cors_options where
  "cors_middleware = \<lparr>cors_origins = [''*''], cors_methods = [''*''], cors_headers = [''*'']\<rparr>"

definition health :: body where
  "health = HealthBody ''ok'' ''0.1.0''"

definition api_key_middleware :: "settings \<Rightarrow> 'r app \<Rightarrow> 'r app" where
  "api_key_middleware s app = dispatch (require_auth s) (valid_api_keys s) app"

lemma serve_guarded:
  "serve env lim = server_error (logging_middleware env (api_key_middleware (env_settings env) (router_app env lim)))"
  by (simp add: serve_def api_key_middleware_def)

lemma handler_health: "handler env lim GetHealth = done_with health"
  by (simp add: health_def)

text \<open>The paths that the guard never asks a key for are the documentation's and the health check's.\<close>

lemma public_paths:
  "public_prefixes = [docs_url app_metadata, redoc_url app_metadata, openapi_url app_metadata, endpoint_path GetHealth]"
  by (simp add: public_prefixes_def app_metadata_def)

lemma health_version: "health = HealthBody ''ok'' (app_version app_metadata)"
  by (simp add: health_def app_metadata_def)

record uvicorn_options =
  uvicorn_target :: string
  uvicorn_host :: string
  uvicorn_port :: nat
  uvicorn_reload :: bool

definition launch :: uvicorn_options where
  "launch = \<lparr>uvicorn_target = ''app.main:app'', uvicorn_host = ''0.0.0.0'', uvicorn_port = 8000, uvicorn_reload = True\<rparr>"

section \<open>Authentication without keys\<close>

lemma no_keys_loaded:
  assumes "load_settings parse_int parse_bool environ dotenv = Some s" and "(dotenv ++ environ) ''api_keys'' = None"
  shows "valid_api_keys s = {}"
proof -
  have "api_keys s = []"
    using assms unfolding load_settings_def Let_def
    by (auto simp: text_field_def default_settings_def split: bind_splits)
  then show ?thesis by (simp add: valid_api_keys_def)
qed

lemma auth_loaded:
  assumes "load_settings parse_int parse_bool environ dotenv = Some s" and "environ ''require_auth'' = Some v"
    and "parse_bool v = Some b"
  shows "require_auth s = b"
  using assms unfolding load_settings_def Let_def
  by (auto simp: parsed_field_def split: bind_splits)

lemma keyless_request:
  assumes "serving env w" and "require_auth (env_settings env)" and "valid_api_keys (env_settings env) = {}"
  shows "db (snd (serve env lim request w)) = db w"
proof (cases "writes (req_endpoint request)")
  case True
  then have "refused_code True {} request \<noteq> None" by (simp add: refused_code_def split: option.split)
  then obtain code where "refused_code True {} request = Some code" by blast
  then show ?thesis
    using assms(2,3)
    by (simp add: serve_def server_error_def logging_middleware_def dispatch_refused_code and_then_def uuid4_def
        done_with_def)
next
  case False
  then have "req_method request = ''GET''" by (cases "req_endpoint request") (simp_all add: req_method_def)
  with assms(1) show ?thesis by (intro serve_read_untouched) (simp_all add: serving_def consistent_def)
qed

lemma keyless_run:
  assumes "serving env w" and "require_auth (env_settings env)" and "valid_api_keys (env_settings env) = {}"
  shows "db (snd (serve_all env requests w)) = db w"
  using assms(1)
proof (induction requests arbitrary: w)
  case (Cons q requests)
  have "serving env (snd (serve env (fst q) (snd q) w))" using server_serves [OF Cons.prems] by blast
  from Cons.IH [OF this] keyless_request [OF Cons.prems assms(2,3)] show ?case
    by (simp add: serve_step_def case_prod_beta)
qed simp

text \<open>
  C27. Authentication fails closed: a process whose environment turns authentication on and sets
  no API keys, neither there nor in the \<open>.env\<close> file, is read-only. Whatever is requested, with
  whatever key, no row changes.
\<close>

theorem keyless_service_is_read_only:
  assumes "load_settings parse_int parse_bool environ dotenv = Some (env_settings env)"
    and "(dotenv ++ environ) ''api_keys'' = None"
    and "environ ''require_auth'' = Some v" and "parse_bool v = Some True"
    and "cache_ok env (get_cache env)" and "audit_ok (db w)"
    and "cache_coherent (get_cache env) (db w) (redis w)"
    and "serve_all env requests w = (responses, w')"
  shows "db w' = db w"
  using keyless_run [of env w requests] no_keys_loaded [OF assms(1,2)] auth_loaded [OF assms(1,3,4)] assms(5-8)
  by (simp add: serving_def consistent_def)

theorem keyless_service_is_read_only_witness:
  "db (snd (serve_all (sample_env\<lparr>env_settings := default_settings\<lparr>require_auth := True\<rparr>\<rparr>)
     [(True, \<lparr>req_endpoint = PostOrderAction 5 ConfirmAction, req_api_key = Some ''k1''\<rparr>)] (sample_world 4))) =
   sample_tables 4"
proof -
  let ?env = "sample_env\<lparr>env_settings := default_settings\<lparr>require_auth := True\<rparr>\<rparr>"
  have cache: "get_cache ?env = Some map_client"
    by (simp add: get_cache_def cache_service_init_def get_redis_def default_settings_def)
  have "load_settings py_int_of_bytes (\<lambda>v. Some (v = ''true'')) [''require_auth'' \<mapsto> ''true''] Map.empty =
      Some (env_settings ?env)"
    by (simp add: settings_defs default_settings_def)
  then show ?thesis
    using keyless_service_is_read_only [of py_int_of_bytes "\<lambda>v. Some (v = ''true'')" "[''require_auth'' \<mapsto> ''true'']" Map.empty
        ?env "''true''" "sample_world 4", OF _ _ _ _ _ _ _ prod.collapse [symmetric]] consistent_sample [of 4]
    by (simp add: cache cache_ok_def redis_laws_map_client consistent_def del: serve_all.simps)
qed

end
