(* ===== verification/Interleaving.thy ===== *)
theory Interleaving
  imports Api
begin

text \<open>
  Requests that run at the same time. A request is a process: the calls of its service on the
  repositories and on the cache, one after the other, with the points in between where the
  event loop may run another request. Each call is the operation of \<open>Repositories\<close> and \<open>Cache\<close>
  itself, executed on the tables committed at that moment (READ COMMITTED) with the statements
  of its own transaction applied. A call may need a lock on a row or on a new entry of a unique
  index; the locks are held until the transaction ends, and a call whose lock conflicts with
  one of another request waits. A step of a process is one call of a repository or of the cache,
  the end of the transaction, or the INSERT of a call after the values of its row have been
  drawn; the statements of one call (a flush and the refresh after it) are not taken apart,
  because they concern rows that the transaction has locked or inserted.
\<close>

section \<open>Processes\<close>

text \<open>
  The locks. Those on the row of an item are \<open>ItemRow\<close> of \<open>SELECT ... FOR UPDATE\<close>, \<open>ItemWrite\<close> of an
  UPDATE that leaves the keys alone (FOR NO KEY UPDATE) and \<open>ItemShare\<close> of the check of a foreign
  key (FOR KEY SHARE); \<open>OrderRow\<close> is that of an UPDATE of an order. The others are entries of
  unique indexes.
\<close>

datatype row_lock =
    ItemRow uuid
  | ItemWrite uuid
  | ItemShare uuid
  | OrderRow uuid
  | ItemKey uuid
  | ItemName string
  | OrderKey uuid
  | MovementKey uuid

text \<open>
  The lock modes of PostgreSQL: FOR UPDATE excludes all others, FOR NO KEY UPDATE excludes itself
  and goes with FOR KEY SHARE, which any number of transactions may hold.
\<close>

fun conflicts :: "row_lock \<Rightarrow> row_lock \<Rightarrow> bool" where
  "conflicts (ItemRow i) k \<longleftrightarrow> k = ItemRow i \<or> k = ItemWrite i \<or> k = ItemShare i"
| "conflicts (ItemWrite i) k \<longleftrightarrow> k = ItemRow i \<or> k = ItemWrite i"
| "conflicts (ItemShare i) k \<longleftrightarrow> k = ItemRow i"
| "conflicts k k' \<longleftrightarrow> k = k'"

datatype ('r, 'a) proc =
    Finished "exn + 'a"
  | Await "'r world \<Rightarrow> row_lock option" "'r world \<Rightarrow> ('r, 'a) proc \<times> 'r world"

primrec settle :: "('r, 'a) proc \<Rightarrow> (exn + 'a \<Rightarrow> ('r, 'b) proc) \<Rightarrow> ('r, 'b) proc" where
  "settle (Finished r) k = k r"
| "settle (Await l f) k = Await l (\<lambda>w. map_prod (\<lambda>p. settle p k) id (f w))"

lemma settle_settle: "settle (settle p k) k' = settle p (\<lambda>r. settle (k r) k')"
proof (induction p)
  case (Await l f)
  have "settle (settle (fst (f w)) k) k' = settle (fst (f w)) (\<lambda>r. settle (k r) k')" for w
    by (rule Await [of "f w"]) (auto intro: fsts.intros simp: prod_set_defs)
  then show ?case by (simp add: fun_eq_iff map_prod_def case_prod_beta)
qed simp

lemma settle_Finished: "settle p Finished = p"
proof (induction p)
  case (Await l f)
  have "settle (fst (f w)) Finished = fst (f w)" for w
    by (rule Await [of "f w"]) (auto intro: fsts.intros simp: prod_set_defs)
  then show ?case by (simp add: fun_eq_iff map_prod_def case_prod_beta)
qed simp

definition proc_then :: "('r, 'a) proc \<Rightarrow> ('a \<Rightarrow> ('r, 'b) proc) \<Rightarrow> ('r, 'b) proc" where
  "proc_then p k = settle p (\<lambda>r. case r of Inl e \<Rightarrow> Finished (Inl e) | Inr a \<Rightarrow> k a)"

definition proc_mapped :: "(exn \<Rightarrow> exn) \<Rightarrow> ('r, 'a) proc \<Rightarrow> ('r, 'a) proc" where
  "proc_mapped f p = settle p (\<lambda>r. case r of Inl e \<Rightarrow> Finished (Inl (f e)) | Inr a \<Rightarrow> Finished (Inr a))"

definition proc_body :: "('a \<Rightarrow> body) \<Rightarrow> ('r, 'a) proc \<Rightarrow> ('r, body) proc" where
  "proc_body f p = proc_then p (\<lambda>a. Finished (Inr (f a)))"

definition await_on :: "('r world \<Rightarrow> row_lock option) \<Rightarrow> ('r, 'a) io \<Rightarrow> ('r, 'a) proc" where
  "await_on l m = Await l (\<lambda>w. map_prod Finished id (m w))"

definition await :: "('r, 'a) io \<Rightarrow> ('r, 'a) proc" where
  "await m = await_on (\<lambda>w. None) m"

primrec run_alone :: "('r, 'a) proc \<Rightarrow> ('r, 'a) io" where
  "run_alone (Finished r) = (\<lambda>w. (r, w))"
| "run_alone (Await l f) = (\<lambda>w. case map_prod run_alone id (f w) of (g, w') \<Rightarrow> g w')"

section \<open>The locks of the calls\<close>

text \<open>
  \<open>SELECT ... FOR UPDATE\<close> locks the row it finds. \<open>UPDATE ... WHERE id AND version\<close> locks the
  row when it matches; it then reads the row as it is when the lock is granted. An INSERT
  waits for another transaction that has inserted the same key and not ended; the INSERT of an
  order then shares the row of its item, which its foreign key refers to. The INSERT of a
  movement shares the rows of its item and its order; the transaction has locked that item FOR
  UPDATE or inserted it, and nobody locks an order FOR UPDATE, so these locks never wait and
  never make another request wait that does not wait already.
\<close>

definition item_row :: "uuid \<Rightarrow> 'r world \<Rightarrow> row_lock option" where
  "item_row i w = (if find_item i (view w) = None then None else Some (ItemRow i))"

definition order_row :: "uuid \<Rightarrow> int \<Rightarrow> 'r world \<Rightarrow> row_lock option" where
  "order_row oid v w =
     (case find_order oid (view w) of
        None \<Rightarrow> None
      | Some r \<Rightarrow> if order_version r = v then Some (OrderRow oid) else None)"

definition to_write :: "item_patch list \<Rightarrow> item_patch list" where
  "to_write ps = filter (\<lambda>p. patch_stock p \<noteq> None \<or> patch_version p \<noteq> None) ps"

text \<open>The identifier that an INSERT draws after the pending updates have drawn their instants.\<close>

definition next_key :: "'r env \<Rightarrow> nat \<Rightarrow> 'r world \<Rightarrow> uuid" where
  "next_key env n w = env_uuid4 env (calls w + length (to_write (pending (sess w))) + n)"

definition order_key :: "'r env \<Rightarrow> 'r world \<Rightarrow> row_lock option" where
  "order_key env w = Some (OrderKey (next_key env 0 w))"

definition item_key :: "'r env \<Rightarrow> 'r world \<Rightarrow> row_lock option" where
  "item_key env w = Some (ItemKey (next_key env 0 w))"

definition first_movement_key :: "'r env \<Rightarrow> 'r world \<Rightarrow> row_lock option" where
  "first_movement_key env w = Some (MovementKey (next_key env 0 w))"

text \<open>In the step that first assigns to a loaded item, the assignment is one more update.\<close>

definition movement_key :: "'r env \<Rightarrow> 'r world \<Rightarrow> row_lock option" where
  "movement_key env w = Some (MovementKey (next_key env 1 w))"

text \<open>The foreign key of an order, checked once its row is entered.\<close>

definition order_share :: "order \<Rightarrow> 'r world \<Rightarrow> row_lock option" where
  "order_share r w =
     (if statement_fault (view w) (InsertOrder r) = None then Some (ItemShare (order_item_id r)) else None)"

text \<open>The UPDATE of a commit: the row of the first assignment still to be written.\<close>

definition pending_row :: "'r world \<Rightarrow> row_lock option" where
  "pending_row w = (case to_write (pending (sess w)) of [] \<Rightarrow> None | p # ps \<Rightarrow> Some (ItemWrite (patch_id p)))"

section \<open>The services as processes\<close>

definition transition_steps ::
  "'r env \<Rightarrow> uuid \<Rightarrow> int \<Rightarrow> order_status \<Rightarrow> ('r, order option) proc" where
  "transition_steps env oid v st =
     proc_then (await_on (order_row oid v) (transition_status env oid v st)) (\<lambda>updated.
     if \<not> updated then Finished (Inl (ConflictError ''Order'' oid))
     else await (reload_order oid))"

text \<open>
  The calls with which the services write a change of stock: the item is assigned to, the
  movement inserted (its flush sends the UPDATE of the item first), the item saved, and the
  saved quantity put into the cache.
\<close>

definition write_steps ::
  "'r env \<Rightarrow> 'r cache_service \<Rightarrow> menu_item \<Rightarrow> menu_item \<Rightarrow> (uuid \<Rightarrow> int \<Rightarrow> stock_movement) \<Rightarrow>
     ('r, menu_item) proc" where
  "write_steps env cache item item' new =
     proc_then (await_on (movement_key env)
       (and_then (session_modify item item') (\<lambda>_. create_movement env new))) (\<lambda>_.
     proc_then (await (item_save env item')) (\<lambda>saved.
     proc_then (await (cache_set_stock env cache (item_id saved) (stock_quantity saved))) (\<lambda>_.
     Finished (Inr saved))))"

text \<open>The two branches of a confirmation, and the restoration of a cancellation, once the item is locked.\<close>

definition reject_steps :: "'r env \<Rightarrow> uuid \<Rightarrow> order \<Rightarrow> menu_item \<Rightarrow> ('r, order option) proc" where
  "reject_steps env oid ord item =
     proc_then (await_on (order_row oid (order_version ord))
                  (transition_status env oid (order_version ord) REJECTED)) (\<lambda>updated.
     if \<not> updated then Finished (Inl (ConflictError ''Order'' oid))
     else Finished (Inl (InsufficientStockError (item_id item) (quantity ord) (stock_quantity item))))"

definition deduct_steps :: "'r env \<Rightarrow> 'r cache_service \<Rightarrow> uuid \<Rightarrow> order \<Rightarrow> menu_item \<Rightarrow> ('r, order option) proc" where
  "deduct_steps env cache oid ord item =
     (let before = stock_quantity item;
          item' = item\<lparr>stock_quantity := stock_quantity item - quantity ord,
                       item_version := item_version item + 1\<rparr>
      in proc_then (write_steps env cache item item'
           (stock_movement_init (item_id item) (Some (order_id ord)) DEDUCTION (- quantity ord) before
              (stock_quantity item') (Some (deduction_reason oid)))) (\<lambda>_.
         transition_steps env oid (order_version ord) CONFIRMED))"

definition restore_steps :: "'r env \<Rightarrow> 'r cache_service \<Rightarrow> uuid \<Rightarrow> order \<Rightarrow> menu_item \<Rightarrow> ('r, menu_item) proc" where
  "restore_steps env cache oid ord item =
     (let before = stock_quantity item;
          item' = item\<lparr>stock_quantity := stock_quantity item + quantity ord,
                       item_version := item_version item + 1\<rparr>
      in write_steps env cache item item'
           (stock_movement_init (item_id item) (Some (order_id ord)) RESTORATION (quantity ord) before
              (stock_quantity item') (Some (restoration_reason oid))))"

definition confirm_steps :: "'r env \<Rightarrow> 'r cache_service \<Rightarrow> uuid \<Rightarrow> order \<Rightarrow> ('r, order option) proc" where
  "confirm_steps env cache oid ord =
     proc_then (await_on (item_row (order_item_id ord)) (item_get_by_id_with_lock (order_item_id ord)))
       (\<lambda>locked.
     case locked of
       None \<Rightarrow> Finished (Inl (NotFoundError ''MenuItem'' (order_item_id ord)))
     | Some item \<Rightarrow>
         if stock_quantity item < quantity ord then reject_steps env oid ord item
         else deduct_steps env cache oid ord item)"

definition confirm_proc :: "'r env \<Rightarrow> 'r cache_service \<Rightarrow> uuid \<Rightarrow> ('r, order option) proc" where
  "confirm_proc env cache oid =
     proc_then (await (order_get_by_id oid)) (\<lambda>found.
     case found of
       None \<Rightarrow> Finished (Inl (NotFoundError ''Order'' oid))
     | Some ord \<Rightarrow>
         if \<not> can_transition_to (status ord) CONFIRMED
         then Finished (Inl (InvalidTransitionError (status ord) CONFIRMED))
         else confirm_steps env cache oid ord)"

definition transition_proc :: "'r env \<Rightarrow> uuid \<Rightarrow> order_status \<Rightarrow> ('r, order option) proc" where
  "transition_proc env oid new_status =
     proc_then (await (order_get_by_id oid)) (\<lambda>found.
     case found of
       None \<Rightarrow> Finished (Inl (NotFoundError ''Order'' oid))
     | Some ord \<Rightarrow>
         if \<not> can_transition_to (status ord) new_status
         then Finished (Inl (InvalidTransitionError (status ord) new_status))
         else transition_steps env oid (order_version ord) new_status)"

definition restore_proc :: "'r env \<Rightarrow> 'r cache_service \<Rightarrow> uuid \<Rightarrow> order \<Rightarrow> ('r, unit) proc" where
  "restore_proc env cache oid ord =
     proc_then (await_on (item_row (order_item_id ord)) (item_get_by_id_with_lock (order_item_id ord)))
       (\<lambda>locked.
     case locked of
       None \<Rightarrow> Finished (Inr ())
     | Some item \<Rightarrow> proc_then (restore_steps env cache oid ord item) (\<lambda>_. Finished (Inr ())))"

definition cancel_steps :: "'r env \<Rightarrow> 'r cache_service \<Rightarrow> uuid \<Rightarrow> order \<Rightarrow> ('r, order option) proc" where
  "cancel_steps env cache oid ord =
     proc_then (if status ord \<in> stock_holding_states then restore_proc env cache oid ord
                else Finished (Inr ())) (\<lambda>_.
     transition_steps env oid (order_version ord) CANCELLED)"

definition cancel_proc :: "'r env \<Rightarrow> 'r cache_service \<Rightarrow> uuid \<Rightarrow> ('r, order option) proc" where
  "cancel_proc env cache oid =
     proc_then (await (order_get_by_id oid)) (\<lambda>found.
     case found of
       None \<Rightarrow> Finished (Inl (NotFoundError ''Order'' oid))
     | Some ord \<Rightarrow>
         if \<not> can_transition_to (status ord) CANCELLED
         then Finished (Inl (InvalidTransitionError (status ord) CANCELLED))
         else cancel_steps env cache oid ord)"

definition adjust_proc ::
  "'r env \<Rightarrow> 'r cache_service \<Rightarrow> uuid \<Rightarrow> int \<Rightarrow> string \<Rightarrow> ('r, menu_item) proc" where
  "adjust_proc env cache iid delta why =
     proc_then (await_on (item_row iid) (item_get_by_id_with_lock iid)) (\<lambda>found.
     case found of
       None \<Rightarrow> Finished (Inl (NotFoundError ''MenuItem'' iid))
     | Some item \<Rightarrow>
         (let before = stock_quantity item; new_quantity = before + delta
          in if new_quantity < 0 then Finished (Inl (InsufficientStockError iid \<bar>delta\<bar> before))
             else
               (let item' = item\<lparr>stock_quantity := new_quantity, item_version := item_version item + 1\<rparr>
                in write_steps env cache item item'
                     (stock_movement_init (item_id item) None ADJUSTMENT delta before new_quantity (Some why)))))"

text \<open>
  The INSERT of an order enters its key in the index of the primary key and then checks its
  item; the values are drawn before the statement is sent.
\<close>

definition draw_order :: "'r env \<Rightarrow> (uuid \<Rightarrow> int \<Rightarrow> int \<Rightarrow> order) \<Rightarrow> ('r, order) io" where
  "draw_order env new =
     and_then (session_flush env) (\<lambda>_.
     and_then (uuid4 env) (\<lambda>oid.
     and_then (utc_now env) (\<lambda>created.
     and_then (utc_now env) (\<lambda>updated.
     done_with (new oid created updated)))))"

definition insert_order :: "order \<Rightarrow> ('r, order) io" where
  "insert_order r = and_then (session_execute (InsertOrder r)) (\<lambda>_. session_refresh_order r)"

definition place_proc :: "'r env \<Rightarrow> uuid \<Rightarrow> int \<Rightarrow> string option \<Rightarrow> ('r, order) proc" where
  "place_proc env iid qty ref =
     proc_then (await (item_get_by_id iid)) (\<lambda>found.
     case found of
       None \<Rightarrow> Finished (Inl (NotFoundError ''MenuItem'' iid))
     | Some item \<Rightarrow>
         proc_then (await_on (order_key env) (draw_order env (order_init iid qty (Some PENDING) ref))) (\<lambda>drawn.
         await_on (order_share drawn) (insert_order drawn)))"

text \<open>
  The INSERT of an item enters its key in the index of the primary key and then its name in the
  unique index of the names; the values are drawn before the statement is sent.
\<close>

definition draw_item :: "'r env \<Rightarrow> (uuid \<Rightarrow> int \<Rightarrow> int \<Rightarrow> menu_item) \<Rightarrow> ('r, menu_item) io" where
  "draw_item env new =
     and_then (session_flush env) (\<lambda>_.
     and_then (uuid4 env) (\<lambda>iid.
     and_then (utc_now env) (\<lambda>created.
     and_then (utc_now env) (\<lambda>updated.
     done_with (new iid created updated)))))"

definition insert_item :: "menu_item \<Rightarrow> ('r, menu_item) io" where
  "insert_item it = and_then (session_execute (InsertItem it)) (\<lambda>_. session_refresh_item it)"

definition first_movement_steps :: "'r env \<Rightarrow> 'r cache_service \<Rightarrow> menu_item \<Rightarrow> int \<Rightarrow> ('r, menu_item) proc" where
  "first_movement_steps env cache item stock =
     proc_then (await_on (first_movement_key env)
       (create_movement env
          (stock_movement_init (item_id item) None ADJUSTMENT stock 0 stock (Some initial_stock_reason)))) (\<lambda>_.
     proc_then (await (cache_set_stock env cache (item_id item) (stock_quantity item))) (\<lambda>_.
     Finished (Inr item)))"

definition create_proc ::
  "'r env \<Rightarrow> 'r cache_service \<Rightarrow> string \<Rightarrow> int \<Rightarrow> int \<Rightarrow> string option \<Rightarrow> int \<Rightarrow> ('r, menu_item) proc" where
  "create_proc env cache name price stock description threshold =
     proc_then (await_on (item_key env)
       (draw_item env (menu_item_init name description price (Some stock) (Some threshold) None))) (\<lambda>drawn.
     proc_then (await_on (\<lambda>w. Some (ItemName (item_name drawn))) (insert_item drawn)) (\<lambda>item.
     first_movement_steps env cache item stock))"

definition get_stock_proc :: "'r cache_service \<Rightarrow> uuid \<Rightarrow> ('r, menu_item) proc" where
  "get_stock_proc cache iid =
     proc_then (await (cache_get_stock cache iid)) (\<lambda>cached_qty.
     proc_then (await (item_get_by_id iid)) (\<lambda>found.
     case found of
       None \<Rightarrow> Finished (Inl (NotFoundError ''MenuItem'' iid))
     | Some item \<Rightarrow>
         (case cached_qty of
            None \<Rightarrow> Finished (Inr item)
          | Some q \<Rightarrow>
              proc_then (await (session_modify item (item\<lparr>stock_quantity := q\<rparr>))) (\<lambda>_.
              Finished (Inr (item\<lparr>stock_quantity := q\<rparr>))))))"

section \<open>The reads\<close>

text \<open>
  A read makes one call per query; READ COMMITTED lets every query see what has been committed
  by then.
\<close>

definition detail_proc :: "uuid \<Rightarrow> ('r, order_detail) proc" where
  "detail_proc oid =
     proc_then (await (order_get_by_id oid)) (\<lambda>found.
     case found of
       None \<Rightarrow> Finished (Inl (NotFoundError ''Order'' oid))
     | Some ord \<Rightarrow>
         proc_then (await (item_get_by_id (order_item_id ord))) (\<lambda>item.
         await (and_then (list_movements_for_order oid) (\<lambda>movements.
           let price = (case item of None \<Rightarrow> Dec 0 0 | Some it \<Rightarrow> money (item_price it))
           in case dec_quantize2 (dec_mult price (dec_of_int (quantity ord))) of
                None \<Rightarrow> raise_exn InvalidOperation
              | Some amount \<Rightarrow>
                  done_with
                    \<lparr>od_id = order_id ord, od_item_id = order_item_id ord,
                     od_item_name = (case item of None \<Rightarrow> ''Unknown'' | Some it \<Rightarrow> item_name it),
                     od_item_price = price, od_quantity = quantity ord, od_total_value = amount,
                     od_status = status ord, od_customer_ref = customer_ref ord,
                     od_version = order_version ord, od_created_at = order_created_at ord,
                     od_updated_at = order_updated_at ord, od_movements = movements\<rparr>))))"

definition movements_proc :: "uuid \<Rightarrow> nat \<Rightarrow> ('r, stock_movement list) proc" where
  "movements_proc iid limit =
     proc_then (await (item_get_by_id iid)) (\<lambda>found.
     case found of
       None \<Rightarrow> Finished (Inl (NotFoundError ''MenuItem'' iid))
     | Some item \<Rightarrow> await (list_movements_for_item iid limit))"

definition order_report_proc :: "'r env \<Rightarrow> int \<Rightarrow> ('r, OrderAnalytics) proc" where
  "order_report_proc env days =
     proc_then (await (and_then (since_days env days) (\<lambda>since.
       and_then (session_read (orders_since since)) (\<lambda>rows. done_with (since, rows))))) (\<lambda>counted.
     proc_then (await (and_then (session_read (orders_joined DELIVERED (fst counted))) (\<lambda>rev_rows.
       quantized (order_value_sum rev_rows)))) (\<lambda>rev.
     await (and_then (session_read (orders_joined CANCELLED (fst counted))) (\<lambda>refund_rows.
       and_then (quantized (order_value_sum refund_rows)) (\<lambda>refund.
       done_with
         \<lparr>total_orders = length (snd counted),
          pending_count = count_rows (\<lambda>r. status r = PENDING) (snd counted),
          confirmed_count = count_rows (\<lambda>r. status r = CONFIRMED) (snd counted),
          shipped_count = count_rows (\<lambda>r. status r = SHIPPED) (snd counted),
          delivered_count = count_rows (\<lambda>r. status r = DELIVERED) (snd counted),
          cancelled_count = count_rows (\<lambda>r. status r = CANCELLED) (snd counted),
          rejected_count = count_rows (\<lambda>r. status r = REJECTED) (snd counted),
          revenue = rev, refund_value = refund\<rparr>)))))"

datatype query =
    ListItems
  | ReadItem uuid
  | ListOrders order_filter
  | ReadOrder uuid
  | ListAlerts
  | ListMovements uuid
  | SummaryReport int
  | StockReport
  | OrderReport int
  | MovementReport int

fun query_endpoint :: "query \<Rightarrow> endpoint" where
  "query_endpoint ListItems = GetItems"
| "query_endpoint (ReadItem iid) = GetItem iid"
| "query_endpoint (ListOrders f) = GetOrders f"
| "query_endpoint (ReadOrder oid) = GetOrder oid"
| "query_endpoint ListAlerts = GetStockAlertsLow"
| "query_endpoint (ListMovements iid) = GetStockMovements iid"
| "query_endpoint (SummaryReport days) = GetAnalyticsSummary days"
| "query_endpoint StockReport = GetAnalyticsStock"
| "query_endpoint (OrderReport days) = GetAnalyticsOrders days"
| "query_endpoint (MovementReport days) = GetAnalyticsMovements days"

fun query_proc :: "'r env \<Rightarrow> query \<Rightarrow> ('r, body) proc" where
  "query_proc env ListItems = proc_body (ItemsBody \<circ> map item_response) (await (list_items env))"
| "query_proc env (ReadItem iid) =
     proc_body (ItemBody \<circ> item_response) (proc_mapped not_found_error (await (get_item iid)))"
| "query_proc env (ListOrders f) =
     proc_body (OrdersBody \<circ> map order_response)
       (await (list_orders (of_status f) (fst (date_range f)) (snd (date_range f)) (of_customer_ref f)))"
| "query_proc env (ReadOrder oid) = proc_body OrderDetailBody (proc_mapped not_found_error (detail_proc oid))"
| "query_proc env ListAlerts = proc_body (AlertsBody \<circ> map low_stock_alert) (await get_low_stock_items)"
| "query_proc env (ListMovements iid) =
     proc_body (MovementsBody \<circ> map stock_movement_response)
       (proc_mapped not_found_error (movements_proc iid default_movement_limit))"
| "query_proc env (SummaryReport days) =
     (if \<not> days_valid days then Finished (Inl RequestValidationError)
      else proc_then (await get_stock_analytics) (\<lambda>s.
           proc_then (order_report_proc env days) (\<lambda>orders.
           proc_body (\<lambda>m. SummaryBody \<lparr>as_stock = s, as_orders = orders, as_movements = m\<rparr>)
             (await (get_movement_analytics env days)))))"
| "query_proc env StockReport = proc_body StockAnalyticsBody (await get_stock_analytics)"
| "query_proc env (OrderReport days) =
     (if \<not> days_valid days then Finished (Inl RequestValidationError)
      else proc_body OrderAnalyticsBody (order_report_proc env days))"
| "query_proc env (MovementReport days) =
     (if \<not> days_valid days then Finished (Inl RequestValidationError)
      else proc_body MovementAnalyticsBody (await (get_movement_analytics env days)))"

section \<open>Requests\<close>

datatype client_request =
    TransitionOrder uuid order_action
  | AdjustStock uuid ItemStockAdjust
  | PlaceOrder OrderCreate
  | CreateItem ItemCreate
  | ReadStock uuid
  | Query query

fun request_endpoint :: "client_request \<Rightarrow> endpoint" where
  "request_endpoint (TransitionOrder oid a) = PostOrderAction oid a"
| "request_endpoint (AdjustStock iid b) = PatchItemStock iid b"
| "request_endpoint (PlaceOrder b) = PostOrder b"
| "request_endpoint (CreateItem b) = PostItem b"
| "request_endpoint (ReadStock iid) = GetStock iid"
| "request_endpoint (Query q) = query_endpoint q"

fun action_proc :: "'r env \<Rightarrow> 'r cache_service \<Rightarrow> order_action \<Rightarrow> uuid \<Rightarrow> ('r, order option) proc" where
  "action_proc env cache ConfirmAction oid = confirm_proc env cache oid"
| "action_proc env cache ShipAction oid = transition_proc env oid SHIPPED"
| "action_proc env cache DeliverAction oid = transition_proc env oid DELIVERED"
| "action_proc env cache CancelAction oid = cancel_proc env cache oid"

fun endpoint_proc :: "'r env \<Rightarrow> client_request \<Rightarrow> ('r, body) proc" where
  "endpoint_proc env (TransitionOrder oid a) =
     proc_then (proc_mapped transition_error (action_proc env (get_cache env) a oid)) (\<lambda>found.
     case found of None \<Rightarrow> Finished (Inl ResponseValidationError)
     | Some r \<Rightarrow> Finished (Inr (OrderBody (order_response r))))"
| "endpoint_proc env (AdjustStock iid b) =
     (if \<not> item_stock_adjust_valid b then Finished (Inl RequestValidationError)
      else proc_body (ItemBody \<circ> item_response)
             (proc_mapped adjust_error (adjust_proc env (get_cache env) iid (sa_delta b) (sa_reason b))))"
| "endpoint_proc env (PlaceOrder b) =
     (if \<not> order_create_valid b then Finished (Inl RequestValidationError)
      else proc_body (OrderBody \<circ> order_response)
             (proc_mapped not_found_error (place_proc env (oc_item_id b) (oc_quantity b) (oc_customer_ref b))))"
| "endpoint_proc env (CreateItem b) =
     (if \<not> item_create_valid b then Finished (Inl RequestValidationError)
      else proc_body (ItemBody \<circ> item_response)
             (proc_mapped (create_error (ic_name b))
               (create_proc env (get_cache env) (ic_name b) (price_cents b) (ic_stock_quantity b)
                 (ic_description b) (ic_low_stock_threshold b))))"
| "endpoint_proc env (ReadStock iid) =
     proc_body (StockBody \<circ> stock_response) (proc_mapped not_found_error (get_stock_proc (get_cache env) iid))"
| "endpoint_proc env (Query q) = query_proc env q"

text \<open>What \<open>get_db\<close> does with the outcome of the endpoint: commit or roll back, then close.\<close>

definition end_request :: "'r env \<Rightarrow> exn + 'a \<Rightarrow> ('r, 'a) io" where
  "end_request env r = (\<lambda>w.
     let body = and_then (\<lambda>w. (r, w)) (\<lambda>a. and_then (session_commit env) (\<lambda>_. done_with a));
         on_error = (\<lambda>e. if is_HTTPException e
                         then and_then (session_commit env) (\<lambda>_. raise_exn e)
                         else and_then session_rollback (\<lambda>_. raise_exn e))
     in case catching body on_error w of (r', w') \<Rightarrow> (r', snd (session_close w')))"

definition request_proc :: "'r env \<Rightarrow> client_request \<Rightarrow> ('r, body) proc" where
  "request_proc env q = settle (endpoint_proc env q) (\<lambda>r. await_on pending_row (end_request env r))"

section \<open>A request that runs alone\<close>

text \<open>
  Without other requests in between, a process is the endpoint of \<open>Api\<close> inside \<open>get_db\<close>: the
  processes do what the services do, split at the points where others may run.
\<close>

lemma run_alone_settle:
  "run_alone (settle p k) = (\<lambda>w. case run_alone p w of (r, w') \<Rightarrow> run_alone (k r) w')"
proof (induction p)
  case (Finished r)
  show ?case by simp
next
  case (Await l f)
  have "run_alone (settle (fst (f w)) k) = (\<lambda>v. case run_alone (fst (f w)) v of (r, w') \<Rightarrow> run_alone (k r) w')"
    for w
    by (rule Await [of "f w"]) (auto intro: fsts.intros simp: prod_set_defs)
  then show ?case by (simp add: fun_eq_iff case_prod_beta)
qed

lemma run_alone_then: "run_alone (proc_then p k) = and_then (run_alone p) (\<lambda>a. run_alone (k a))"
  by (simp add: proc_then_def run_alone_settle and_then_def fun_eq_iff split: prod.split sum.split)

lemma run_alone_mapped: "run_alone (proc_mapped f p) = mapped f (run_alone p)"
  by (simp add: proc_mapped_def run_alone_settle mapped_def catching_def raise_exn_def fun_eq_iff
      split: prod.split sum.split)

lemma run_alone_await: "run_alone (await_on l m) = m" "run_alone (await m) = m"
  by (simp_all add: await_def await_on_def fun_eq_iff case_prod_beta)

lemma run_alone_finished: "run_alone (Finished (Inr a)) = done_with a" "run_alone (Finished (Inl e)) = raise_exn e"
  by (simp_all add: done_with_def raise_exn_def)

declare run_alone.simps(1) [simp del]

lemma run_alone_body: "run_alone (proc_body f p) = as_body f (run_alone p)"
  by (simp add: proc_body_def as_body_def run_alone_then run_alone_finished)

lemma run_alone_branches:
  "run_alone (if b then p else q) = (if b then run_alone p else run_alone q)"
  "run_alone (case x of None \<Rightarrow> p | Some a \<Rightarrow> g a) = (case x of None \<Rightarrow> run_alone p | Some a \<Rightarrow> run_alone (g a))"
  by (simp_all split: option.split)

lemmas run_alone_simps = run_alone_then run_alone_mapped run_alone_await run_alone_body
  run_alone_branches run_alone_finished

lemma and_then_units: "and_then m (\<lambda>_. done_with ()) = m" "and_then m' done_with = m'"
  for m :: "('r, unit) io" and m' :: "('r, 'a) io"
  by (simp_all add: and_then_def done_with_def fun_eq_iff split: prod.split sum.split)

lemma run_alone_services:
  "run_alone (transition_proc env oid st) = transition env oid st"
  "run_alone (confirm_proc env cache oid) = confirm_order env cache oid"
  "run_alone (cancel_proc env cache oid) = cancel_order env cache oid"
  "run_alone (adjust_proc env cache iid delta why) = adjust_stock env cache iid delta why"
  "run_alone (place_proc env iid qty ref) = place_order env iid qty ref"
  "run_alone (create_proc env cache name price stock description threshold) =
     create_item env cache name price stock description threshold"
  "run_alone (get_stock_proc cache iid) = get_stock cache iid"
  by (simp_all add: transition_proc_def transition_def confirm_proc_def confirm_order_def cancel_proc_def confirm_steps_def cancel_steps_def
      reject_steps_def deduct_steps_def restore_steps_def cancel_order_def restore_proc_def restore_stock_def adjust_proc_def adjust_stock_def place_proc_def
      place_order_def create_proc_def create_item_def draw_item_def insert_item_def item_create_def
      session_insert_item_def get_stock_proc_def get_stock_def transition_steps_def write_steps_def draw_order_def first_movement_steps_def
      insert_order_def order_create_def Let_def run_alone_simps and_then_units
      and_then_assoc cong: option.case_cong if_cong)

lemma run_alone_action: "run_alone (action_proc env cache a oid) = service_method env cache a oid"
  by (cases a) (simp_all add: run_alone_services ship_order_def deliver_order_def)

lemma run_alone_reads:
  "run_alone (detail_proc oid) = get_order_detail oid"
  "run_alone (movements_proc iid limit) = get_movements iid limit"
  "run_alone (order_report_proc env days) = get_order_analytics env days"
  by (simp_all add: detail_proc_def get_order_detail_def movements_proc_def get_movements_def
      order_report_proc_def get_order_analytics_def run_alone_simps and_then_assoc cong: option.case_cong)

lemma run_alone_query: "run_alone (query_proc env q) = handler env True (query_endpoint q)"
  by (cases q)
     (simp_all add: run_alone_simps run_alone_reads api_list_items_def api_get_item_def api_list_orders_def
       api_get_order_def api_low_stock_alerts_def api_get_movements_def api_analytics_summary_def
       api_stock_analytics_def api_order_analytics_def api_movement_analytics_def validated_def as_body_def)

lemma run_alone_endpoint: "run_alone (endpoint_proc env q) = handler env True (request_endpoint q)"
  by (cases q)
     (simp_all add: run_alone_simps run_alone_services run_alone_action run_alone_query transition_router_def
       api_adjust_stock_def api_place_order_def api_create_item_def api_get_stock_def validated_def cong: option.case_cong)

lemma get_db_end_request:
  "get_db env m w = (case m (open_session w) of (r, w') \<Rightarrow> end_request env r w')"
  by (simp add: get_db_def end_request_def open_session_def Let_def and_then_def catching_def
      split: prod.split sum.split)

lemma run_alone_request:
  "run_alone (request_proc env q) (open_session w) = get_db env (handler env True (request_endpoint q)) w"
  by (simp add: request_proc_def run_alone_settle run_alone_await run_alone_endpoint get_db_end_request)

end
