(* ===== verification/Concurrent_System.thy ===== *)
theory Concurrent_System
  imports Interleaving
begin

text \<open>
  The system of all running requests: the committed tables, Redis, the source of identifiers
  and instants, and per request its process, its session and the locks it holds. One step
  lets one request make its next call, unless the call needs a lock that conflicts with one of
  another request. \<open>interference\<close> is the interface between a request and the others: what a request may
  rely on between two of its calls, and what it owes to the others in return. What every
  process keeps under it, every run of the system keeps.
\<close>

section \<open>Steps of the system\<close>

record ('r, 'a) client =
  client_proc :: "('r, 'a) proc"
  client_session :: session
  client_held :: "row_lock set"

record ('r, 'a) system =
  sys_db :: tables
  sys_redis :: 'r
  sys_calls :: nat
  clients :: "('r, 'a) client list"

fun finished :: "('r, 'a) proc \<Rightarrow> bool" where
  "finished (Finished r) \<longleftrightarrow> True"
| "finished (Await l f) \<longleftrightarrow> False"

definition client_world :: "('r, 'a) system \<Rightarrow> ('r, 'a) client \<Rightarrow> 'r world" where
  "client_world s c =
     \<lparr>db = sys_db s, sess = client_session c, redis = sys_redis s, calls = sys_calls s\<rparr>"

definition held_elsewhere :: "nat \<Rightarrow> row_lock \<Rightarrow> ('r, 'a) system \<Rightarrow> bool" where
  "held_elsewhere p k s \<longleftrightarrow>
     list_ex (\<lambda>q. q \<noteq> p \<and> (\<exists>k' \<in> client_held (clients s ! q). conflicts k k')) [0..<length (clients s)]"

definition stepped :: "nat \<Rightarrow> row_lock option \<Rightarrow> ('r, 'a) proc \<times> 'r world \<Rightarrow> ('r, 'a) system \<Rightarrow> ('r, 'a) system" where
  "stepped p k pw s =
     \<lparr>sys_db = db (snd pw), sys_redis = redis (snd pw), sys_calls = calls (snd pw),
      clients = (clients s)[p :=
        \<lparr>client_proc = fst pw, client_session = sess (snd pw),
         client_held = (if finished (fst pw) then {}
                        else client_held (clients s ! p) \<union> set_option k)\<rparr>]\<rparr>"

definition advance :: "nat \<Rightarrow> ('r, 'a) system \<Rightarrow> ('r, 'a) system option" where
  "advance p s =
     (if p < length (clients s) then
        (case client_proc (clients s ! p) of
           Finished r \<Rightarrow> None
         | Await l f \<Rightarrow>
             (let w = client_world s (clients s ! p)
              in if (case l w of None \<Rightarrow> False | Some k \<Rightarrow> held_elsewhere p k s) then None
                 else Some (stepped p (l w) (f w) s)))
      else None)"

text \<open>A schedule names who makes the next call; the reachable systems are those of some schedule.\<close>

fun run_schedule :: "nat list \<Rightarrow> ('r, 'a) system \<Rightarrow> ('r, 'a) system option" where
  "run_schedule [] s = Some s"
| "run_schedule (p # ps) s = (case advance p s of None \<Rightarrow> None | Some s' \<Rightarrow> run_schedule ps s')"

inductive reaches :: "('r, 'a) system \<Rightarrow> ('r, 'a) system \<Rightarrow> bool" where
  reaches_refl: "reaches s s"
| reaches_step: "reaches s s' \<Longrightarrow> advance p s' = Some s'' \<Longrightarrow> reaches s s''"

definition start :: "tables \<Rightarrow> 'r \<Rightarrow> nat \<Rightarrow> ('r, 'a) proc list \<Rightarrow> ('r, 'a) system" where
  "start t r n ps =
     \<lparr>sys_db = t, sys_redis = r, sys_calls = n,
      clients = map (\<lambda>p. \<lparr>client_proc = p, client_session = fresh_session, client_held = {}\<rparr>) ps\<rparr>"

definition answer_of :: "('r, 'a) client \<Rightarrow> (exn + 'a) option" where
  "answer_of c = (case client_proc c of Finished r \<Rightarrow> Some r | Await l f \<Rightarrow> None)"

lemma reaches_first:
  assumes "reaches b c" and "advance p a = Some b"
  shows "reaches a c"
  using assms by (induction) (auto intro: reaches.intros)

lemma run_schedule_reaches: "run_schedule ps s = Some s' \<Longrightarrow> reaches s s'"
  by (induction ps arbitrary: s) (auto intro: reaches_refl reaches_first split: option.splits)

lemma run_schedule_snoc:
  "run_schedule ps s = Some s' \<Longrightarrow> run_schedule (ps @ [p]) s = advance p s'"
  by (induction ps arbitrary: s) (auto split: option.splits)

lemma reaches_iff_schedule: "reaches s s' \<longleftrightarrow> (\<exists>ps. run_schedule ps s = Some s')"
proof
  show "\<exists>ps. run_schedule ps s = Some s'" if "reaches s s'"
    using that
  proof (induction)
    case (reaches_refl s)
    show ?case by (rule exI [of _ "[]"]) simp
  qed (metis run_schedule_snoc)
qed (auto intro: run_schedule_reaches)

lemma advance_cases:
  assumes "advance p s = Some s'"
  obtains l f where "p < length (clients s)" "client_proc (clients s ! p) = Await l f"
    "\<forall>k. l (client_world s (clients s ! p)) = Some k \<longrightarrow> \<not> held_elsewhere p k s"
    "s' = stepped p (l (client_world s (clients s ! p))) (f (client_world s (clients s ! p))) s"
  using assms by (auto simp: advance_def Let_def split: if_splits proc.splits option.splits)

lemma client_world_simps [simp]:
  "db (client_world s c) = sys_db s" "sess (client_world s c) = client_session c"
  "redis (client_world s c) = sys_redis s" "calls (client_world s c) = sys_calls s"
  by (simp_all add: client_world_def)

text \<open>
  What a lock keeps others from changing. A lock for writing, of either kind, keeps the row from
  all other writers; a shared lock keeps nothing that is modelled, since no key is ever changed.
  Locks that do not conflict keep different things.
\<close>

fun owned :: "row_lock \<Rightarrow> row_lock set" where
  "owned (ItemWrite i) = {ItemRow i}"
| "owned (ItemShare i) = {}"
| "owned k = {k}"

definition lock_set :: "row_lock option \<Rightarrow> row_lock set" where
  "lock_set k = (case k of None \<Rightarrow> {} | Some l \<Rightarrow> owned l)"

definition held_rows :: "('r, 'a) client \<Rightarrow> row_lock set" where
  "held_rows c = \<Union> (owned ` client_held c)"

lemma lock_set_simps [simp]: "lock_set None = {}" "lock_set (Some k) = owned k"
  by (simp_all add: lock_set_def)

lemma owned_disjoint: "\<not> conflicts k k' \<Longrightarrow> owned k \<inter> owned k' = {}"
  by (cases k; cases k') auto

lemma owned_union: "\<Union> (owned ` (L \<union> set_option k)) = \<Union> (owned ` L) \<union> lock_set k"
  by (cases k) auto

lemma stepped_simps [simp]:
  "sys_db (stepped p k pw s) = db (snd pw)"
  "length (clients (stepped p k pw s)) = length (clients s)"
  "q \<noteq> p \<Longrightarrow> clients (stepped p k pw s) ! q = clients s ! q"
  by (simp_all add: stepped_def)

lemma stepped_client:
  "p < length (clients s) \<Longrightarrow> clients (stepped p k pw s) ! p =
     \<lparr>client_proc = fst pw, client_session = sess (snd pw),
      client_held = (if finished (fst pw) then {} else client_held (clients s ! p) \<union> set_option k)\<rparr>"
  by (simp add: stepped_def)

lemma stepped_rows:
  "p < length (clients s) \<Longrightarrow> held_rows (clients (stepped p k pw s) ! p) =
     (if finished (fst pw) then {} else held_rows (clients s ! p) \<union> lock_set k)"
  using owned_union [of "client_held (clients s ! p)" k] by (simp add: stepped_client held_rows_def del: image_Un)

lemma held_elsewhere_iff:
  "held_elsewhere p k s \<longleftrightarrow>
     (\<exists>q < length (clients s). q \<noteq> p \<and> (\<exists>k' \<in> client_held (clients s ! q). conflicts k k'))"
  by (auto simp: held_elsewhere_def list_ex_iff)

section \<open>Running to the end\<close>

text \<open>A request can always run to its end while the others hold no lock, as if it were alone.\<close>

definition ended :: "nat \<Rightarrow> exn + 'a \<Rightarrow> 'r world \<Rightarrow> ('r, 'a) system \<Rightarrow> ('r, 'a) system" where
  "ended p r w s =
     \<lparr>sys_db = db w, sys_redis = redis w, sys_calls = calls w,
      clients = (clients s)[p := \<lparr>client_proc = Finished r, client_session = sess w, client_held = {}\<rparr>]\<rparr>"

lemma advance_free:
  assumes "p < length (clients s)" and "client_proc (clients s ! p) = Await l f"
    and "\<And>k. l (client_world s (clients s ! p)) = Some k \<Longrightarrow> \<not> held_elsewhere p k s"
  shows "advance p s = Some (stepped p (l (client_world s (clients s ! p))) (f (client_world s (clients s ! p))) s)"
  using assms by (auto simp: advance_def Let_def split: option.splits)

lemma stepped_world:
  "p < length (clients s) \<Longrightarrow> client_world (stepped p k pw s) (clients (stepped p k pw s) ! p) = snd pw"
  by (simp add: client_world_def stepped_def)

lemma reaches_trans: "reaches b c \<Longrightarrow> reaches a b \<Longrightarrow> reaches a c"
  by (induction rule: reaches.induct) (auto intro: reaches_step)

lemma runs_to_end:
  assumes "p < length (clients s)" and "\<not> finished (client_proc (clients s ! p))"
    and "\<And>q. q < length (clients s) \<Longrightarrow> q \<noteq> p \<Longrightarrow> client_held (clients s ! q) = {}"
    and "run_alone (client_proc (clients s ! p)) (client_world s (clients s ! p)) = (r, w)"
  shows "reaches s (ended p r w s)"
  using assms
proof (induction "client_proc (clients s ! p)" arbitrary: s)
  case (Finished x)
  then show ?case by (metis finished.simps(1))
next
  case (Await l f)
  let ?w = "client_world s (clients s ! p)"
  let ?s = "stepped p (l ?w) (f ?w) s"
  have P: "client_proc (clients s ! p) = Await l f" using Await.hyps(2) by simp
  have free: "\<not> held_elsewhere p k s" for k
    using Await.prems(3) by (auto simp: held_elsewhere_iff)
  have step: "advance p s = Some ?s" by (rule advance_free [OF Await.prems(1) P free])
  have me: "client_proc (clients ?s ! p) = fst (f ?w)" "client_world ?s (clients ?s ! p) = snd (f ?w)"
    using stepped_client [OF Await.prems(1)] stepped_world [OF Await.prems(1)] by simp_all
  have alone: "run_alone (fst (f ?w)) (snd (f ?w)) = (r, w)"
    using Await.prems(4) by (simp add: P case_prod_beta)
  show ?case
  proof (cases "fst (f ?w)")
    case (Finished x)
    then have "x = r" "snd (f ?w) = w" using alone by (simp_all add: run_alone.simps(1))
    then have "?s = ended p r w s" using Finished by (simp add: stepped_def ended_def)
    with step show ?thesis by (metis reaches_refl reaches_step)
  next
    case (Await l' f')
    have "reaches ?s (ended p r w ?s)"
    proof (rule Await.hyps(1) [of "f ?w" ?s])
      show "client_held (clients ?s ! q) = {}" if "q < length (clients ?s)" "q \<noteq> p" for q
        using that Await.prems(3) by simp
      show "run_alone (client_proc (clients ?s ! p)) (client_world ?s (clients ?s ! p)) = (r, w)"
        using alone me by simp
    qed (use me Await Await.prems(1) in \<open>auto simp: prod_set_defs intro: fsts.intros\<close>)
    moreover have "ended p r w ?s = ended p r w s" by (simp add: ended_def stepped_def)
    ultimately show ?thesis using reaches_first [OF _ step] by simp
  qed
qed

section \<open>Interference\<close>

text \<open>
  \<open>undisturbed L t t'\<close>: what a request that owns the locks \<open>L\<close> may rely on between two of its
  calls. \<open>reserved\<close> are locks that a request may own without having asked for them, because no
  other request will ever ask.
\<close>

locale interference =
  fixes good :: "tables \<Rightarrow> bool"
    and undisturbed :: "row_lock set \<Rightarrow> tables \<Rightarrow> tables \<Rightarrow> bool"
    and reserved :: "row_lock set"
  assumes undisturbed_refl: "undisturbed L t t"
    and undisturbed_trans: "undisturbed L t t' \<Longrightarrow> undisturbed L t' t'' \<Longrightarrow> undisturbed L t t''"
begin

definition grants :: "row_lock set \<Rightarrow> tables \<Rightarrow> tables \<Rightarrow> bool" where
  "grants own t t' \<longleftrightarrow> good t' \<and> (\<forall>L. L \<inter> own = {} \<longrightarrow> undisturbed L t t')"

primrec robust :: "('r, 'a) proc \<Rightarrow> row_lock set \<Rightarrow> session \<Rightarrow> tables \<Rightarrow> bool" where
  "robust (Finished r) = (\<lambda>own s t. True)"
| "robust (Await l f) = (\<lambda>own s t.
     \<forall>w. sess w = s \<longrightarrow> good (db w) \<longrightarrow> undisturbed own t (db w) \<longrightarrow>
       lock_set (l w) \<inter> reserved \<subseteq> own \<and>
       grants (own \<union> lock_set (l w)) (db w) (db (snd (f w))) \<and>
       (case map_prod robust id (f w) of (g, w') \<Rightarrow> g (own \<union> lock_set (l w)) (sess w') (db w')))"

lemma grants_refl: "good t \<Longrightarrow> grants own t t"
  by (simp add: grants_def undisturbed_refl)

lemma robust_undisturbed: "robust p own s t \<Longrightarrow> undisturbed own t t' \<Longrightarrow> robust p own s t'"
  by (cases p) (auto intro: undisturbed_trans)

lemma robustD:
  assumes "robust (Await l f) own (sess w) (db w)" and "good (db w)"
  shows "lock_set (l w) \<inter> reserved \<subseteq> own"
    and "grants (own \<union> lock_set (l w)) (db w) (db (snd (f w)))"
    and "robust (fst (f w)) (own \<union> lock_set (l w)) (sess (snd (f w))) (db (snd (f w)))"
  using assms undisturbed_refl by (auto simp: case_prod_beta)

lemma robust_finished: "finished p \<Longrightarrow> robust p own s t"
  by (cases p) simp_all

lemma robust_await:
  assumes "\<And>w. sess w = s \<Longrightarrow> good (db w) \<Longrightarrow> undisturbed own t (db w) \<Longrightarrow>
      lock_set (l w) \<inter> reserved \<subseteq> own \<and>
      wp m (\<lambda>r w'. grants (own \<union> lock_set (l w)) (db w) (db w') \<and>
              robust (k r) (own \<union> lock_set (l w)) (sess w') (db w')) w"
  shows "robust (settle (await_on l m) k) own s t"
  using assms by (simp add: await_on_def wp_def case_prod_beta)

text \<open>A call that leaves the committed tables alone.\<close>

lemma robust_call:
  assumes "\<And>w. sess w = s \<Longrightarrow> good (db w) \<Longrightarrow> undisturbed own t (db w) \<Longrightarrow>
      lock_set (l w) \<inter> reserved \<subseteq> own \<and>
      wp m (\<lambda>r w'. db w' = db w \<and> robust (k r) (own \<union> lock_set (l w)) (sess w') (db w)) w"
  shows "robust (settle (await_on l m) k) own s t"
proof (rule robust_await)
  fix w :: "'a world"
  assume w: "sess w = s" "good (db w)" "undisturbed own t (db w)"
  show "lock_set (l w) \<inter> reserved \<subseteq> own \<and>
      wp m (\<lambda>r w'. grants (own \<union> lock_set (l w)) (db w) (db w') \<and>
              robust (k r) (own \<union> lock_set (l w)) (sess w') (db w')) w"
    using assms [OF w] grants_refl [OF w(2)] by (auto simp: wp_def split: prod.splits)
qed

text \<open>
  The invariant of the system, for an assignment of reserved locks to the requests: the
  committed tables are good, every process is robust, no lock has two holders.
\<close>

definition safe :: "(nat \<Rightarrow> row_lock set) \<Rightarrow> ('r, 'a) system \<Rightarrow> bool" where
  "safe base s \<longleftrightarrow> good (sys_db s) \<and>
     (\<forall>p < length (clients s).
        robust (client_proc (clients s ! p)) (held_rows (clients s ! p) \<union> base p)
          (client_session (clients s ! p)) (sys_db s) \<and>
        held_rows (clients s ! p) \<inter> reserved \<subseteq> base p \<and>
        (\<forall>q < length (clients s). p \<noteq> q \<longrightarrow>
           held_rows (clients s ! p) \<inter> held_rows (clients s ! q) = {}))"

definition shared_out :: "(nat \<Rightarrow> row_lock set) \<Rightarrow> bool" where
  "shared_out base \<longleftrightarrow> (\<forall>p. base p \<subseteq> reserved) \<and> (\<forall>p q. p \<noteq> q \<longrightarrow> base p \<inter> base q = {})"

lemma safeD:
  assumes "safe base s" and "p < length (clients s)"
  shows "good (sys_db s)"
    and "robust (client_proc (clients s ! p)) (held_rows (clients s ! p) \<union> base p)
           (client_session (clients s ! p)) (sys_db s)"
    and "held_rows (clients s ! p) \<inter> reserved \<subseteq> base p"
    and "q < length (clients s) \<Longrightarrow> p \<noteq> q \<Longrightarrow>
           held_rows (clients s ! p) \<inter> held_rows (clients s ! q) = {}"
  using assms unfolding safe_def by blast+

lemma safe_owns_disjoint:
  assumes "safe base s" and "shared_out base" and "p < length (clients s)" "q < length (clients s)" "p \<noteq> q"
  shows "(held_rows (clients s ! p) \<union> base p) \<inter> (held_rows (clients s ! q) \<union> base q) = {}"
  using safeD(3,4) [OF assms(1,3)] safeD(3) [OF assms(1,4)] assms(2,4,5)
  unfolding shared_out_def by blast

text \<open>A step disturbs no other request: its locks are its own, and nobody else holds the new one.\<close>

lemma lock_free:
  assumes "\<forall>k. lk = Some k \<longrightarrow> \<not> held_elsewhere p k s" and "q < length (clients s)" "q \<noteq> p"
  shows "lock_set lk \<inter> held_rows (clients s ! q) = {}"
proof (cases lk)
  case (Some k)
  then have "owned k \<inter> owned k' = {}" if "k' \<in> client_held (clients s ! q)" for k'
    using assms that by (intro owned_disjoint) (auto simp: held_elsewhere_iff)
  then show ?thesis by (auto simp: Some held_rows_def)
qed simp

lemma safe_keeps:
  assumes safe: "safe base s" and base: "shared_out base" and step: "advance p s = Some s'"
    and q: "q < length (clients s)" "q \<noteq> p"
  shows "undisturbed (held_rows (clients s ! q) \<union> base q) (sys_db s) (sys_db s')"
proof -
  from step obtain l f where p: "p < length (clients s)" "client_proc (clients s ! p) = Await l f"
    and free: "\<forall>k. l (client_world s (clients s ! p)) = Some k \<longrightarrow> \<not> held_elsewhere p k s"
    and s': "s' = stepped p (l (client_world s (clients s ! p))) (f (client_world s (clients s ! p))) s"
    by (rule advance_cases)
  define w where "w = client_world s (clients s ! p)"
  define own where "own = held_rows (clients s ! p) \<union> base p"
  have rob: "robust (Await l f) own (sess w) (db w)" and good: "good (db w)"
    using safeD(1,2) [OF safe p(1)] p(2) by (simp_all add: w_def own_def)
  note r = robustD [OF rob good]
  have k: "lock_set (l w) \<inter> reserved \<subseteq> base p"
    using r(1) safeD(3) [OF safe p(1)] unfolding own_def by blast
  have "(held_rows (clients s ! q) \<union> base q) \<inter> own = {}"
    using safe_owns_disjoint [OF safe base p(1) q(1)] q(2) by (auto simp: own_def)
  moreover have "base q \<subseteq> reserved" "base p \<inter> base q = {}"
    using base q(2) by (simp_all add: shared_out_def)
  ultimately have "(held_rows (clients s ! q) \<union> base q) \<inter> (own \<union> lock_set (l w)) = {}"
    using lock_free [OF free q] k by (auto simp: w_def)
  with r(2) show ?thesis by (simp add: grants_def s' w_def)
qed

lemma safe_locks:
  assumes safe: "safe base s" and step: "advance p s = Some s'"
    and ab: "a < length (clients s)" "b < length (clients s)" "a \<noteq> b"
  shows "held_rows (clients s' ! a) \<inter> held_rows (clients s' ! b) = {}"
proof -
  from step obtain l f where p: "p < length (clients s)"
    and free: "\<forall>k. l (client_world s (clients s ! p)) = Some k \<longrightarrow> \<not> held_elsewhere p k s"
    and s': "s' = stepped p (l (client_world s (clients s ! p))) (f (client_world s (clients s ! p))) s"
    by (rule advance_cases)
  have other: "clients s' ! q = clients s ! q" if "q \<noteq> p" for q using that by (simp add: s')
  have mine: "held_rows (clients s' ! p) \<inter> held_rows (clients s' ! q) = {}"
    if q: "q < length (clients s)" "q \<noteq> p" for q
  proof -
    have "held_rows (clients s ! p) \<inter> held_rows (clients s ! q) = {}"
      by (rule safeD(4) [OF safe p q(1)]) (use q(2) in simp)
    then show ?thesis
      using lock_free [OF free q] q(2) by (simp add: s' stepped_rows [OF p] Int_Un_distrib2)
  qed
  consider "a = p" | "b = p" | "a \<noteq> p" "b \<noteq> p" by blast
  then show ?thesis
  proof cases
    case 1
    with ab mine [OF ab(2)] show ?thesis by simp
  next
    case 2
    with ab mine [OF ab(1)] show ?thesis by (simp add: Int_commute)
  next
    case 3
    with safeD(4) [OF safe ab] show ?thesis by (simp add: other)
  qed
qed

lemma safe_step:
  assumes safe: "safe base s" and base: "shared_out base" and step: "advance p s = Some s'"
  shows "safe base s' \<and> undisturbed {} (sys_db s) (sys_db s')"
proof -
  from step obtain l f where p: "p < length (clients s)" "client_proc (clients s ! p) = Await l f"
    and free: "\<forall>k. l (client_world s (clients s ! p)) = Some k \<longrightarrow> \<not> held_elsewhere p k s"
    and s': "s' = stepped p (l (client_world s (clients s ! p))) (f (client_world s (clients s ! p))) s"
    by (rule advance_cases)
  define w where "w = client_world s (clients s ! p)"
  define own where "own = held_rows (clients s ! p) \<union> base p"
  define k where "k = lock_set (l w)"
  have rob: "robust (Await l f) own (sess w) (db w)" and good: "good (db w)"
    using safeD(1,2) [OF safe p(1)] p(2) by (simp_all add: w_def own_def)
  note r = robustD [OF rob good, folded k_def]
  have k: "k \<inter> reserved \<subseteq> base p"
    using r(1) safeD(3) [OF safe p(1)] unfolding own_def by blast
  note keeps = safe_keeps [OF safe base step]
  have s'': "s' = stepped p (l w) (f w) s" by (simp add: s' w_def)
  have me: "client_proc (clients s' ! p) = fst (f w)" "client_session (clients s' ! p) = sess (snd (f w))"
      "held_rows (clients s' ! p) = (if finished (fst (f w)) then {} else held_rows (clients s ! p) \<union> k)"
    using stepped_client [OF p(1)] stepped_rows [OF p(1)] by (simp_all add: s'' k_def)
  have other: "clients s' ! q = clients s ! q" if "q \<noteq> p" for q using that by (simp add: s'')
  have "robust (client_proc (clients s' ! q)) (held_rows (clients s' ! q) \<union> base q)
      (client_session (clients s' ! q)) (sys_db s')" if "q < length (clients s)" for q
  proof (cases "q = p")
    case True
    have "held_rows (clients s ! p) \<union> k \<union> base p = own \<union> k" by (auto simp: own_def)
    then show ?thesis using True r(3) me by (simp add: s'' robust_finished)
  next
    case False
    then show ?thesis
      using robust_undisturbed [OF safeD(2) [OF safe that]] keeps [OF that False] other [OF False]
      by simp
  qed
  moreover have "held_rows (clients s' ! q) \<inter> reserved \<subseteq> base q" if "q < length (clients s)" for q
    using safeD(3) [OF safe that] k me other by (cases "q = p") auto
  moreover have "good (sys_db s')" "undisturbed {} (sys_db s) (sys_db s')"
    using r(2) by (simp_all add: s'' grants_def w_def)
  moreover have "length (clients s') = length (clients s)" by (simp add: s'')
  ultimately show ?thesis
    using safe_locks [OF safe step] unfolding safe_def by (intro conjI allI impI) simp_all
qed

lemma safe_reaches:
  assumes "reaches s s'" and "safe base s" and "shared_out base"
  shows "safe base s' \<and> undisturbed {} (sys_db s) (sys_db s')"
  using assms
  by (induction) (auto intro: undisturbed_refl dest: safe_step [OF _ assms(3)] undisturbed_trans)

lemma safe_start:
  assumes "good t" and "\<And>p. p < length ps \<Longrightarrow> robust (ps ! p) (base p) fresh_session t"
  shows "safe base (start t r n ps)"
  using assms by (simp add: safe_def start_def held_rows_def)

end

end
