(* ===== verification/Read_Requests.thy ===== *)
theory Read_Requests
  imports Concurrent_System
begin

text \<open>
  The requests that only read. \<open>reading p n\<close>: the process makes at most \<open>n\<close> calls, needs no
  lock and leaves the tables and its session as they are. Such a process is robust under every
  interference.
\<close>

section \<open>Processes that read\<close>

definition read_call :: "('r, 'a) io \<Rightarrow> bool" where
  "read_call m \<longleftrightarrow> (\<forall>w. db (snd (m w)) = db w \<and> sess (snd (m w)) = sess w)"

primrec reading :: "('r, 'a) proc \<Rightarrow> nat \<Rightarrow> bool" where
  "reading (Finished r) = (\<lambda>n. True)"
| "reading (Await l f) = (\<lambda>n. 0 < n \<and> (\<forall>w. l w = None \<and> db (snd (f w)) = db w \<and> sess (snd (f w)) = sess w \<and>
     (case map_prod reading id (f w) of (g, w') \<Rightarrow> g (n - 1))))"

lemma readingD:
  assumes "reading (Await l f) n"
  shows "0 < n" "l w = None" "db (snd (f w)) = db w" "sess (snd (f w)) = sess w" "reading (fst (f w)) (n - 1)"
  using assms by (auto simp: case_prod_beta)

lemma reading_settle:
  "reading p n \<Longrightarrow> (\<And>r. reading (k r) m) \<Longrightarrow> reading (settle p k) (n + m)"
proof (induction p arbitrary: n)
  case (Finished x)
  have "reading q m \<Longrightarrow> m \<le> m' \<Longrightarrow> reading q m'" for q :: "('a, 'c) proc" and m m'
  proof (induction q arbitrary: m m')
    case (Await l f)
    have "reading (fst (f w)) (m' - 1)" for w
      by (rule Await.IH [of "f w", OF _ _ readingD(5) [OF Await.prems(1)]])
         (use Await.prems(2) in \<open>auto simp: prod_set_defs intro: fsts.intros\<close>)
    then show ?case using Await.prems by (auto simp: case_prod_beta)
  qed simp
  with Finished show ?case by (metis le_add2 settle.simps(1))
next
  case (Await l f)
  note r = readingD [OF Await.prems(1)]
  have "reading (settle (fst (f w)) k) (n - 1 + m)" for w
    by (rule Await.IH [of "f w", OF _ _ r(5) Await.prems(2)]) (auto simp: prod_set_defs intro: fsts.intros)
  then show ?case using r by (simp add: case_prod_beta)
qed

lemma reading_compose:
  "reading p n \<Longrightarrow> (\<And>a. reading (g a) m) \<Longrightarrow> reading (proc_then p g) (n + m)"
  "reading p n \<Longrightarrow> reading (proc_mapped h p) n"
  "reading p n \<Longrightarrow> reading (proc_body b p) n"
proof -
  show "reading p n \<Longrightarrow> (\<And>a. reading (g a) m) \<Longrightarrow> reading (proc_then p g) (n + m)"
    unfolding proc_then_def by (rule reading_settle) (auto split: sum.split)
  show "reading p n \<Longrightarrow> reading (proc_mapped h p) n"
    using reading_settle [of p n "\<lambda>r. case r of Inl e \<Rightarrow> Finished (Inl (h e)) | Inr a \<Rightarrow> Finished (Inr a)" 0]
    by (simp add: proc_mapped_def split: sum.split)
  show "reading p n \<Longrightarrow> reading (proc_body b p) n"
    using reading_settle [of p n "\<lambda>r. case r of Inl e \<Rightarrow> Finished (Inl e) | Inr a \<Rightarrow> Finished (Inr (b a))" 0]
    by (simp add: proc_body_def proc_then_def split: sum.split)
qed

lemma reading_await: "read_call m \<Longrightarrow> reading (await m) 1"
  by (simp add: await_def await_on_def read_call_def case_prod_beta)

lemma read_call_then: "read_call m \<Longrightarrow> (\<And>a. read_call (f a)) \<Longrightarrow> read_call (and_then m f)"
  by (simp add: read_call_def and_then_def split: prod.split sum.split) (metis snd_conv)

lemma read_call_basic [simp]:
  "read_call (done_with a)" "read_call (raise_exn e)" "read_call (session_read q)" "read_call (utc_now env)"
  by (simp_all add: read_call_def done_with_def raise_exn_def session_read_def utc_now_def tick_def)

lemma read_call_branches [simp]:
  "read_call (case x of None \<Rightarrow> m | Some a \<Rightarrow> f a) \<longleftrightarrow>
     (case x of None \<Rightarrow> read_call m | Some a \<Rightarrow> read_call (f a))"
  by (simp split: option.split)

lemma read_call_reports [simp]:
  "read_call (quantized d)" "read_call (since_days env days)" "read_call get_stock_analytics"
  "read_call (get_movement_analytics env days)"
  by (auto simp: quantized_def since_days_def get_stock_analytics_def get_movement_analytics_def
      intro!: read_call_then split: option.split)

lemma read_call_services [simp]:
  "read_call (list_items env)" "read_call (get_item iid)" "read_call (list_orders st f t c)"
  "read_call get_low_stock_items" "read_call (order_get_by_id oid)" "read_call (item_get_by_id iid)"
  "read_call (list_movements_for_item iid n)" "read_call (list_movements_for_order oid)"
  by (auto simp: list_items_def item_list_all_def get_item_def item_get_by_id_def list_orders_def
      order_list_orders_def get_low_stock_items_def item_list_low_stock_def order_get_by_id_def
      list_movements_for_item_def list_movements_for_order_def intro!: read_call_then split: option.split)

section \<open>The queries\<close>

lemma reading_mono: "reading p n \<Longrightarrow> n \<le> n' \<Longrightarrow> reading p n'"
  using reading_settle [of p n Finished "n' - n"] by (simp add: settle_Finished)

lemma reading_procs:
  "reading (detail_proc oid) 3" "reading (movements_proc iid limit) 2" "reading (order_report_proc env days) 3"
proof -
  show "reading (detail_proc oid) 3"
    unfolding detail_proc_def
    by (rule reading_mono [OF reading_compose(1) [where n = 1 and m = 2, OF reading_await]])
       (auto simp: Let_def intro!: reading_mono [OF reading_compose(1) [where n = 1 and m = 1]] reading_await
         read_call_then split: option.split)
  show "reading (movements_proc iid limit) 2"
    unfolding movements_proc_def
    by (rule reading_mono [OF reading_compose(1) [where n = 1 and m = 1, OF reading_await]])
       (auto intro!: reading_await [unfolded One_nat_def] split: option.split)
  show "reading (order_report_proc env days) 3"
    unfolding order_report_proc_def
    by (rule reading_mono [OF reading_compose(1) [where n = 1 and m = 2, OF reading_await]])
       (auto intro!: reading_mono [OF reading_compose(1) [where n = 1 and m = 1]] reading_await read_call_then)
qed

lemma reading_query: "reading (query_proc env q) 5"
proof (cases q)
  case (SummaryReport days)
  have "reading (proc_then (await get_stock_analytics) (\<lambda>s. proc_then (order_report_proc env days) (\<lambda>orders.
      proc_body (\<lambda>m. SummaryBody \<lparr>as_stock = s, as_orders = orders, as_movements = m\<rparr>)
        (await (get_movement_analytics env days))))) (1 + (3 + 1))"
    by (intro reading_compose reading_await reading_procs read_call_reports)
  then show ?thesis by (simp add: SummaryReport)
qed (auto intro!: reading_mono [OF reading_compose(3)] reading_compose(2) reading_await reading_procs)

section \<open>Reads among the other requests\<close>

context interference
begin

lemma robust_reading:
  "reading p n \<Longrightarrow> (\<And>r t'. robust (k r) own s t') \<Longrightarrow> robust (settle p k) own s t"
proof (induction p arbitrary: n t)
  case (Await l f)
  note r = readingD [OF Await.prems(1)]
  have "robust (settle (fst (f w)) k) own s t'" for w t'
    by (rule Await.IH [of "f w", OF _ _ r(5) Await.prems(2)]) (auto simp: prod_set_defs intro: fsts.intros)
  then show ?case using r by (simp add: case_prod_beta grants_refl)
qed simp

end

end
