(* ===== verification/Stock_Interference.thy ===== *)
theory Stock_Interference
  imports Read_Requests Service_Contracts
begin

text \<open>
  The interference between the requests of the service. \<open>contested\<close> is a set of rows: the orders
  that more than one request acts on, and the items whose stock a request may read through the
  cache, because such a read assigns what it has read. For every other order the one request
  that acts on it owns the row throughout. The committed tables keep their constraints, the
  ledger of every item and the trail of every order that is not contested. The lemmas give,
  per kind of transaction, what its commit owes to the others.
\<close>

section \<open>What is kept and what may be relied on\<close>

definition trail_but :: "row_lock set \<Rightarrow> tables \<Rightarrow> bool" where
  "trail_but contested t \<longleftrightarrow>
     (\<forall>r \<in> set (order_rows t). OrderRow (order_id r) \<notin> contested \<longrightarrow>
        trail_for (status r) (quantity r) (order_version r) (order_trail (order_id r) t)) \<and>
     (\<forall>m \<in> set (stock_movements t). movement_ok t m)"

definition ledger_but :: "row_lock set \<Rightarrow> tables \<Rightarrow> bool" where
  "ledger_but contested t \<longleftrightarrow>
     (\<forall>it \<in> set (menu_items t). ItemRow (item_id it) \<notin> contested \<longrightarrow>
        replay 0 (item_movements (item_id it) t) = Some (stock_quantity it))"

definition audited_but :: "row_lock set \<Rightarrow> tables \<Rightarrow> bool" where
  "audited_but contested t \<longleftrightarrow> schema_ok t \<and> ledger_but contested t \<and> trail_but contested t"

definition reserved_rows :: "row_lock set \<Rightarrow> row_lock set" where
  "reserved_rows contested = {OrderRow oid | oid. OrderRow oid \<notin> contested}"

definition movement_absent :: "uuid \<Rightarrow> tables \<Rightarrow> bool" where
  "movement_absent k t \<longleftrightarrow> k \<notin> mv_id ` set (stock_movements t)"

definition item_absent :: "uuid \<Rightarrow> tables \<Rightarrow> bool" where
  "item_absent i t \<longleftrightarrow> i \<notin> item_id ` set (menu_items t)"

definition name_absent :: "string \<Rightarrow> tables \<Rightarrow> bool" where
  "name_absent n t \<longleftrightarrow> n \<notin> item_name ` set (menu_items t)"

definition undisturbed :: "row_lock set \<Rightarrow> row_lock set \<Rightarrow> tables \<Rightarrow> tables \<Rightarrow> bool" where
  "undisturbed contested L t t' \<longleftrightarrow> evolves t t' \<and>
     (\<forall>i it. ItemRow i \<in> L \<longrightarrow> find_item i t = Some it \<longrightarrow>
        find_item i t' = Some it \<and> item_movements i t' = item_movements i t) \<and>
     (\<forall>oid r. OrderRow oid \<in> L \<longrightarrow> find_order oid t = Some r \<longrightarrow>
        find_order oid t' = Some r \<and> (OrderRow oid \<in> contested \<or> order_trail oid t' = order_trail oid t)) \<and>
     (\<forall>oid. OrderKey oid \<in> L \<longrightarrow> find_order oid t = None \<longrightarrow> find_order oid t' = None) \<and>
     (\<forall>k. MovementKey k \<in> L \<longrightarrow> movement_absent k t \<longrightarrow> movement_absent k t') \<and>
     (\<forall>i. ItemKey i \<in> L \<longrightarrow> item_absent i t \<longrightarrow> item_absent i t') \<and>
     (\<forall>n. ItemName n \<in> L \<longrightarrow> name_absent n t \<longrightarrow> name_absent n t')"

lemma item_absent_find: "item_absent i t \<longleftrightarrow> find_item i t = None"
  by (simp add: item_absent_def find_item_None_iff)

lemma item_absent_statement [table_simps]:
  "item_absent i (apply_statement (InsertItem it) t) \<longleftrightarrow> item_id it \<noteq> i \<and> item_absent i t"
  "item_absent i (apply_statement (UpdateItem j s v now) t) = item_absent i t"
  "item_absent i (apply_statement (InsertOrder r) t) = item_absent i t"
  "item_absent i (apply_statement (UpdateOrder oid st v' now) t) = item_absent i t"
  "item_absent i (apply_statement (InsertMovement m) t) = item_absent i t"
  by (auto simp: item_absent_find table_simps split: option.split)

lemma names_updated:
  "item_name ` set (row_update item_id j (set_item_columns s v now) rows) = item_name ` set rows"
proof -
  have "map item_name (row_update item_id j (set_item_columns s v now) rows) = map item_name rows"
    by (simp add: row_update_def)
  from arg_cong [OF this, of set] show ?thesis by (simp only: set_map)
qed

lemma name_absent_statement [table_simps]:
  "name_absent n (apply_statement (InsertItem it) t) \<longleftrightarrow> item_name it \<noteq> n \<and> name_absent n t"
  "name_absent n (apply_statement (UpdateItem j s v now) t) = name_absent n t"
  "name_absent n (apply_statement (InsertOrder r) t) = name_absent n t"
  "name_absent n (apply_statement (UpdateOrder oid st v' now) t) = name_absent n t"
  "name_absent n (apply_statement (InsertMovement m) t) = name_absent n t"
  by (auto simp: name_absent_def table_simps names_updated)

lemma undisturbedI:
  assumes "evolves t t'"
    and "\<And>i it. ItemRow i \<in> L \<Longrightarrow> find_item i t = Some it \<Longrightarrow>
        find_item i t' = Some it \<and> item_movements i t' = item_movements i t"
    and "\<And>oid r. OrderRow oid \<in> L \<Longrightarrow> find_order oid t = Some r \<Longrightarrow>
        find_order oid t' = Some r \<and> (OrderRow oid \<in> contested \<or> order_trail oid t' = order_trail oid t)"
    and "\<And>oid. OrderKey oid \<in> L \<Longrightarrow> find_order oid t = None \<Longrightarrow> find_order oid t' = None"
    and "\<And>k. MovementKey k \<in> L \<Longrightarrow> movement_absent k t \<Longrightarrow> movement_absent k t'"
    and "\<And>i. ItemKey i \<in> L \<Longrightarrow> item_absent i t \<Longrightarrow> item_absent i t'"
    and "\<And>n. ItemName n \<in> L \<Longrightarrow> name_absent n t \<Longrightarrow> name_absent n t'"
  shows "undisturbed contested L t t'"
  using assms unfolding undisturbed_def by blast

lemma undisturbedD:
  assumes "undisturbed contested L t t'"
  shows "evolves t t'"
    and "ItemRow i \<in> L \<Longrightarrow> find_item i t = Some it \<Longrightarrow> find_item i t' = Some it"
    and "ItemRow i \<in> L \<Longrightarrow> find_item i t = Some it \<Longrightarrow> item_movements i t' = item_movements i t"
    and "OrderRow oid \<in> L \<Longrightarrow> find_order oid t = Some r \<Longrightarrow> find_order oid t' = Some r"
    and "OrderKey oid \<in> L \<Longrightarrow> find_order oid t = None \<Longrightarrow> find_order oid t' = None"
    and "MovementKey k \<in> L \<Longrightarrow> movement_absent k t \<Longrightarrow> movement_absent k t'"
    and "ItemKey i \<in> L \<Longrightarrow> item_absent i t \<Longrightarrow> item_absent i t'"
    and "ItemName n \<in> L \<Longrightarrow> name_absent n t \<Longrightarrow> name_absent n t'"
  using assms unfolding undisturbed_def by blast+

lemma undisturbed_refl: "undisturbed contested L t t"
  by (simp add: undisturbed_def)

lemma undisturbed_trans:
  assumes "undisturbed contested L t t'" and "undisturbed contested L t' t''"
  shows "undisturbed contested L t t''"
proof (rule undisturbedI)
  show "evolves t t''" using assms by (blast intro: evolves_trans dest: undisturbedD(1))
  show "find_order oid t'' = Some r \<and> (OrderRow oid \<in> contested \<or> order_trail oid t'' = order_trail oid t)"
    if "OrderRow oid \<in> L" "find_order oid t = Some r" for oid r
    using assms that unfolding undisturbed_def by metis
qed (use assms undisturbedD in \<open>metis\<close>)+

lemma undisturbed_mono: "L \<subseteq> L' \<Longrightarrow> undisturbed contested L' t t' \<Longrightarrow> undisturbed contested L t t'"
  unfolding undisturbed_def by blast

interpretation shop: interference "audited_but contested" "undisturbed contested"
  "reserved_rows contested" for contested
  by unfold_locales (simp add: undisturbed_refl, rule undisturbed_trans)

lemma grants_iff:
  "shop.grants contested own t t' \<longleftrightarrow> audited_but contested t' \<and> undisturbed contested (- own) t t'"
proof -
  have "(\<forall>L. L \<inter> own = {} \<longrightarrow> undisturbed contested L t t') \<longleftrightarrow> undisturbed contested (- own) t t'"
    by (metis Compl_disjoint2 disjoint_eq_subset_Compl undisturbed_mono)
  then show ?thesis by (simp add: shop.grants_def)
qed

lemma audited_but_empty: "audited_but {} t = audit_ok t"
  by (simp add: audited_but_def audit_ok_def trail_but_def trail_ok_def ledger_but_def ledger_ok_def)

lemma audited_butD:
  "audited_but contested t \<Longrightarrow> schema_ok t" "audited_but contested t \<Longrightarrow> ledger_but contested t"
  "audited_but contested t \<Longrightarrow> trail_but contested t"
  by (simp_all add: audited_but_def)

lemma audited_but_mono: "contested \<subseteq> wider \<Longrightarrow> audited_but contested t \<Longrightarrow> audited_but wider t"
  unfolding audited_but_def trail_but_def ledger_but_def by blast

lemma ledger_but_find:
  assumes "ledger_but contested t" and "find_item i t = Some it" and "ItemRow i \<notin> contested"
  shows "replay 0 (item_movements i t) = Some (stock_quantity it)"
  using assms(1,3) item_table.fetch_in [OF assms(2)] item_table.fetch_key [OF assms(2)]
  by (auto simp: ledger_but_def)

lemma ledger_but_findI:
  assumes "schema_ok t"
    and "\<And>i it. find_item i t = Some it \<Longrightarrow> ItemRow i \<notin> contested \<Longrightarrow>
          replay 0 (item_movements i t) = Some (stock_quantity it)"
  shows "ledger_but contested t"
  unfolding ledger_but_def using assms(2) find_item_row [OF assms(1)] by blast

lemma ledger_but_orders:
  "ledger_but contested (apply_statement (InsertOrder r) t) = ledger_but contested t"
  "ledger_but contested (apply_statement (UpdateOrder i st v now) t) = ledger_but contested t"
  by (simp_all add: ledger_but_def table_simps)

lemma ledger_but_rows: "ledger_but (insert (OrderRow oid) contested) t = ledger_but contested t"
  by (simp add: ledger_but_def)

lemma trail_but_find:
  assumes "trail_but contested t" and "find_order i t = Some r" and "OrderRow i \<notin> contested"
  shows "trail_for (status r) (quantity r) (order_version r) (order_trail i t)"
  using assms(1,3) order_table.fetch_in [OF assms(2)] order_table.fetch_key [OF assms(2)]
  by (auto simp: trail_but_def)

lemma trail_but_findI:
  assumes "schema_ok t"
    and "\<And>i r. find_order i t = Some r \<Longrightarrow> OrderRow i \<notin> contested \<Longrightarrow>
          trail_for (status r) (quantity r) (order_version r) (order_trail i t)"
    and "\<And>m. m \<in> set (stock_movements t) \<Longrightarrow> movement_ok t m"
  shows "trail_but contested t"
  unfolding trail_but_def using assms(2,3) find_order_row [OF assms(1)] by blast

lemma trail_but_movements: "trail_but contested t \<Longrightarrow> m \<in> set (stock_movements t) \<Longrightarrow> movement_ok t m"
  by (simp add: trail_but_def)

section \<open>A change of status\<close>

lemma audited_status:
  assumes "audited_but (insert (OrderRow oid) contested) t" and "find_order oid t = Some r" and "int4 v"
    and "OrderRow oid \<in> contested \<or> trail_for st (quantity r) v (order_trail oid t)"
  shows "audited_but contested (apply_statement (UpdateOrder oid st v now) t)" (is "audited_but _ ?t")
proof -
  have s: "schema_ok ?t"
    using assms(1,3) by (intro schema_ok_statement audited_butD) (simp_all add: statement_fault.simps)
  have "trail_but contested ?t"
  proof (rule trail_but_findI [OF s])
    show "trail_for (status x) (quantity x) (order_version x) (order_trail i ?t)"
      if "find_order i ?t = Some x" "OrderRow i \<notin> contested" for i x
      using that assms(2,4) trail_but_find [OF audited_butD(3) [OF assms(1)], of i]
      by (auto simp: table_simps split: if_splits)
    show "movement_ok ?t m" if "m \<in> set (stock_movements ?t)" for m
      using that trail_but_movements [OF audited_butD(3) [OF assms(1)]]
      by (intro movement_ok_statement) (simp add: table_simps)
  qed
  with s audited_butD(2) [OF assms(1)] show ?thesis by (simp add: audited_but_def ledger_but_orders ledger_but_rows)
qed

lemma undisturbed_status:
  assumes "find_order oid t = Some r" and "can_transition_to (status r) st" and "OrderRow oid \<notin> L"
  shows "undisturbed contested L t (apply_statement (UpdateOrder oid st (order_version r + 1) now) t)"
proof (rule undisturbedI)
  show "evolves t (apply_statement (UpdateOrder oid st (order_version r + 1) now) t)"
    using assms by (intro evolves_statement) simp
  fix x y
  assume "OrderRow x \<in> L" "find_order x t = Some y"
  with assms(3) show "find_order x (apply_statement (UpdateOrder oid st (order_version r + 1) now) t) = Some y \<and>
      (OrderRow x \<in> contested \<or> order_trail x (apply_statement (UpdateOrder oid st (order_version r + 1) now) t) = order_trail x t)"
    by (auto simp: table_simps)
qed (use assms(1) in \<open>auto simp: table_simps movement_absent_def split: if_splits\<close>)

section \<open>A change of stock\<close>

text \<open>The two statements of a change, accepted by the tables.\<close>

definition change_ready :: "tables \<Rightarrow> menu_item \<Rightarrow> int \<Rightarrow> stock_movement \<Rightarrow> int \<Rightarrow> bool" where
  "change_ready t it d m now \<longleftrightarrow> find_item (item_id it) t = Some it \<and>
     statement_fault t (stock_update it (changed_item it d) now) = None \<and>
     statement_fault (apply_statement (stock_update it (changed_item it d) now) t) (InsertMovement m) = None"

definition change_applied :: "menu_item \<Rightarrow> int \<Rightarrow> stock_movement \<Rightarrow> int \<Rightarrow> tables \<Rightarrow> tables" where
  "change_applied it d m now t =
     apply_statement (InsertMovement m) (apply_statement (stock_update it (changed_item it d) now) t)"

lemma stock_update_fault:
  "find_item (item_id it) t = Some it \<Longrightarrow> find_item (item_id it) t' = Some it \<Longrightarrow>
     statement_fault t' (stock_update it it' now) = statement_fault t (stock_update it it' now)"
  by (simp add: stock_update_def statement_fault.simps)

lemma change_applied_simps:
  assumes "find_item (item_id it) t = Some it"
  shows "find_item i (change_applied it d m now t) =
           (if i = item_id it then Some ((changed_item it d)\<lparr>item_updated_at := now\<rparr>) else find_item i t)"
    and "find_order oid (change_applied it d m now t) = find_order oid t"
    and "stock_movements (change_applied it d m now t) = stock_movements t @ [m]"
    and "item_movements i (change_applied it d m now t) =
           item_movements i t @ (if mv_item_id m = i then [m] else [])"
    and "order_trail oid (change_applied it d m now t) =
           order_trail oid t @ (if mv_order_id m = Some oid then [(movement_type m, quantity_delta m)] else [])"
    and "movement_ok (change_applied it d m now t) x = movement_ok t x"
    and "item_absent i (change_applied it d m now t) = item_absent i t"
    and "name_absent n (change_applied it d m now t) = name_absent n t"
  using find_item_change [OF assms]
  by (simp_all add: change_applied_def table_simps stock_update_def)

lemma evolves_find:
  assumes "evolves t t'"
  shows "find_item i t \<noteq> None \<Longrightarrow> find_item i t' \<noteq> None"
    and "find_order oid t \<noteq> None \<Longrightarrow> find_order oid t' \<noteq> None"
  using assms unfolding evolves_def by blast+

lemma change_ready_undisturbed:
  assumes "change_ready t it d m now" and "undisturbed contested own t t'"
    and "ItemRow (item_id it) \<in> own" and "MovementKey (mv_id m) \<in> own"
  shows "change_ready t' it d m now"
proof -
  let ?u = "stock_update it (changed_item it d) now"
  have it: "find_item (item_id it) t = Some it" "find_item (item_id it) t' = Some it"
    using assms undisturbedD(2) [OF assms(2,3)] by (auto simp: change_ready_def)
  have m: "statement_fault (apply_statement ?u t) (InsertMovement m) = None"
    using assms(1) by (simp add: change_ready_def)
  have u: "movement_absent k (apply_statement ?u x) = movement_absent k x"
    "find_order oid (apply_statement ?u x) = find_order oid x" for k x oid
    by (simp_all add: stock_update_def table_simps movement_absent_def)
  have "movement_absent (mv_id m) (apply_statement ?u t')"
    using m undisturbedD(6) [OF assms(2,4)] u(1)
    by (auto simp: statement_fault.simps movement_absent_def stock_update_def table_simps split: if_splits)
  moreover have "find_item (mv_item_id m) (apply_statement ?u t') \<noteq> None"
    using m evolves_find(1) [OF undisturbedD(1) [OF assms(2)], of "mv_item_id m"]
    by (simp add: statement_fault.simps find_item_change [OF it(1)] find_item_change [OF it(2)] split: if_splits)
  moreover have "case mv_order_id m of None \<Rightarrow> True | Some oid \<Rightarrow> find_order oid (apply_statement ?u t') \<noteq> None"
    using m evolves_find(2) [OF undisturbedD(1) [OF assms(2)]] u(2)
    by (auto simp: statement_fault.simps split: if_splits option.splits)
  ultimately have "statement_fault (apply_statement ?u t') (InsertMovement m) = None"
    using m by (auto simp: statement_fault.simps movement_absent_def split: if_splits option.splits)
  then show ?thesis using it assms(1) stock_update_fault [OF it] by (simp add: change_ready_def)
qed

lemma audited_change:
  assumes "audited_but contested t" and "change_ready t it d m now" and "records_change it d oid kind m"
    and "case oid of None \<Rightarrow> kind = ADJUSTMENT \<and> wider = contested
         | Some i \<Rightarrow> kind \<noteq> ADJUSTMENT \<and> wider = insert (OrderRow i) contested \<and>
             (\<exists>r. find_order i t = Some r \<and> order_item_id r = item_id it)"
  shows "audited_but wider (change_applied it d m now t)" (is "audited_but _ ?t")
proof -
  let ?u = "stock_update it (changed_item it d) now"
  have it: "find_item (item_id it) t = Some it" and f: "statement_fault t ?u = None"
    "statement_fault (apply_statement ?u t) (InsertMovement m) = None"
    using assms(2) by (simp_all add: change_ready_def)
  note simps = change_applied_simps [OF it]
  have s: "schema_ok ?t"
    unfolding change_applied_def using f assms(1) by (intro schema_ok_statement audited_butD)
  have l: "ledger_but wider ?t"
  proof (rule ledger_but_findI [OF s])
    fix i x
    assume x: "find_item i ?t = Some x" "ItemRow i \<notin> wider"
    then have "ItemRow i \<notin> contested" using assms(4) by (auto split: option.splits)
    with x assms(3) ledger_but_find [OF audited_butD(2) [OF assms(1)]]
    show "replay 0 (item_movements i ?t) = Some (stock_quantity x)"
      by (auto simp: simps records_change_def replay_append it split: if_splits)
  qed
  have "trail_but wider ?t"
  proof (rule trail_but_findI [OF s])
    show "trail_for (status x) (quantity x) (order_version x) (order_trail i ?t)"
      if "find_order i ?t = Some x" "OrderRow i \<notin> wider" for i x
      using that assms(3,4) trail_but_find [OF audited_butD(3) [OF assms(1)], of i]
      by (auto simp: simps records_change_def split: option.splits)
    have "movement_ok t m"
      using assms(3,4) by (auto simp: movement_ok_def records_change_def split: option.splits)
    then show "movement_ok ?t x" if "x \<in> set (stock_movements ?t)" for x
      using that trail_but_movements [OF audited_butD(3) [OF assms(1)]] by (auto simp: simps)
  qed
  with s l show ?thesis by (simp add: audited_but_def)
qed

lemma undisturbed_change:
  assumes "change_ready t it d m now" and "records_change it d oid kind m"
    and "ItemRow (item_id it) \<notin> L" and "MovementKey (mv_id m) \<notin> L"
    and "case oid of None \<Rightarrow> True | Some i \<Rightarrow> OrderRow i \<in> contested \<or> OrderRow i \<notin> L"
  shows "undisturbed contested L t (change_applied it d m now t)"
proof (rule undisturbedI)
  have it: "find_item (item_id it) t = Some it" using assms(1) by (simp add: change_ready_def)
  note simps = change_applied_simps [OF it]
  have v: "sound_statement t (stock_update it (changed_item it d) now)"
    using it by (simp add: stock_update_def patch_of_def)
  show "evolves t (change_applied it d m now t)"
    unfolding change_applied_def by (rule evolves_trans [OF evolves_statement [OF v] evolves_statement]) simp
  show "find_item i (change_applied it d m now t) = Some x \<and>
      item_movements i (change_applied it d m now t) = item_movements i t"
    if "ItemRow i \<in> L" "find_item i t = Some x" for i x
    using that assms(2,3) by (auto simp: simps records_change_def)
  show "find_order i (change_applied it d m now t) = Some r \<and>
      (OrderRow i \<in> contested \<or> order_trail i (change_applied it d m now t) = order_trail i t)"
    if "OrderRow i \<in> L" "find_order i t = Some r" for i r
    using that assms(2,5) by (auto simp: simps records_change_def split: option.splits)
  show "movement_absent k (change_applied it d m now t)" if "MovementKey k \<in> L" "movement_absent k t" for k
    using that assms(4) by (auto simp: simps movement_absent_def)
qed (use assms(1) in \<open>auto simp: change_applied_simps change_ready_def\<close>)

section \<open>An assignment without a movement\<close>

text \<open>What a stock read through the cache commits: the quantity that it has answered.\<close>

lemma audited_assignment:
  assumes "audited_but contested t" and "ItemRow i \<in> contested"
    and "statement_fault t (UpdateItem i q None now) = None"
  shows "audited_but contested (apply_statement (UpdateItem i q None now) t)" (is "audited_but _ ?t")
proof -
  have s: "schema_ok ?t" by (rule schema_ok_statement [OF audited_butD(1) [OF assms(1)] assms(3)])
  have "ledger_but contested ?t"
  proof (rule ledger_but_findI [OF s])
    show "replay 0 (item_movements j ?t) = Some (stock_quantity x)"
      if "find_item j ?t = Some x" "ItemRow j \<notin> contested" for j x
      using that assms(2) ledger_but_find [OF audited_butD(2) [OF assms(1)], of j]
      by (auto simp: table_simps split: if_splits)
  qed
  moreover have "trail_but contested ?t"
    using audited_butD(3) [OF assms(1)] by (simp add: trail_but_def table_simps)
  ultimately show ?thesis using s by (simp add: audited_but_def)
qed

lemma undisturbed_assignment:
  assumes "ItemRow i \<notin> L"
  shows "undisturbed contested L t (apply_statement (UpdateItem i q None now) t)"
proof (rule undisturbedI)
  show "evolves t (apply_statement (UpdateItem i q None now) t)" by (rule evolves_statement) simp
qed (use assms in \<open>auto simp: table_simps movement_absent_def\<close>)

section \<open>A new order\<close>

lemma audited_place:
  assumes "audited_but contested t" and "statement_fault t (InsertOrder r) = None"
    and "status r = PENDING" and "order_version r = 1"
  shows "audited_but contested (apply_statement (InsertOrder r) t)" (is "audited_but _ ?t")
proof -
  have s: "schema_ok ?t" using assms by (intro schema_ok_statement audited_butD)
  have new: "find_order (order_id r) t = None"
    using assms(2) by (simp add: statement_fault.simps find_order_None_iff split: if_splits)
  have "trail_but contested ?t"
  proof (rule trail_but_findI [OF s])
    show "trail_for (status x) (quantity x) (order_version x) (order_trail i ?t)"
      if "find_order i ?t = Some x" "OrderRow i \<notin> contested" for i x
      using that new assms(3,4) trail_but_find [OF audited_butD(3) [OF assms(1)], of i]
        order_trail_fresh [OF audited_butD(1) [OF assms(1)], of i]
      by (auto simp: table_simps split: if_splits option.splits)
    show "movement_ok ?t m" if "m \<in> set (stock_movements ?t)" for m
      using that trail_but_movements [OF audited_butD(3) [OF assms(1)]]
      by (intro movement_ok_statement) (simp add: table_simps)
  qed
  with s audited_butD(2) [OF assms(1)] show ?thesis by (simp add: audited_but_def ledger_but_orders)
qed

lemma undisturbed_place:
  assumes "statement_fault t (InsertOrder r) = None" and "OrderKey (order_id r) \<notin> L"
  shows "undisturbed contested L t (apply_statement (InsertOrder r) t)"
proof (rule undisturbedI)
  show "evolves t (apply_statement (InsertOrder r) t)" by (rule evolves_statement) simp
qed (use assms in \<open>auto simp: table_simps movement_absent_def split: option.splits\<close>)

section \<open>A new item\<close>

definition item_created :: "menu_item \<Rightarrow> stock_movement \<Rightarrow> tables \<Rightarrow> tables" where
  "item_created it m t = apply_statement (InsertMovement m) (apply_statement (InsertItem it) t)"

definition create_ready :: "tables \<Rightarrow> menu_item \<Rightarrow> stock_movement \<Rightarrow> bool" where
  "create_ready t it m \<longleftrightarrow> statement_fault t (InsertItem it) = None \<and>
     statement_fault (apply_statement (InsertItem it) t) (InsertMovement m) = None"

lemma insert_item_fault:
  "statement_fault t (InsertItem it) = None \<longleftrightarrow>
     item_types_ok it \<and> item_checks_ok it \<and> item_absent (item_id it) t \<and> name_absent (item_name it) t"
  by (simp add: statement_fault.simps item_absent_def name_absent_def)

lemma insert_item_undisturbed:
  assumes "statement_fault t (InsertItem it) = None" and "undisturbed contested own t t'"
    and "ItemKey (item_id it) \<in> own" and "ItemName (item_name it) \<in> own"
  shows "statement_fault t' (InsertItem it) = None"
  using assms(1) undisturbedD(7) [OF assms(2,3)] undisturbedD(8) [OF assms(2,4)] by (simp add: insert_item_fault)

lemma create_ready_undisturbed:
  assumes "create_ready t it m" and "undisturbed contested own t t'"
    and "ItemKey (item_id it) \<in> own" and "ItemName (item_name it) \<in> own" and "MovementKey (mv_id m) \<in> own"
    and "mv_item_id m = item_id it" and "mv_order_id m = None"
  shows "create_ready t' it m"
proof -
  have i: "statement_fault t (InsertItem it) = None" using assms(1) by (simp add: create_ready_def)
  note i' = insert_item_undisturbed [OF i assms(2-4)]
  have "movement_types_ok m" "movement_absent (mv_id m) t"
    using assms(1) by (simp_all add: create_ready_def statement_fault.simps movement_absent_def table_simps split: if_splits)
  then show ?thesis
    using undisturbedD(6) [OF assms(2,5)] i' assms(6,7) find_item_inserted [OF i']
    by (simp add: create_ready_def statement_fault.simps movement_absent_def table_simps)
qed

lemma audited_create:
  assumes "audited_but contested t" and "create_ready t it m"
    and m: "records_change (it\<lparr>stock_quantity := 0\<rparr>) (stock_quantity it) None ADJUSTMENT m"
  shows "audited_but contested (item_created it m t)" (is "audited_but _ ?t")
proof -
  have f: "statement_fault t (InsertItem it) = None"
    "statement_fault (apply_statement (InsertItem it) t) (InsertMovement m) = None"
    using assms(2) by (simp_all add: create_ready_def)
  have s: "schema_ok ?t"
    unfolding item_created_def using f assms(1) by (intro schema_ok_statement audited_butD)
  have new: "find_item (item_id it) t = None" using f(1) by (simp add: insert_item_fault item_absent_find)
  have l: "ledger_but contested ?t"
  proof (rule ledger_but_findI [OF s])
    show "replay 0 (item_movements i ?t) = Some (stock_quantity x)"
      if "find_item i ?t = Some x" "ItemRow i \<notin> contested" for i x
      using that m new ledger_but_find [OF audited_butD(2) [OF assms(1)], of i]
        item_movements_fresh [OF audited_butD(1) [OF assms(1)], of i]
      by (auto simp: item_created_def table_simps records_change_def replay_append split: if_splits option.splits)
  qed
  have "trail_but contested ?t"
  proof (rule trail_but_findI [OF s])
    show "trail_for (status x) (quantity x) (order_version x) (order_trail i ?t)"
      if "find_order i ?t = Some x" "OrderRow i \<notin> contested" for i x
      using that m trail_but_find [OF audited_butD(3) [OF assms(1)], of i]
      by (simp add: item_created_def table_simps records_change_def)
    have "movement_ok t m" using m by (simp add: movement_ok_def records_change_def)
    then show "movement_ok ?t x" if "x \<in> set (stock_movements ?t)" for x
      using that trail_but_movements [OF audited_butD(3) [OF assms(1)]]
      by (auto simp: item_created_def table_simps)
  qed
  with s l show ?thesis by (simp add: audited_but_def)
qed

lemma undisturbed_create:
  assumes "create_ready t it m"
    and m: "records_change (it\<lparr>stock_quantity := 0\<rparr>) (stock_quantity it) None ADJUSTMENT m"
    and "ItemKey (item_id it) \<notin> L" "ItemName (item_name it) \<notin> L" "MovementKey (mv_id m) \<notin> L"
  shows "undisturbed contested L t (item_created it m t)"
proof (rule undisturbedI)
  have new: "find_item (item_id it) t = None"
    using assms(1) by (simp add: create_ready_def insert_item_fault item_absent_find)
  show "evolves t (item_created it m t)"
    unfolding item_created_def by (rule evolves_trans; rule evolves_statement) simp_all
  show "find_item i (item_created it m t) = Some x \<and> item_movements i (item_created it m t) = item_movements i t"
    if "find_item i t = Some x" for i x
    using that new m by (auto simp: item_created_def table_simps records_change_def)
  show "find_order i (item_created it m t) = Some r \<and>
      (OrderRow i \<in> contested \<or> order_trail i (item_created it m t) = order_trail i t)"
    if "find_order i t = Some r" for i r
    using that m by (simp add: item_created_def table_simps records_change_def)
qed (use assms(3-5) in \<open>auto simp: item_created_def table_simps movement_absent_def\<close>)

end
