(* ===== verification/Stock_Robust.thy ===== *)
theory Stock_Robust
  imports Stock_Interference
begin

text \<open>
  Every request of the service is robust: whatever the other requests do between its calls,
  within what they owe to it, its commit keeps the audited tables and owes the same to them.
  \<open>publishes\<close> is the state of a transaction that may be committed at any later moment.
\<close>

section \<open>The end of a transaction\<close>

definition publishes :: "row_lock set \<Rightarrow> row_lock set \<Rightarrow> session \<Rightarrow> tables \<Rightarrow> bool" where
  "publishes contested own s t \<longleftrightarrow> broken s \<or>
     (\<forall>t'. audited_but contested t' \<longrightarrow> undisturbed contested own t t' \<longrightarrow>
        shop.grants contested own t' (apply_statements (executed s) t'))"

definition closing :: "row_lock set \<Rightarrow> (exn + 'a \<Rightarrow> ('r, 'b) proc) \<Rightarrow> bool" where
  "closing contested k \<longleftrightarrow>
     (\<forall>r own s t. pending s = [] \<longrightarrow> publishes contested own s t \<longrightarrow> shop.robust contested (k r) own s t)"

lemma closingD: "closing contested k \<Longrightarrow> pending s = [] \<Longrightarrow> publishes contested own s t \<Longrightarrow>
    shop.robust contested (k r) own s t"
  by (simp add: closing_def)

lemma closing_via: "closing contested k \<Longrightarrow> (\<And>r. \<exists>r'. k' r = k r') \<Longrightarrow> closing contested k'"
  unfolding closing_def by metis

lemma wp_end_request:
  "wp (end_request env r) Q w =
     wp (catching (and_then (\<lambda>w. (r, w)) (\<lambda>a. and_then (session_commit env) (\<lambda>_. done_with a)))
          (\<lambda>e. if is_HTTPException e then and_then (session_commit env) (\<lambda>_. raise_exn e)
               else and_then session_rollback (\<lambda>_. raise_exn e)))
       (\<lambda>r' w'. Q r' (open_session w')) w"
  by (simp add: wp_def end_request_def Let_def session_close_def session_rollback_def open_session_def
      split: prod.split)

lemma wp_outcome: "wp (\<lambda>w. (r, w)) Q w = Q r w"
  by (simp add: wp_def)

lemma end_request_db:
  assumes "pending (sess w) = []"
  shows "wp (end_request env r) (\<lambda>r' w'.
      db w' = (if committing r \<and> \<not> broken (sess w) then view w else db w) \<and> sess w' = fresh_session) w"
  using assms
  by (cases r) (simp_all add: wp_end_request wp_rules wp_outcome committing_def set_pending_idem open_session_def)

lemma publishesD:
  assumes "publishes contested own s t" and "\<not> broken s"
    and "audited_but contested t'" and "undisturbed contested own t t'"
  shows "shop.grants contested own t' (apply_statements (executed s) t')"
  using assms by (simp add: publishes_def)

lemma closing_end:
  fixes env :: "'r env"
  shows "closing contested (\<lambda>r. await_on pending_row (end_request env r))"
  unfolding closing_def
proof (intro allI impI)
  fix r own s t
  assume s: "pending s = []" and p: "publishes contested own s t"
  have "shop.robust contested (settle (await_on pending_row (end_request env r)) Finished) own s t"
  proof (rule shop.robust_await)
    fix w :: "'r world"
    assume w: "sess w = s" "audited_but contested (db w)" "undisturbed contested own t (db w)"
    have none: "pending_row w = None" using s w(1) by (simp add: pending_row_def to_write_def)
    have "shop.grants contested own (db w) (view w)" if "\<not> broken s"
      using publishesD [OF p that w(2,3)] w(1) by (simp add: view_def)
    then show "lock_set (pending_row w) \<inter> reserved_rows contested \<subseteq> own \<and>
        wp (end_request env r) (\<lambda>r' w'.
          shop.grants contested (own \<union> lock_set (pending_row w)) (db w) (db w') \<and>
          shop.robust contested (Finished r') (own \<union> lock_set (pending_row w)) (sess w') (db w')) w"
      using end_request_db [of w env r] s w shop.grants_refl [OF w(2)] none
      by (auto simp: wp_def split: prod.splits if_splits)
  qed
  then show "shop.robust contested (await_on pending_row (end_request env r)) own s t"
    by (simp add: settle_Finished)
qed

text \<open>
  A transaction that has only assigned a quantity to an item: its commit locks the row, sends
  the UPDATE, if the quantity is another one than was loaded, and may fail on it.
\<close>

definition assigns :: "item_patch \<Rightarrow> session \<Rightarrow> bool" where
  "assigns p s \<longleftrightarrow> \<not> broken s \<and> executed s = [] \<and> pending s = [p] \<and> patch_version p = None"

abbreviation assignment :: "'r env \<Rightarrow> item_patch \<Rightarrow> 'r world \<Rightarrow> statement" where
  "assignment env p w \<equiv> UpdateItem (patch_id p) (patch_stock p) None (env_utc_now env (calls w))"

lemma end_request_assigned:
  assumes "assigns p (sess w)"
  shows "wp (end_request env r) (\<lambda>r' w'. sess w' = fresh_session \<and>
      (if committing r \<and> patch_stock p \<noteq> None
       then (case statement_fault (db w) (assignment env p w) of
               None \<Rightarrow> r' = r \<and> db w' = apply_statement (assignment env p w) (db w)
             | Some e \<Rightarrow> r' = Inl e \<and> db w' = db w)
       else r' = r \<and> db w' = db w)) w"
proof -
  have s: "\<not> broken (sess w)" "executed (sess w) = []" "pending (sess w) = [p]" "patch_version p = None" "view w = db w"
    using assms by (simp_all add: assigns_def view_def)
  show ?thesis
    using s statement_fault_in_place [of "db w" "assignment env p w"]
    by (cases r)
       (auto simp: wp_end_request wp_rules wp_outcome committing_def open_session_def wp_flush_Cons wp_flush_Nil
          Let_def split: option.split)
qed

definition closing_assigned :: "row_lock set \<Rightarrow> (exn + 'a \<Rightarrow> ('r, 'b) proc) \<Rightarrow> bool" where
  "closing_assigned contested k \<longleftrightarrow>
     (\<forall>r own s t p. assigns p s \<longrightarrow> ItemRow (patch_id p) \<in> contested \<longrightarrow> shop.robust contested (k r) own s t)"

lemma closing_assigned_via:
  "closing_assigned contested k \<Longrightarrow> (\<And>r. \<exists>r'. k' r = k r') \<Longrightarrow> closing_assigned contested k'"
  unfolding closing_assigned_def by metis

lemma pending_row_assigned:
  assumes "assigns p (sess w)"
  shows "pending_row w = (if patch_stock p = None then None else Some (ItemWrite (patch_id p)))"
  using assms by (simp add: assigns_def pending_row_def to_write_def)

lemma closing_assigned_end:
  fixes env :: "'r env"
  shows "closing_assigned contested (\<lambda>r. await_on pending_row (end_request env r))"
  unfolding closing_assigned_def
proof (intro allI impI)
  fix r own s t p
  assume s: "assigns p s" and p: "ItemRow (patch_id p) \<in> contested"
  have "shop.robust contested (settle (await_on pending_row (end_request env r)) Finished) own s t"
  proof (rule shop.robust_await)
    fix w :: "'r world"
    assume w: "sess w = s" "audited_but contested (db w)"
    let ?own = "own \<union> lock_set (pending_row w)"
    have a: "assigns p (sess w)" using s w(1) by simp
    have "shop.grants contested ?own (db w) (apply_statement (assignment env p w) (db w))"
      if "patch_stock p \<noteq> None" "statement_fault (db w) (assignment env p w) = None"
    proof -
      have "?own = insert (ItemRow (patch_id p)) own" using that(1) by (auto simp: pending_row_assigned [OF a])
      then show ?thesis
        unfolding grants_iff using audited_assignment [OF w(2) p that(2)] by (simp add: undisturbed_assignment)
    qed
    then have "wp (end_request env r) (\<lambda>r' w'. shop.grants contested ?own (db w) (db w') \<and>
        shop.robust contested (Finished r') ?own (sess w') (db w')) w"
      using shop.grants_refl [OF w(2)]
      by (intro wp_mono [OF end_request_assigned [OF a]]) (auto split: if_splits option.splits)
    moreover have "lock_set (pending_row w) \<inter> reserved_rows contested \<subseteq> own"
      by (simp add: pending_row_assigned [OF a] reserved_rows_def)
    ultimately show "lock_set (pending_row w) \<inter> reserved_rows contested \<subseteq> own \<and>
        wp (end_request env r) (\<lambda>r' w'. shop.grants contested ?own (db w) (db w') \<and>
          shop.robust contested (Finished r') ?own (sess w') (db w')) w" by blast
  qed
  then show "shop.robust contested (await_on pending_row (end_request env r)) own s t"
    by (simp add: settle_Finished)
qed

section \<open>Transactions that may be committed\<close>

lemma publishesI:
  assumes "\<And>t'. \<not> broken s \<Longrightarrow> audited_but contested t' \<Longrightarrow> undisturbed contested own t t' \<Longrightarrow>
      audited_but contested (apply_statements (executed s) t') \<and>
      undisturbed contested (- own) t' (apply_statements (executed s) t')"
  shows "publishes contested own s t"
  using assms by (auto simp: publishes_def grants_iff)

lemma publishes_broken: "broken s \<Longrightarrow> publishes contested own s t"
  by (simp add: publishes_def)

lemma publishes_nothing: "executed s = [] \<Longrightarrow> publishes contested own s t"
  by (rule publishesI) (simp add: undisturbed_refl)

lemma publishes_undisturbed:
  "publishes contested own s t \<Longrightarrow> undisturbed contested own t t' \<Longrightarrow> publishes contested own s t'"
  unfolding publishes_def by (meson undisturbed_trans)

definition status_moves :: "order \<Rightarrow> order_status \<Rightarrow> (movement_kind \<times> int) list \<Rightarrow> bool" where
  "status_moves r st added \<longleftrightarrow> can_transition_to (status r) st \<and>
     (\<forall>tr. trail_for (status r) (quantity r) (order_version r) tr \<longrightarrow>
        trail_for st (quantity r) (order_version r + 1) (tr @ added))"

lemma publishes_status:
  assumes "executed s = [UpdateOrder oid st (order_version r + 1) now]"
    and "find_order oid t = Some r" and "OrderRow oid \<in> own" and "status_moves r st []"
    and "int4 (order_version r + 1)"
  shows "publishes contested own s t"
proof (rule publishesI)
  fix t'
  assume t': "audited_but contested t'" "undisturbed contested own t t'"
  have r: "find_order oid t' = Some r" by (rule undisturbedD(4) [OF t'(2) assms(3,2)])
  have "OrderRow oid \<in> contested \<or> trail_for st (quantity r) (order_version r + 1) (order_trail oid t')"
    using trail_but_find [OF audited_butD(3) [OF t'(1)] r] assms(4) by (fastforce simp: status_moves_def)
  then show "audited_but contested (apply_statements (executed s) t') \<and>
      undisturbed contested (- own) t' (apply_statements (executed s) t')"
    using assms t' r audited_but_mono [OF subset_insertI t'(1)]
    by (simp add: audited_status undisturbed_status status_moves_def)
qed

lemma publishes_place:
  assumes "executed s = [InsertOrder r]" and "statement_fault t (InsertOrder r) = None"
    and "OrderKey (order_id r) \<in> own" and "status r = PENDING" and "order_version r = 1"
  shows "publishes contested own s t"
proof (rule publishesI)
  fix t'
  assume t': "audited_but contested t'" "undisturbed contested own t t'"
  have f: "order_types_ok r" "order_checks_ok r" "find_order (order_id r) t = None"
    "find_item (order_item_id r) t \<noteq> None"
    using assms(2) by (simp_all add: statement_fault.simps find_order_None_iff split: if_splits)
  have "find_order (order_id r) t' = None" by (rule undisturbedD(5) [OF t'(2) assms(3) f(3)])
  moreover have "find_item (order_item_id r) t' \<noteq> None"
    by (rule evolves_find(1) [OF undisturbedD(1) [OF t'(2)] f(4)])
  ultimately have "statement_fault t' (InsertOrder r) = None"
    using f by (simp add: statement_fault.simps find_order_None_iff)
  then show "audited_but contested (apply_statements (executed s) t') \<and>
      undisturbed contested (- own) t' (apply_statements (executed s) t')"
    using assms t' by (simp add: audited_place undisturbed_place)
qed

lemma publishes_create:
  assumes "executed s = [InsertItem it, InsertMovement m]" and "create_ready t it m"
    and m: "records_change (it\<lparr>stock_quantity := 0\<rparr>) (stock_quantity it) None ADJUSTMENT m"
    and own: "ItemKey (item_id it) \<in> own" "ItemName (item_name it) \<in> own" "MovementKey (mv_id m) \<in> own"
  shows "publishes contested own s t"
proof (rule publishesI)
  fix t'
  assume t': "audited_but contested t'" "undisturbed contested own t t'"
  have "create_ready t' it m"
    by (rule create_ready_undisturbed [OF assms(2) t'(2) own]) (use m in \<open>simp_all add: records_change_def\<close>)
  then show "audited_but contested (apply_statements (executed s) t') \<and>
      undisturbed contested (- own) t' (apply_statements (executed s) t')"
    using audited_create [OF t'(1) _ m] undisturbed_create [OF _ m] own
    by (simp add: assms(1) item_created_def)
qed

definition change_owned :: "row_lock set \<Rightarrow> session \<Rightarrow> tables \<Rightarrow> menu_item \<Rightarrow> int \<Rightarrow> stock_movement \<Rightarrow> int \<Rightarrow> bool" where
  "change_owned own s t it d m now \<longleftrightarrow> change_ready t it d m now \<and>
     ItemRow (item_id it) \<in> own \<and> MovementKey (mv_id m) \<in> own \<and> pending s = [] \<and>
     executed s = [stock_update it (changed_item it d) now, InsertMovement m]"

lemma change_ownedD:
  assumes "change_owned own s t it d m now" and "undisturbed contested own t t'"
  shows "change_ready t' it d m now" and "ItemRow (item_id it) \<notin> - own" and "MovementKey (mv_id m) \<notin> - own"
    and "apply_statements (executed s) t' = change_applied it d m now t'"
  using assms change_ready_undisturbed
  by (auto simp: change_owned_def change_applied_def)

lemma publishes_adjustment:
  assumes "change_owned own s t it d m now" and "records_change it d None ADJUSTMENT m"
  shows "publishes contested own s t"
proof (rule publishesI)
  fix t'
  assume t': "audited_but contested t'" "undisturbed contested own t t'"
  note c = change_ownedD [OF assms(1) t'(2)]
  show "audited_but contested (apply_statements (executed s) t') \<and>
      undisturbed contested (- own) t' (apply_statements (executed s) t')"
    unfolding c(4) using audited_change [OF t'(1) c(1) assms(2)] undisturbed_change [OF c(1) assms(2) c(2,3)]
    by simp
qed

text \<open>The change is committed although the order was not updated: the answer is a conflict.\<close>

lemma publishes_conflict:
  assumes "change_owned own s t it d m now" and "records_change it d (Some oid) kind m" and "kind \<noteq> ADJUSTMENT"
    and "OrderRow oid \<in> contested" and "find_order oid t = Some r" and "order_item_id r = item_id it"
  shows "publishes contested own s t"
proof (rule publishesI)
  fix t'
  assume t': "audited_but contested t'" "undisturbed contested own t t'"
  note c = change_ownedD [OF assms(1) t'(2)]
  obtain r' where "find_order oid t' = Some r'" "order_evolves r r'"
    using undisturbedD(1) [OF t'(2)] assms(5) unfolding evolves_def by blast
  then have "\<exists>r. find_order oid t' = Some r \<and> order_item_id r = item_id it"
    using assms(6) by (auto simp: order_evolves_def)
  then show "audited_but contested (apply_statements (executed s) t') \<and>
      undisturbed contested (- own) t' (apply_statements (executed s) t')"
    unfolding c(4) using audited_change [OF t'(1) c(1) assms(2), of contested] assms(3,4)
      undisturbed_change [OF c(1) assms(2) c(2,3)]
    by (simp add: insert_absorb)
qed

lemma publishes_move:
  assumes "change_owned own s t it d m now" and "records_change it d (Some oid) kind m" and "kind \<noteq> ADJUSTMENT"
    and "find_order oid t = Some r" and "order_item_id r = item_id it" and "OrderRow oid \<in> own"
    and "status_moves r st [(kind, d)]" and "int4 (order_version r + 1)"
    and "executed s' = executed s @ [UpdateOrder oid st (order_version r + 1) now']"
  shows "publishes contested own s' t"
proof (rule publishesI)
  fix t'
  assume t': "audited_but contested t'" "undisturbed contested own t t'"
  note c = change_ownedD [OF assms(1) t'(2)]
  let ?t = "change_applied it d m now t'"
  have it: "find_item (item_id it) t' = Some it" using c(1) by (simp add: change_ready_def)
  have r': "find_order oid t' = Some r" by (rule undisturbedD(4) [OF t'(2) assms(6,4)])
  then have r: "find_order oid ?t = Some r" by (simp add: change_applied_simps [OF it])
  have wide: "audited_but (insert (OrderRow oid) contested) ?t"
    using audited_change [OF t'(1) c(1) assms(2), of "insert (OrderRow oid) contested"] assms(3,5) r' by simp
  have "OrderRow oid \<in> contested \<or> trail_for st (quantity r) (order_version r + 1) (order_trail oid ?t)"
    using trail_but_find [OF audited_butD(3) [OF t'(1)] r'] assms(2,7)
    by (auto simp: status_moves_def change_applied_simps [OF it] records_change_def)
  with audited_status [OF wide r assms(8)]
  have "audited_but contested (apply_statement (UpdateOrder oid st (order_version r + 1) now') ?t)" by blast
  moreover have "undisturbed contested (- own) ?t (apply_statement (UpdateOrder oid st (order_version r + 1) now') ?t)"
    using assms(6,7) by (intro undisturbed_status [OF r]) (simp_all add: status_moves_def)
  moreover have "undisturbed contested (- own) t' ?t"
    using assms(6) by (intro undisturbed_change [OF c(1) assms(2) c(2,3)]) simp
  moreover have "apply_statements (executed s') t' =
      apply_statement (UpdateOrder oid st (order_version r + 1) now') ?t"
    using c(4) assms(9) by simp
  ultimately show "audited_but contested (apply_statements (executed s') t') \<and>
      undisturbed contested (- own) t' (apply_statements (executed s') t')"
    by (metis undisturbed_trans)
qed

section \<open>The steps of the services\<close>

lemma closing_or:
  assumes "closing contested k" and "closing contested k'"
    and "\<And>r. (\<exists>r'. K r = k r') \<or> (\<exists>r'. K r = k' r')"
  shows "closing contested K"
  using assms unfolding closing_def by metis

lemma sess_tick [simp]: "sess (tick w) = sess w"
  by (simp add: tick_def)

lemma closing_reload:
  fixes k :: "exn + order option \<Rightarrow> ('r, 'b) proc"
  assumes "closing contested k"
  shows "closing contested (\<lambda>r. settle (await (reload_order oid)) k)"
  unfolding closing_def await_def
proof (intro allI impI shop.robust_call conjI)
  fix own s t and w :: "'r world"
  assume s: "pending s = []" "publishes contested own s t" and w: "sess w = s" "undisturbed contested own t (db w)"
  show "wp (reload_order oid) (\<lambda>r w'. db w' = db w \<and>
      shop.robust contested (k r) (own \<union> lock_set None) (sess w') (db w)) w"
    using closingD [OF assms s(1) publishes_undisturbed [OF s(2) w(2)]] w(1)
    by (simp add: reload_order_def wp_order_get_by_id)
qed simp

lemma closing_after_status:
  assumes "closing contested k"
  shows "closing contested (\<lambda>r. case r of Inl e \<Rightarrow> k (Inl e)
      | Inr updated \<Rightarrow> if \<not> updated then k (Inl c) else settle (await (reload_order oid)) k)"
  by (rule closing_or [OF assms closing_reload [OF assms, of oid]]) (auto split: sum.split)

lemma robust_status_step:
  assumes k: "closing contested k" and s: "pending s = []" "\<not> broken s"
    and own: "OrderRow oid \<in> contested \<or> OrderRow oid \<in> own"
    and orders: "\<And>t'. find_order oid (apply_statements (executed s) t') = find_order oid t'"
    and lost: "\<And>t'. audited_but contested t' \<Longrightarrow> undisturbed contested own t t' \<Longrightarrow>
      \<nexists>r. find_order oid t' = Some r \<and> order_version r = v \<Longrightarrow> publishes contested own s t'"
    and won: "\<And>t' r now. audited_but contested t' \<Longrightarrow> undisturbed contested own t t' \<Longrightarrow>
      find_order oid t' = Some r \<Longrightarrow> order_version r = v \<Longrightarrow> int4 (v + 1) \<Longrightarrow>
      publishes contested (insert (OrderRow oid) own)
        (s\<lparr>executed := executed s @ [UpdateOrder oid st (v + 1) now]\<rparr>) t'"
  shows "shop.robust contested (settle (await_on (order_row oid v) (transition_status env oid v st)) k) own s t"
proof (rule shop.robust_call, intro conjI)
  fix w :: "'a world"
  assume w: "sess w = s" "audited_but contested (db w)" "undisturbed contested own t (db w)"
  have view: "find_order oid (view w) = find_order oid (db w)"
    using orders w(1) by (simp add: view_def)
  show "lock_set (order_row oid v w) \<inter> reserved_rows contested \<subseteq> own"
    using own by (auto simp: order_row_def reserved_rows_def split: option.split)
  show "wp (transition_status env oid v st) (\<lambda>r w'. db w' = db w \<and>
      shop.robust contested (k r) (own \<union> lock_set (order_row oid v w)) (sess w') (db w)) w"
  proof (cases "\<exists>r. find_order oid (db w) = Some r \<and> order_version r = v")
    case False
    then have none: "order_row oid v w = None" by (auto simp: order_row_def view split: option.split)
    have "publishes contested own s (db w)" using False lost [OF w(2,3)] by blast
    then show ?thesis
      using False s w(1) closingD [OF k s(1)]
      by (auto simp: wp_transition_status view none split: option.split)
  next
    case True
    then obtain r where r: "find_order oid (db w) = Some r" "order_version r = v" by blast
    then have lock: "order_row oid v w = Some (OrderRow oid)" by (simp add: order_row_def view)
    show ?thesis
    proof (cases "int4 (v + 1)")
      case True
      from closingD [OF k _ won [OF w(2,3) r True]] s w(1) r True show ?thesis
        by (simp add: wp_transition_status view lock log_statement_def)
    next
      case False
      then show ?thesis
        using s w(1) r closingD [OF k _ publishes_broken]
        by (simp add: wp_transition_status view lock break_session_def)
    qed
  qed
qed

lemma robust_transition_steps:
  assumes k: "closing contested k" and s: "pending s = []" "\<not> broken s"
    and own: "OrderRow oid \<in> contested \<or> OrderRow oid \<in> own"
    and orders: "\<And>t'. find_order oid (apply_statements (executed s) t') = find_order oid t'"
    and lost: "\<And>t'. audited_but contested t' \<Longrightarrow> undisturbed contested own t t' \<Longrightarrow>
      \<nexists>r. find_order oid t' = Some r \<and> order_version r = v \<Longrightarrow> publishes contested own s t'"
    and won: "\<And>t' r now. audited_but contested t' \<Longrightarrow> undisturbed contested own t t' \<Longrightarrow>
      find_order oid t' = Some r \<Longrightarrow> order_version r = v \<Longrightarrow> int4 (v + 1) \<Longrightarrow>
      publishes contested (insert (OrderRow oid) own)
        (s\<lparr>executed := executed s @ [UpdateOrder oid st (v + 1) now]\<rparr>) t'"
  shows "shop.robust contested (settle (transition_steps env oid v st) k) own s t"
proof -
  let ?K = "\<lambda>r. case r of Inl e \<Rightarrow> k (Inl e)
      | Inr updated \<Rightarrow> if \<not> updated then k (Inl (ConflictError ''Order'' oid))
          else settle (await (reload_order oid)) k"
  have "(\<lambda>r. settle (case r of Inl e \<Rightarrow> Finished (Inl e) | Inr updated \<Rightarrow>
      if \<not> updated then Finished (Inl (ConflictError ''Order'' oid)) else await (reload_order oid)) k) = ?K"
    by (rule ext) (simp split: sum.split)
  then have "settle (transition_steps env oid v st) k =
      settle (await_on (order_row oid v) (transition_status env oid v st)) ?K"
    by (simp only: transition_steps_def proc_then_def settle_settle)
  then show ?thesis
    using robust_status_step [OF closing_after_status [OF k] s own orders, of t v st env] lost won by simp
qed

text \<open>What the read of an order at the start of a transition says about the order later.\<close>

definition order_seen :: "row_lock set \<Rightarrow> uuid \<Rightarrow> order \<Rightarrow> tables \<Rightarrow> bool" where
  "order_seen own oid ord t \<longleftrightarrow>
     (\<exists>r. find_order oid t = Some r \<and> order_evolves ord r \<and> (OrderRow oid \<in> own \<longrightarrow> r = ord))"

lemma order_seen_now: "find_order oid t = Some ord \<Longrightarrow> order_seen own oid ord t"
  by (simp add: order_seen_def)

lemma order_seen_undisturbed:
  assumes "order_seen own oid ord t" and "undisturbed contested own t t'"
  shows "order_seen own oid ord t'"
proof -
  from assms(1) obtain r where r: "find_order oid t = Some r" "order_evolves ord r"
    "OrderRow oid \<in> own \<longrightarrow> r = ord" by (auto simp: order_seen_def)
  from undisturbedD(1) [OF assms(2)] r(1) obtain r' where r': "find_order oid t' = Some r'" "order_evolves r r'"
    unfolding evolves_def by blast
  have "OrderRow oid \<in> own \<longrightarrow> r' = ord"
    using undisturbedD(4) [OF assms(2) _ r(1)] r(3) r'(1) by auto
  with r' r(2) show ?thesis by (auto simp: order_seen_def intro: order_evolves_trans)
qed

lemma order_evolves_same:
  "order_evolves ord r \<Longrightarrow> order_version r = order_version ord \<Longrightarrow>
     status r = status ord \<and> quantity r = quantity ord \<and> order_item_id r = order_item_id ord"
  by (auto simp: order_evolves_def)

section \<open>The writes of a change of stock\<close>

text \<open>The first call sends the UPDATE and the INSERT, or breaks the session on one of them.\<close>

definition change_sent ::
  "'r env \<Rightarrow> menu_item \<Rightarrow> int \<Rightarrow> (uuid \<Rightarrow> int \<Rightarrow> stock_movement) \<Rightarrow> 'r world \<Rightarrow> 'r world" where
  "change_sent env it d new w =
     tick (tick (tick
       (log_statement (InsertMovement (new (env_uuid4 env (Suc (calls w))) (env_utc_now env (Suc (Suc (calls w))))))
         (log_statement (stock_update it (changed_item it d) (env_utc_now env (calls w))) w))))"

lemma change_sent_simps [simp]:
  "db (change_sent env it d new w) = db w"
  "sess (change_sent env it d new w) = (sess w)\<lparr>executed := executed (sess w)
     @ [stock_update it (changed_item it d) (env_utc_now env (calls w)),
        InsertMovement (new (env_uuid4 env (Suc (calls w))) (env_utc_now env (Suc (Suc (calls w)))))]\<rparr>"
  by (simp_all add: change_sent_def tick_def log_statement_def)

lemma wp_send_change:
  assumes "\<not> broken (sess w)" "pending (sess w) = []"
  shows "wp (and_then (session_modify it (changed_item it d)) (\<lambda>_. create_movement env new)) Q w =
    (case change_fault env it d new w of
       None \<Rightarrow> Q (Inr (new (env_uuid4 env (Suc (calls w))) (env_utc_now env (Suc (Suc (calls w))))))
                 (change_sent env it d new w)
     | Some e \<Rightarrow> Q (Inl e) ((tick ^^ (if statement_fault (view w)
         (stock_update it (changed_item it d) (env_utc_now env (calls w))) = None then 3 else 1)) (break_session w)))"
proof -
  let ?now = "env_utc_now env (calls w)"
  let ?u = "stock_update it (changed_item it d) ?now"
  let ?m = "new (env_uuid4 env (Suc (calls w))) (env_utc_now env (Suc (Suc (calls w))))"
  have v: "patch_version (patch_of it (changed_item it d)) = Some (item_version it + 1)"
    "patch_id (patch_of it (changed_item it d)) = item_id it"
    by (simp_all add: patch_of_def)
  have u: "UpdateItem (item_id it) (patch_stock (patch_of it (changed_item it d))) (Some (item_version it + 1)) ?now = ?u"
    using v by (simp add: stock_update_def)
  show ?thesis
    unfolding create_movement_def Let_def
    using assms v
    by (cases "statement_fault (view w) ?u"; cases "statement_fault (apply_statement ?u (view w)) (InsertMovement ?m)")
       (simp_all add: wp_rules Let_def u set_pending_idem change_fault_def change_sent_def numeral_3_eq_3)
qed

lemma broken_ticks [simp]:
  "db ((tick ^^ n) (break_session w)) = db w" "broken (sess ((tick ^^ n) (break_session w)))"
  "pending (sess ((tick ^^ n) (break_session w))) = []"
  by (induction n) (simp_all add: tick_def break_session_def)

lemma wp_item_save:
  assumes "\<not> broken (sess w)" "pending (sess w) = []" and "find_item (item_id it) (view w) = Some x"
  shows "wp (item_save env it) Q w = Q (Inr x) w"
  using assms by (simp add: item_save_def wp_rules set_pending_idem)

lemma change_owned_undisturbed:
  assumes "change_owned own s t it d m now" and "undisturbed contested own t t'"
  shows "change_owned own s t' it d m now"
  using assms change_ownedD(1) [OF assms] by (simp add: change_owned_def)

text \<open>The row as the transaction sees it, to be saved and told to the cache.\<close>

lemma change_owned_row:
  assumes "change_owned own (sess w) (db w) it d m now"
  shows "find_item (item_id it) (view w) = Some ((changed_item it d)\<lparr>item_updated_at := now\<rparr>)"
proof -
  have "find_item (item_id it) (db w) = Some it" using assms by (simp add: change_owned_def change_ready_def)
  moreover have "view w = change_applied it d m now (db w)"
    using assms by (simp add: change_owned_def change_applied_def view_def)
  ultimately show ?thesis by (simp add: change_applied_simps)
qed

lemma robust_saving:
  assumes c: "change_owned own s t it d m now" and nb: "\<not> broken s"
    and ends: "\<And>a t'. audited_but contested t' \<Longrightarrow> undisturbed contested own t t' \<Longrightarrow> shop.robust contested (k (Inr a)) own s t'"
  shows "shop.robust contested (settle (proc_then (await (item_save env (changed_item it d))) (\<lambda>saved.
      proc_then (await (cache_set_stock env cache (item_id saved) (stock_quantity saved))) (\<lambda>_. Finished (Inr saved)))) k)
      own s t"
  unfolding proc_then_def settle_settle await_def
proof (rule shop.robust_call, intro conjI)
  fix w :: "'a world"
  assume w: "sess w = s" "audited_but contested (db w)" "undisturbed contested own t (db w)"
  let ?row = "(changed_item it d)\<lparr>item_updated_at := now\<rparr>"
  have here: "change_owned own (sess w) (db w) it d m now" using change_owned_undisturbed [OF c w(3)] w(1) by simp
  have told: "shop.robust contested (settle (await_on (\<lambda>w. None) (cache_set_stock env cache i n))
      (\<lambda>r. settle (case r of Inl e \<Rightarrow> Finished (Inl e) | Inr _ \<Rightarrow> Finished (Inr ?row)) k)) own s (db w)" for i n
  proof (rule shop.robust_call, intro conjI)
    fix v :: "'a world"
    assume v: "sess v = s" "audited_but contested (db v)" "undisturbed contested own (db w) (db v)"
    show "wp (cache_set_stock env cache i n) (\<lambda>r w'. db w' = db v \<and> shop.robust contested
        (settle (case r of Inl e \<Rightarrow> Finished (Inl e) | Inr _ \<Rightarrow> Finished (Inr ?row)) k) (own \<union> lock_set None) (sess w') (db v)) v"
      using v(1) ends [OF v(2) undisturbed_trans [OF w(3) v(3)]] by (simp add: wp_cache_set_stock)
  qed simp
  have "item_id (changed_item it d) = item_id it" by simp
  then show "wp (item_save env (changed_item it d)) (\<lambda>r w'. db w' = db w \<and> shop.robust contested
      (settle (case r of Inl e \<Rightarrow> Finished (Inl e) | Inr saved \<Rightarrow>
        settle (await_on (\<lambda>w. None) (cache_set_stock env cache (item_id saved) (stock_quantity saved)))
          (\<lambda>r. case r of Inl e \<Rightarrow> Finished (Inl e) | Inr _ \<Rightarrow> Finished (Inr saved))) k)
      (own \<union> lock_set None) (sess w') (db w)) w"
    using nb w(1) here told change_owned_row [OF here]
    by (simp add: wp_item_save change_owned_def settle_settle)
qed simp

lemma robust_write:
  assumes it: "find_item (item_id it) t = Some it" "ItemRow (item_id it) \<in> own"
    and s: "executed s = []" "pending s = []" "\<not> broken s"
    and new: "\<And>mid created. mv_id (new mid created) = mid"
    and failed: "\<And>e own' s' t'. broken s' \<Longrightarrow> pending s' = [] \<Longrightarrow> shop.robust contested (k (Inl e)) own' s' t'"
    and written: "\<And>a own' s' t' mid created now. change_owned own' s' t' it d (new mid created) now \<Longrightarrow>
      own \<subseteq> own' \<Longrightarrow> (\<forall>oid. OrderRow oid \<in> own' \<longrightarrow> OrderRow oid \<in> own) \<Longrightarrow>
      audited_but contested t' \<Longrightarrow> undisturbed contested own t t' \<Longrightarrow> \<not> broken s' \<Longrightarrow>
      shop.robust contested (k (Inr a)) own' s' t'"
  shows "shop.robust contested (settle (write_steps env cache it (changed_item it d) new) k) own s t"
  unfolding write_steps_def proc_then_def [of "await_on l m" for l m] settle_settle
proof (rule shop.robust_call, intro conjI)
  fix w :: "'a world"
  assume w: "sess w = s" "audited_but contested (db w)" "undisturbed contested own t (db w)"
  have key: "movement_key env w = Some (MovementKey (env_uuid4 env (Suc (calls w))))"
    using s w(1) by (simp add: movement_key_def next_key_def to_write_def)
  show "lock_set (movement_key env w) \<inter> reserved_rows contested \<subseteq> own"
    by (auto simp: key reserved_rows_def)
  have view: "view w = db w" using s w(1) by (simp add: view_def)
  have here: "find_item (item_id it) (view w) = Some it" "\<not> broken (sess w)" "pending (sess w) = []"
    using undisturbedD(2) [OF w(3) it(2,1)] s w(1) view by simp_all
  let ?own = "own \<union> lock_set (movement_key env w)"
  let ?rest = "proc_then (await (item_save env (changed_item it d))) (\<lambda>saved.
      proc_then (await (cache_set_stock env cache (item_id saved) (stock_quantity saved))) (\<lambda>_. Finished (Inr saved)))"
  show "wp (and_then (session_modify it (changed_item it d)) (\<lambda>_. create_movement env new))
      (\<lambda>r w'. db w' = db w \<and> shop.robust contested
        (settle (case r of Inl e \<Rightarrow> Finished (Inl e) | Inr _ \<Rightarrow> ?rest) k) ?own (sess w') (db w)) w"
  proof (cases "change_fault env it d new w")
    case None
    let ?now = "env_utc_now env (calls w)"
    let ?m = "new (env_uuid4 env (Suc (calls w))) (env_utc_now env (Suc (Suc (calls w))))"
    let ?s = "sess (change_sent env it d new w)"
    have "change_ready (db w) it d ?m ?now"
      using None here(1) view by (simp add: change_ready_def change_fault_def Let_def split: option.splits)
    then have c: "change_owned ?own ?s (db w) it d ?m ?now"
      using it(2) s w(1) by (simp add: change_owned_def key new)
    have "shop.robust contested (settle ?rest k) ?own ?s (db w)"
    proof (rule robust_saving [OF c])
      fix a t'
      assume t': "audited_but contested t'" "undisturbed contested ?own (db w) t'"
      show "shop.robust contested (k (Inr a)) ?own ?s t'"
      proof (rule written [OF change_owned_undisturbed [OF c t'(2)] _ _ t'(1)])
        show "undisturbed contested own t t'"
          by (rule undisturbed_trans [OF w(3) undisturbed_mono [OF _ t'(2)]]) simp
      qed (use s w(1) in \<open>auto simp: key\<close>)
    qed (use s w(1) in simp)
    then show ?thesis using None by (simp add: wp_send_change [OF here(2,3)])
  next
    case (Some e)
    then show ?thesis by (simp add: wp_send_change [OF here(2,3)] failed)
  qed
qed

end
