(* ===== verification/Stock_Transactions.thy ===== *)
theory Stock_Transactions
  imports Stock_Robust
begin

text \<open>
  The requests one by one: confirmation, shipment, delivery, cancellation, adjustment,
  placement, the creation of an item and the reads are robust. The stock read writes what it has
  found in the cache, so with a cache the row that it reads is among the contested ones.
\<close>

section \<open>Shared beginnings\<close>

lemma view_nothing: "executed (sess w) = [] \<Longrightarrow> view w = db w"
  by (simp add: view_def)

lemma fresh_simps [simp]:
  "executed fresh_session = []" "pending fresh_session = []" "\<not> broken fresh_session"
  by (simp_all add: fresh_session_def)

lemma robust_read_order:
  fixes k :: "exn + 'b \<Rightarrow> ('r, 'c) proc"
  assumes k: "closing contested k"
    and going: "\<And>ord t'. can_transition_to (status ord) st \<Longrightarrow> order_seen own oid ord t' \<Longrightarrow>
      shop.robust contested (settle (p ord) k) own fresh_session t'"
  shows "shop.robust contested (settle (proc_then (await (order_get_by_id oid)) (\<lambda>found.
      case found of None \<Rightarrow> Finished (Inl (NotFoundError ''Order'' oid))
      | Some ord \<Rightarrow> if \<not> can_transition_to (status ord) st
          then Finished (Inl (InvalidTransitionError (status ord) st)) else p ord)) k) own fresh_session t"
  unfolding proc_then_def settle_settle await_def
proof (rule shop.robust_call, intro conjI)
  fix w :: "'r world"
  assume w: "sess w = fresh_session" "audited_but contested (db w)"
  have stop: "shop.robust contested (k r) own fresh_session (db w)" for r
    by (rule closingD [OF k]) (simp_all add: publishes_nothing)
  show "wp (order_get_by_id oid) (\<lambda>r w'. db w' = db w \<and> shop.robust contested
      (settle (case r of Inl e \<Rightarrow> Finished (Inl e) | Inr found \<Rightarrow>
         case found of None \<Rightarrow> Finished (Inl (NotFoundError ''Order'' oid))
         | Some ord \<Rightarrow> if \<not> can_transition_to (status ord) st
             then Finished (Inl (InvalidTransitionError (status ord) st)) else p ord) k)
      (own \<union> lock_set None) (sess w') (db w)) w"
    using w(1) stop going order_seen_now
    by (cases "find_order oid (db w)") (simp_all add: wp_order_get_by_id view_nothing)
qed simp

lemma robust_lock_item:
  fixes k :: "exn + menu_item option \<Rightarrow> ('r, 'c) proc"
  assumes s: "executed s = []" "\<not> broken s"
    and absent: "\<And>t'. audited_but contested t' \<Longrightarrow> undisturbed contested own t t' \<Longrightarrow>
      find_item iid t' = None \<Longrightarrow> shop.robust contested (k (Inr None)) own s t'"
    and present: "\<And>t' it. audited_but contested t' \<Longrightarrow> undisturbed contested own t t' \<Longrightarrow>
      find_item iid t' = Some it \<Longrightarrow> shop.robust contested (k (Inr (Some it))) (insert (ItemRow iid) own) s t'"
  shows "shop.robust contested (settle (await_on (item_row iid) (item_get_by_id_with_lock iid)) k) own s t"
proof (rule shop.robust_call, intro conjI)
  fix w :: "'r world"
  assume w: "sess w = s" "audited_but contested (db w)" "undisturbed contested own t (db w)"
  show "lock_set (item_row iid w) \<inter> reserved_rows contested \<subseteq> own"
    by (auto simp: item_row_def reserved_rows_def)
  show "wp (item_get_by_id_with_lock iid) (\<lambda>r w'. db w' = db w \<and>
      shop.robust contested (k r) (own \<union> lock_set (item_row iid w)) (sess w') (db w)) w"
    using s w absent [OF w(2,3)] present [OF w(2,3)]
    by (cases "find_item iid (db w)") (simp_all add: wp_item_get_by_id item_row_def view_nothing)
qed

lemma order_seen_more_locks:
  "order_seen own oid ord t \<Longrightarrow> (\<forall>x. OrderRow x \<in> own' \<longrightarrow> OrderRow x \<in> own) \<Longrightarrow> order_seen own' oid ord t"
  by (auto simp: order_seen_def)

section \<open>Status changes\<close>

lemma status_moves_next:
  "can_transition_to (status r) SHIPPED \<Longrightarrow> status_moves r SHIPPED []"
  "can_transition_to (status r) DELIVERED \<Longrightarrow> status_moves r DELIVERED []"
  "status r = PENDING \<Longrightarrow> status_moves r REJECTED []"
  "status r = PENDING \<Longrightarrow> status_moves r CANCELLED []"
  "status r = PENDING \<Longrightarrow> quantity r = q \<Longrightarrow> status_moves r CONFIRMED [(DEDUCTION, - q)]"
  "status r = CONFIRMED \<or> status r = SHIPPED \<Longrightarrow> quantity r = q \<Longrightarrow>
     status_moves r CANCELLED [(RESTORATION, q)]"
  by (cases "status r"; auto simp: status_moves_def)+

text \<open>The order that a successful compare-and-set finds is the one that was read.\<close>

lemma seen_same:
  assumes "order_seen own oid ord t" and "find_order oid t = Some r" and "order_version r = order_version ord"
  shows "status r = status ord \<and> quantity r = quantity ord \<and> order_item_id r = order_item_id ord"
  using assms by (auto simp: order_seen_def intro!: order_evolves_same)

lemma seen_lost:
  assumes "order_seen own oid ord t" and "\<nexists>r. find_order oid t = Some r \<and> order_version r = order_version ord"
  shows "OrderRow oid \<notin> own \<and> (\<exists>r. find_order oid t = Some r \<and> order_item_id r = order_item_id ord)"
  using assms by (auto simp: order_seen_def order_evolves_def)

lemma publishes_only_status:
  assumes "order_seen own oid ord t" and "find_order oid t = Some r" and "order_version r = order_version ord"
    and "status_moves r st []" and "int4 (order_version ord + 1)" and "executed s = []"
  shows "publishes contested (insert (OrderRow oid) own)
      (s\<lparr>executed := executed s @ [UpdateOrder oid st (order_version ord + 1) now]\<rparr>) t"
  using assms by (intro publishes_status [where oid = oid and r = r and st = st and now = now]) simp_all

lemma robust_plain_transition:
  assumes k: "closing contested k" and own: "OrderRow oid \<in> contested \<or> OrderRow oid \<in> own"
    and seen: "order_seen own oid ord t"
    and moves: "\<And>r. status r = status ord \<Longrightarrow> status_moves r st []"
  shows "shop.robust contested (settle (transition_steps env oid (order_version ord) st) k) own fresh_session t"
proof (rule robust_transition_steps [OF k _ _ own])
  fix t' r now
  assume t': "undisturbed contested own t t'" and r: "find_order oid t' = Some r" "order_version r = order_version ord"
    and v: "int4 (order_version ord + 1)"
  have seen': "order_seen own oid ord t'" by (rule order_seen_undisturbed [OF seen t'])
  show "publishes contested (insert (OrderRow oid) own)
      (fresh_session\<lparr>executed := executed fresh_session @ [UpdateOrder oid st (order_version ord + 1) now]\<rparr>) t'"
    using publishes_only_status [OF seen' r moves v] seen_same [OF seen' r] by simp
qed (simp_all add: publishes_nothing)

lemma robust_transition:
  assumes k: "closing contested k" and own: "OrderRow oid \<in> contested \<or> OrderRow oid \<in> own"
    and st: "st = SHIPPED \<or> st = DELIVERED"
  shows "shop.robust contested (settle (transition_proc env oid st) k) own fresh_session t"
  unfolding transition_proc_def
proof (rule robust_read_order [OF k])
  fix ord t'
  assume "can_transition_to (status ord) st" "order_seen own oid ord t'"
  then show "shop.robust contested (settle (transition_steps env oid (order_version ord) st) k) own fresh_session t'"
    using st status_moves_next(1,2) by (intro robust_plain_transition [OF k own]) auto
qed

section \<open>Confirmation and cancellation\<close>

text \<open>The change of stock and the change of status that follows it.\<close>

lemma robust_change_and_move:
  fixes env :: "'r env" and k :: "exn + order option \<Rightarrow> ('r, 'c) proc"
  assumes k: "closing contested k" and own: "OrderRow oid \<in> contested \<or> OrderRow oid \<in> own"
    and seen: "order_seen own oid ord t" and it: "find_item (order_item_id ord) t = Some it"
    and lock: "ItemRow (order_item_id ord) \<in> own"
    and kind: "kind \<noteq> ADJUSTMENT"
    and moves: "\<And>r. status r = status ord \<Longrightarrow> quantity r = quantity ord \<Longrightarrow> status_moves r st [(kind, d)]"
  shows "shop.robust contested (settle (proc_then (write_steps env cache it (changed_item it d)
      (change_record it d (Some oid) kind why)) (\<lambda>_. transition_steps env oid (order_version ord) st)) k) own fresh_session t"
  unfolding proc_then_def settle_settle
proof (rule robust_write)
  have iid: "item_id it = order_item_id ord" by (rule found_item_id [OF it])
  show "find_item (item_id it) t = Some it" "ItemRow (item_id it) \<in> own" using it lock iid by simp_all
  show "mv_id (change_record it d (Some oid) kind why mid created) = mid" for mid created
    by (simp add: change_record_def stock_movement_init_def)
  show "shop.robust contested (settle (case Inl e of Inl e \<Rightarrow> Finished (Inl e)
      | Inr a \<Rightarrow> transition_steps env oid (order_version ord) st) k) own' s' t'"
    if "broken s'" "pending s' = []" for e own' s' t'
    using closingD [OF k that(2) publishes_broken [OF that(1)]] by simp
  fix a own' s' t' mid created now
  let ?m = "change_record it d (Some oid) kind why mid created"
  assume c: "change_owned own' s' t' it d ?m now" and more: "own \<subseteq> own'"
    and same: "\<forall>oid. OrderRow oid \<in> own' \<longrightarrow> OrderRow oid \<in> own"
    and t': "undisturbed contested own t t'" and nb: "\<not> broken s'"
  have seen': "order_seen own' oid ord t'"
    by (rule order_seen_more_locks [OF order_seen_undisturbed [OF seen t'] same])
  have s': "pending s' = []" "executed s' = [stock_update it (changed_item it d) now, InsertMovement ?m]"
    using c by (simp_all add: change_owned_def)
  have "shop.robust contested (settle (transition_steps env oid (order_version ord) st) k) own' s' t'"
  proof (rule robust_transition_steps [OF k s'(1) nb])
    show "OrderRow oid \<in> contested \<or> OrderRow oid \<in> own'" using own more by blast
    show "find_order oid (apply_statements (executed s') x) = find_order oid x" for x
      by (simp add: s'(2) table_simps)
  next
    fix u
    assume u: "undisturbed contested own' t' u"
      "\<nexists>r. find_order oid u = Some r \<and> order_version r = order_version ord"
    from seen_lost [OF order_seen_undisturbed [OF seen' u(1)] u(2)] obtain r
      where r: "OrderRow oid \<notin> own'" "find_order oid u = Some r" "order_item_id r = order_item_id ord" by blast
    have "change_owned own' s' u it d ?m now"
      using c change_ownedD(1) [OF c u(1)] by (simp add: change_owned_def)
    then show "publishes contested own' s' u"
      by (rule publishes_conflict [OF _ records_change_record kind _ r(2)]) (use r own more iid in auto)
  next
    fix u r now'
    assume u: "undisturbed contested own' t' u" and r: "find_order oid u = Some r" "order_version r = order_version ord"
      and v: "int4 (order_version ord + 1)"
    note eq = seen_same [OF order_seen_undisturbed [OF seen' u] r]
    have "change_owned (insert (OrderRow oid) own') s' u it d ?m now"
      using c change_ownedD(1) [OF c u] by (simp add: change_owned_def)
    then show "publishes contested (insert (OrderRow oid) own')
        (s'\<lparr>executed := executed s' @ [UpdateOrder oid st (order_version ord + 1) now']\<rparr>) u"
      by (rule publishes_move [OF _ records_change_record kind r(1), where st = st])
         (use eq moves v r(2) iid in simp_all)
  qed
  then show "shop.robust contested (settle (case Inr a of Inl e \<Rightarrow> Finished (Inl e)
      | Inr a \<Rightarrow> transition_steps env oid (order_version ord) st) k) own' s' t'" by simp
qed simp_all

lemma robust_reject:
  fixes env :: "'r env" and k :: "exn + order option \<Rightarrow> ('r, 'c) proc"
  assumes k: "closing contested k" and own: "OrderRow oid \<in> contested \<or> OrderRow oid \<in> own"
    and seen: "order_seen own oid ord t" and pending: "status ord = PENDING"
  shows "shop.robust contested (settle (reject_steps env oid ord it) k) own fresh_session t"
  unfolding reject_steps_def proc_then_def settle_settle
proof (rule robust_status_step [OF _ _ _ own])
  show "closing contested (\<lambda>r. settle (case r of Inl e \<Rightarrow> Finished (Inl e)
        | Inr updated \<Rightarrow> if \<not> updated then Finished (Inl (ConflictError ''Order'' oid))
            else Finished (Inl (InsufficientStockError (item_id it) (quantity ord) (stock_quantity it)))) k)"
    by (rule closing_via [OF k]) (auto split: sum.split)
  fix t' r now
  assume t': "undisturbed contested own t t'" and r: "find_order oid t' = Some r"
    "order_version r = order_version ord" and v: "int4 (order_version ord + 1)"
  have seen': "order_seen own oid ord t'" by (rule order_seen_undisturbed [OF seen t'])
  show "publishes contested (insert (OrderRow oid) own)
      (fresh_session\<lparr>executed := executed fresh_session @ [UpdateOrder oid REJECTED (order_version ord + 1) now]\<rparr>) t'"
    using publishes_only_status [OF seen' r status_moves_next(3) v] seen_same [OF seen' r] pending by simp
qed (simp_all add: publishes_nothing)

lemma settle_after_unit:
  "settle (case r of Inl e \<Rightarrow> Finished (Inl e) | Inr _ \<Rightarrow> Finished (Inr ())) (\<lambda>r. settle (case r of Inl e \<Rightarrow> Finished (Inl e)
     | Inr _ \<Rightarrow> p) k) = settle (case r of Inl e \<Rightarrow> Finished (Inl e) | Inr _ \<Rightarrow> p) k"
  by (simp split: sum.split)

lemma seen_id: "order_seen own oid ord t \<Longrightarrow> order_id ord = oid"
  using found_order_id by (auto simp: order_seen_def order_evolves_def)

lemma deduct_steps_change:
  "order_id ord = oid \<Longrightarrow> deduct_steps env cache oid ord it =
     proc_then (write_steps env cache it (changed_item it (- quantity ord))
          (change_record it (- quantity ord) (Some oid) DEDUCTION (deduction_reason oid)))
       (\<lambda>_. transition_steps env oid (order_version ord) CONFIRMED)"
  using change_fold(3) [of it "Some oid" DEDUCTION "- quantity ord"]
  by (simp add: deduct_steps_def Let_def change_fold(1) del: changed_item_simps)

lemma restore_steps_change:
  "order_id ord = oid \<Longrightarrow> restore_steps env cache oid ord it =
     write_steps env cache it (changed_item it (quantity ord))
       (change_record it (quantity ord) (Some oid) RESTORATION (restoration_reason oid))"
  using change_fold(3) [of it "Some oid" RESTORATION "quantity ord"]
  by (simp add: restore_steps_def Let_def change_fold(2) del: changed_item_simps)

lemma robust_nothing:
  "closing contested k \<Longrightarrow> shop.robust contested (k r) own fresh_session t"
  by (rule closingD) (simp_all add: publishes_nothing)

lemma robust_confirm:
  fixes env :: "'r env" and k :: "exn + order option \<Rightarrow> ('r, 'c) proc"
  assumes k: "closing contested k" and own: "OrderRow oid \<in> contested \<or> OrderRow oid \<in> own"
  shows "shop.robust contested (settle (confirm_proc env cache oid) k) own fresh_session t"
  unfolding confirm_proc_def
proof (rule robust_read_order [OF k])
  fix ord t1
  assume "can_transition_to (status ord) CONFIRMED" and seen: "order_seen own oid ord t1"
  then have pending: "status ord = PENDING" by (cases "status ord") simp_all
  let ?own = "insert (ItemRow (order_item_id ord)) own"
  have own': "OrderRow oid \<in> contested \<or> OrderRow oid \<in> ?own" using own by blast
  show "shop.robust contested (settle (confirm_steps env cache oid ord) k) own fresh_session t1"
    unfolding confirm_steps_def proc_then_def settle_settle
  proof (rule robust_lock_item)
    fix t2 it
    assume t2: "undisturbed contested own t1 t2" and it: "find_item (order_item_id ord) t2 = Some it"
    have seen': "order_seen ?own oid ord t2"
      by (rule order_seen_more_locks [OF order_seen_undisturbed [OF seen t2]]) simp
    have "shop.robust contested (settle (deduct_steps env cache oid ord it) k) ?own fresh_session t2"
      unfolding deduct_steps_change [OF seen_id [OF seen]]
      by (rule robust_change_and_move [OF k own' seen' it]) (use status_moves_next(5) pending in auto)
    then show "shop.robust contested (settle (case Inr (Some it) of Inl e \<Rightarrow> Finished (Inl e) | Inr locked \<Rightarrow> (
         case locked of None \<Rightarrow> Finished (Inl (NotFoundError ''MenuItem'' (order_item_id ord)))
         | Some item \<Rightarrow> if stock_quantity item < quantity ord then reject_steps env oid ord item
             else deduct_steps env cache oid ord item)) k) ?own fresh_session t2"
      using robust_reject [OF k own' seen' pending] by simp
  qed (simp_all add: robust_nothing [OF k])
qed

lemma robust_cancel:
  fixes env :: "'r env" and k :: "exn + order option \<Rightarrow> ('r, 'c) proc"
  assumes k: "closing contested k" and own: "OrderRow oid \<in> contested \<or> OrderRow oid \<in> own"
  shows "shop.robust contested (settle (cancel_proc env cache oid) k) own fresh_session t"
  unfolding cancel_proc_def
proof (rule robust_read_order [OF k])
  fix ord t1
  assume can: "can_transition_to (status ord) CANCELLED" and seen: "order_seen own oid ord t1"
  let ?own = "insert (ItemRow (order_item_id ord)) own"
  let ?next = "transition_steps env oid (order_version ord) CANCELLED"
  have own': "OrderRow oid \<in> contested \<or> OrderRow oid \<in> ?own" using own by blast
  show "shop.robust contested (settle (cancel_steps env cache oid ord) k) own fresh_session t1"
  proof (cases "status ord \<in> stock_holding_states")
    case False
    then have "status ord = PENDING" using can by (cases "status ord") (simp_all add: stock_holding_states_def)
    then show ?thesis
      using robust_plain_transition [OF k own seen] status_moves_next(4) False
      by (simp add: cancel_steps_def proc_then_def)
  next
    case True
    then have held: "status ord = CONFIRMED \<or> status ord = SHIPPED"
      using can by (cases "status ord") (simp_all add: stock_holding_states_def)
    have "shop.robust contested (settle (proc_then (restore_proc env cache oid ord) (\<lambda>_. ?next)) k) own fresh_session t1"
      unfolding restore_proc_def proc_then_def settle_settle
    proof (rule robust_lock_item)
      fix t2
      assume t2: "undisturbed contested own t1 t2" and "find_item (order_item_id ord) t2 = None"
        and a: "audited_but contested t2"
      moreover obtain r where "find_order oid t2 = Some r" "order_item_id r = order_item_id ord"
        using order_seen_undisturbed [OF seen t2] by (auto simp: order_seen_def order_evolves_def)
      ultimately show "shop.robust contested (settle (case Inr None of Inl e \<Rightarrow> Finished (Inl e)
          | Inr locked \<Rightarrow> (case locked of None \<Rightarrow> Finished (Inr ())
              | Some item \<Rightarrow> settle (restore_steps env cache oid ord item) (\<lambda>r. case r of Inl e \<Rightarrow> Finished (Inl e)
                  | Inr _ \<Rightarrow> Finished (Inr ()))))
          (\<lambda>r. settle (case r of Inl e \<Rightarrow> Finished (Inl e) | Inr a \<Rightarrow> ?next) k)) own fresh_session t2"
        using schema_ok_order [OF audited_butD(1) [OF a]] by fastforce
    next
      fix t2 it
      assume t2: "undisturbed contested own t1 t2" and it: "find_item (order_item_id ord) t2 = Some it"
      have seen': "order_seen ?own oid ord t2"
        by (rule order_seen_more_locks [OF order_seen_undisturbed [OF seen t2]]) simp
      have "shop.robust contested (settle (proc_then (restore_steps env cache oid ord it) (\<lambda>_. ?next)) k) ?own fresh_session t2"
        unfolding restore_steps_change [OF seen_id [OF seen]]
        by (rule robust_change_and_move [OF k own' seen' it]) (use status_moves_next(6) held in auto)
      then show "shop.robust contested (settle (case Inr (Some it) of Inl e \<Rightarrow> Finished (Inl e)
          | Inr locked \<Rightarrow> (case locked of None \<Rightarrow> Finished (Inr ())
              | Some item \<Rightarrow> settle (restore_steps env cache oid ord item) (\<lambda>r. case r of Inl e \<Rightarrow> Finished (Inl e)
                  | Inr _ \<Rightarrow> Finished (Inr ()))))
          (\<lambda>r. settle (case r of Inl e \<Rightarrow> Finished (Inl e) | Inr a \<Rightarrow> ?next) k)) ?own fresh_session t2"
        by (simp add: proc_then_def settle_settle settle_after_unit)
    qed simp_all
    then show ?thesis using True by (simp add: cancel_steps_def)
  qed
qed

section \<open>Adjustment, placement, read\<close>

lemma robust_adjust:
  fixes env :: "'r env" and k :: "exn + menu_item \<Rightarrow> ('r, 'c) proc"
  assumes k: "closing contested k"
  shows "shop.robust contested (settle (adjust_proc env cache iid delta why) k) own fresh_session t"
  unfolding adjust_proc_def proc_then_def settle_settle
proof (rule robust_lock_item)
  fix t1 it
  assume it: "find_item iid t1 = Some it"
  let ?own = "insert (ItemRow iid) own"
  let ?new = "change_record it delta None ADJUSTMENT why"
  have iid: "item_id it = iid" by (rule found_item_id [OF it])
  have "shop.robust contested (settle (write_steps env cache it (changed_item it delta) ?new) k) ?own fresh_session t1"
  proof (rule robust_write)
    show "shop.robust contested (k (Inl e)) own' s' t'" if "broken s'" "pending s' = []" for e own' s' t'
      by (rule closingD [OF k that(2) publishes_broken [OF that(1)]])
    show "shop.robust contested (k (Inr a)) own' s' t'"
      if "change_owned own' s' t' it delta (?new mid created) now" for a own' s' t' mid created now
      using that by (intro closingD [OF k] publishes_adjustment [OF that]) (simp_all add: change_owned_def)
  qed (use it iid in \<open>simp_all add: change_record_def stock_movement_init_def\<close>)
  moreover have "it\<lparr>stock_quantity := stock_quantity it + delta, item_version := item_version it + 1\<rparr> =
      changed_item it delta" by (simp add: changed_item_def)
  ultimately show "shop.robust contested (settle (case Inr (Some it) of Inl e \<Rightarrow> Finished (Inl e) | Inr found \<Rightarrow> (
      case found of None \<Rightarrow> Finished (Inl (NotFoundError ''MenuItem'' iid))
      | Some item \<Rightarrow> (let before = stock_quantity item; new_quantity = before + delta
          in if new_quantity < 0 then Finished (Inl (InsufficientStockError iid \<bar>delta\<bar> before))
             else (let item' = item\<lparr>stock_quantity := new_quantity, item_version := item_version item + 1\<rparr>
                in write_steps env cache item item' (stock_movement_init (item_id item) None ADJUSTMENT delta before
                     new_quantity (Some why)))))) k) ?own fresh_session t1"
    using robust_nothing [OF k] by (simp add: Let_def change_fold(4))
qed (simp_all add: robust_nothing [OF k])

lemma wp_draw_order:
  assumes "\<not> broken (sess w)" "pending (sess w) = []"
  shows "wp (draw_order env (order_init iid qty (Some PENDING) ref)) Q w =
    Q (Inr (new_order env iid qty ref w)) (tick (tick (tick w)))"
proof -
  have "order_init iid qty (Some PENDING) ref (env_uuid4 env (calls w))
      (env_utc_now env (Suc (calls w))) (env_utc_now env (Suc (Suc (calls w)))) = new_order env iid qty ref w"
    by (simp add: new_order_def eval_nat_numeral)
  then show ?thesis using assms by (simp add: draw_order_def wp_rules set_pending_idem)
qed

lemma wp_insert_order:
  assumes "\<not> broken (sess w)"
  shows "wp (insert_order r) Q w =
    (case statement_fault (view w) (InsertOrder r) of
       Some e \<Rightarrow> Q (Inl e) (break_session w) | None \<Rightarrow> Q (Inr r) (log_statement (InsertOrder r) w))"
  using assms
  by (cases "statement_fault (view w) (InsertOrder r)") (simp_all add: insert_order_def wp_rules find_order_inserted)

lemma order_share_owned [simp]: "lock_set (order_share r w) = {}"
  by (simp add: order_share_def)

lemma robust_insert_order:
  fixes env :: "'r env" and k :: "exn + order \<Rightarrow> ('r, 'c) proc"
  assumes k: "closing contested k" and own: "OrderKey (order_id r) \<in> own" and r: "status r = PENDING" "order_version r = 1"
  shows "shop.robust contested (settle (await_on (order_share r) (insert_order r)) k) own fresh_session t"
proof (rule shop.robust_call, intro conjI)
  fix w :: "'r world"
  assume w: "sess w = fresh_session"
  show "wp (insert_order r) (\<lambda>x w'. db w' = db w \<and>
      shop.robust contested (k x) (own \<union> lock_set (order_share r w)) (sess w') (db w)) w"
  proof (cases "statement_fault (db w) (InsertOrder r)")
    case None
    have "publishes contested own (fresh_session\<lparr>executed := [InsertOrder r]\<rparr>) (db w)"
      by (rule publishes_place [OF _ None own r]) simp
    then show ?thesis
      using w None closingD [OF k] by (simp add: wp_insert_order view_nothing log_statement_def)
  next
    case (Some e)
    then show ?thesis
      using w closingD [OF k _ publishes_broken] by (simp add: wp_insert_order view_nothing break_session_def)
  qed
qed simp

lemma new_order_pending [simp]:
  "status (new_order env iid qty ref w) = PENDING" "order_version (new_order env iid qty ref w) = 1"
  "order_id (new_order env iid qty ref w) = env_uuid4 env (calls w)"
  by (simp_all add: new_order_def order_init_def)

lemma robust_place:
  fixes env :: "'r env" and k :: "exn + order \<Rightarrow> ('r, 'c) proc"
  assumes k: "closing contested k"
  shows "shop.robust contested (settle (place_proc env iid qty ref) k) own fresh_session t"
  unfolding place_proc_def proc_then_def settle_settle await_def
proof (rule shop.robust_call, intro conjI)
  fix w1 :: "'r world"
  assume w1: "sess w1 = fresh_session"
  have "shop.robust contested (settle (await_on (order_key env) (draw_order env (order_init iid qty (Some PENDING) ref)))
      (\<lambda>r. settle (case r of Inl e \<Rightarrow> Finished (Inl e)
        | Inr drawn \<Rightarrow> await_on (order_share drawn) (insert_order drawn)) k)) own fresh_session (db w1)"
  proof (rule shop.robust_call, intro conjI)
    fix w :: "'r world"
    assume w: "sess w = fresh_session"
    have key: "order_key env w = Some (OrderKey (env_uuid4 env (calls w)))"
      using w by (simp add: order_key_def next_key_def to_write_def)
    show "lock_set (order_key env w) \<inter> reserved_rows contested \<subseteq> own"
      by (auto simp: key reserved_rows_def)
    show "wp (draw_order env (order_init iid qty (Some PENDING) ref)) (\<lambda>r w'. db w' = db w \<and>
        shop.robust contested (settle (case r of Inl e \<Rightarrow> Finished (Inl e)
          | Inr drawn \<Rightarrow> await_on (order_share drawn) (insert_order drawn)) k)
          (own \<union> lock_set (order_key env w)) (sess w') (db w)) w"
      using w by (simp add: wp_draw_order key robust_insert_order [OF k])
  qed
  then show "wp (item_get_by_id iid) (\<lambda>r w'. db w' = db w1 \<and> shop.robust contested
      (settle (case r of Inl e \<Rightarrow> Finished (Inl e) | Inr found \<Rightarrow> (case found of
          None \<Rightarrow> Finished (Inl (NotFoundError ''MenuItem'' iid))
        | Some item \<Rightarrow> settle (await_on (order_key env) (draw_order env (order_init iid qty (Some PENDING) ref)))
            (\<lambda>r. case r of Inl e \<Rightarrow> Finished (Inl e)
              | Inr drawn \<Rightarrow> await_on (order_share drawn) (insert_order drawn)))) k)
      (own \<union> lock_set None) (sess w') (db w1)) w1"
    using w1 robust_nothing [OF k]
    by (cases "find_item iid (db w1)") (simp_all add: wp_item_get_by_id view_nothing settle_settle)
qed simp

text \<open>The creation of an item: the key, the name, the first movement.\<close>

lemma robust_first_movement:
  fixes env :: "'r env" and k :: "exn + menu_item \<Rightarrow> ('r, 'c) proc"
  assumes k: "closing contested k" and s: "executed s = [InsertItem it]" "pending s = []" "\<not> broken s"
    and free: "statement_fault t (InsertItem it) = None"
    and own: "ItemKey (item_id it) \<in> own" "ItemName (item_name it) \<in> own"
  shows "shop.robust contested (settle (first_movement_steps env cache it (stock_quantity it)) k) own s t"
  unfolding first_movement_steps_def proc_then_def settle_settle await_def
proof (rule shop.robust_call, intro conjI)
  fix w :: "'r world"
  assume w: "sess w = s" "undisturbed contested own t (db w)"
  have key: "first_movement_key env w = Some (MovementKey (env_uuid4 env (calls w)))"
    using s w(1) by (simp add: first_movement_key_def next_key_def to_write_def)
  show "lock_set (first_movement_key env w) \<inter> reserved_rows contested \<subseteq> own"
    by (auto simp: key reserved_rows_def)
  let ?m = "stock_movement_init (item_id it) None ADJUSTMENT (stock_quantity it) 0 (stock_quantity it)
      (Some initial_stock_reason) (env_uuid4 env (calls w)) (env_utc_now env (Suc (calls w)))"
  have m: "records_change (it\<lparr>stock_quantity := 0\<rparr>) (stock_quantity it) None ADJUSTMENT ?m" "mv_id ?m = env_uuid4 env (calls w)"
    by (simp_all add: records_change_def stock_movement_init_def)
  have view: "view w = apply_statement (InsertItem it) (db w)" using s(1) w(1) by (simp add: view_def)
  note free' = insert_item_undisturbed [OF free w(2) own]
  let ?own = "own \<union> lock_set (first_movement_key env w)" and ?s = "s\<lparr>executed := [InsertItem it, InsertMovement ?m]\<rparr>"
  let ?told = "\<lambda>r. settle (case r of Inl e \<Rightarrow> Finished (Inl e) | Inr _ \<Rightarrow> Finished (Inr it)) k"
  show "wp (create_movement env (stock_movement_init (item_id it) None ADJUSTMENT (stock_quantity it) 0
          (stock_quantity it) (Some initial_stock_reason)))
      (\<lambda>r w'. db w' = db w \<and> shop.robust contested (settle (case r of Inl e \<Rightarrow> Finished (Inl e)
        | Inr _ \<Rightarrow> settle (await_on (\<lambda>w. None) (cache_set_stock env cache (item_id it) (stock_quantity it)))
            (\<lambda>r. case r of Inl e \<Rightarrow> Finished (Inl e) | Inr _ \<Rightarrow> Finished (Inr it))) k) ?own (sess w') (db w)) w"
  proof (cases "statement_fault (apply_statement (InsertItem it) (db w)) (InsertMovement ?m)")
    case None
    have p: "publishes contested ?own ?s (db w)"
      by (rule publishes_create [OF _ _ m(1)]) (use None free' own key m(2) in \<open>simp_all add: create_ready_def\<close>)
    have "shop.robust contested (settle (await_on (\<lambda>w. None) (cache_set_stock env cache (item_id it) (stock_quantity it))) ?told)
        ?own ?s (db w)"
    proof (rule shop.robust_call, intro conjI)
      fix v :: "'r world"
      assume v: "sess v = ?s" "undisturbed contested ?own (db w) (db v)"
      show "wp (cache_set_stock env cache (item_id it) (stock_quantity it)) (\<lambda>r w'. db w' = db v \<and>
          shop.robust contested (?told r) (?own \<union> lock_set None) (sess w') (db v)) v"
        using v(1) s closingD [OF k _ publishes_undisturbed [OF p v(2)]] by (simp add: wp_cache_set_stock)
    qed simp
    then show ?thesis
      using s w(1) None by (simp add: create_movement_def wp_rules set_pending_idem view log_statement_def settle_settle)
  next
    case (Some e)
    then show ?thesis
      using s w(1) closingD [OF k _ publishes_broken]
      by (simp add: create_movement_def wp_rules set_pending_idem view break_session_def)
  qed
qed

lemma wp_insert_item:
  assumes "\<not> broken (sess w)"
  shows "wp (insert_item it) Q w =
    (case statement_fault (view w) (InsertItem it) of
       Some e \<Rightarrow> Q (Inl e) (break_session w) | None \<Rightarrow> Q (Inr it) (log_statement (InsertItem it) w))"
  using assms
  by (cases "statement_fault (view w) (InsertItem it)") (simp_all add: insert_item_def wp_rules find_item_inserted)

lemma robust_insert_item:
  fixes env :: "'r env" and k :: "exn + menu_item \<Rightarrow> ('r, 'c) proc"
  assumes k: "closing contested k" and own: "ItemKey (item_id it) \<in> own" and stock: "stock = stock_quantity it"
  shows "shop.robust contested (settle (await_on (\<lambda>w. Some (ItemName (item_name it))) (insert_item it))
      (\<lambda>r. settle (case r of Inl e \<Rightarrow> Finished (Inl e) | Inr item \<Rightarrow> first_movement_steps env cache item stock) k))
      own fresh_session t" (is "shop.robust _ (settle _ ?K) _ _ _")
proof (rule shop.robust_call, intro conjI)
  fix w :: "'r world"
  assume w: "sess w = fresh_session"
  let ?own = "own \<union> lock_set (Some (ItemName (item_name it)))"
  show "lock_set (Some (ItemName (item_name it))) \<inter> reserved_rows contested \<subseteq> own"
    by (auto simp: reserved_rows_def)
  show "wp (insert_item it) (\<lambda>r w'. db w' = db w \<and> shop.robust contested (?K r) ?own (sess w') (db w)) w"
  proof (cases "statement_fault (db w) (InsertItem it)")
    case None
    have "shop.robust contested (?K (Inr it)) ?own (fresh_session\<lparr>executed := [InsertItem it]\<rparr>) (db w)"
      using robust_first_movement [OF k, of "fresh_session\<lparr>executed := [InsertItem it]\<rparr>" it "db w" ?own] None own
      by (simp add: stock)
    then show ?thesis
      using w None by (simp add: wp_insert_item view_nothing) (simp add: log_statement_def)
  next
    case (Some e)
    then show ?thesis
      using w closingD [OF k _ publishes_broken]
      by (simp add: wp_insert_item view_nothing break_session_def)
  qed
qed

lemma robust_create:
  fixes env :: "'r env" and k :: "exn + menu_item \<Rightarrow> ('r, 'c) proc"
  assumes k: "closing contested k"
  shows "shop.robust contested (settle (create_proc env cache name price stock description threshold) k) own
    fresh_session t"
  unfolding create_proc_def proc_then_def settle_settle
proof (rule shop.robust_call, intro conjI)
  fix w :: "'r world"
  assume w: "sess w = fresh_session"
  define it where "it = new_item env name price stock description threshold w"
  have it: "item_id it = env_uuid4 env (calls w)" "item_name it = name" "stock = stock_quantity it"
    "menu_item_init name description price (Some stock) (Some threshold) None
      (env_uuid4 env (calls w)) (env_utc_now env (Suc (calls w))) (env_utc_now env (Suc (Suc (calls w)))) = it"
    by (simp_all add: it_def) (simp add: new_item_def eval_nat_numeral)
  have key: "item_key env w = Some (ItemKey (item_id it))"
    using w by (simp add: item_key_def next_key_def to_write_def it(1))
  show "lock_set (item_key env w) \<inter> reserved_rows contested \<subseteq> own"
    by (auto simp: key reserved_rows_def)
  show "wp (draw_item env (menu_item_init name description price (Some stock) (Some threshold) None))
        (\<lambda>r w'. db w' = db w \<and> shop.robust contested (settle (case r of Inl e \<Rightarrow> Finished (Inl e)
            | Inr drawn \<Rightarrow> settle (await_on (\<lambda>w. Some (ItemName (item_name drawn))) (insert_item drawn))
                (\<lambda>r. case r of Inl e \<Rightarrow> Finished (Inl e) | Inr item \<Rightarrow> first_movement_steps env cache item stock)) k)
          (own \<union> lock_set (item_key env w)) (sess w') (db w)) w"
    using w robust_insert_item [OF k _ it(3), of "own \<union> lock_set (item_key env w)" env cache "db w"]
    by (simp add: key draw_item_def wp_rules set_pending_idem it(4) settle_settle)
qed

text \<open>
  The stock read: without a cached quantity it writes nothing; a cached quantity is assigned to
  the row and committed, so the ledger of that item is not kept.
\<close>

lemma robust_assign:
  fixes k :: "exn + menu_item \<Rightarrow> ('r, 'c) proc"
  assumes "closing_assigned contested k" and "ItemRow (item_id it) \<in> contested"
  shows "shop.robust contested (settle (await (session_modify it (it\<lparr>stock_quantity := q\<rparr>))) (\<lambda>r. settle
      (case r of Inl e \<Rightarrow> Finished (Inl e) | Inr _ \<Rightarrow> Finished (Inr (it\<lparr>stock_quantity := q\<rparr>))) k)) own fresh_session t"
  unfolding await_def
proof (rule shop.robust_call, intro conjI)
  fix w :: "'r world"
  assume w: "sess w = fresh_session"
  let ?p = "patch_of it (it\<lparr>stock_quantity := q\<rparr>)"
  have p: "assigns ?p (fresh_session\<lparr>pending := [?p]\<rparr>)" "patch_id ?p = item_id it"
    by (simp_all add: assigns_def patch_of_def)
  have "shop.robust contested (k r) own (fresh_session\<lparr>pending := [?p]\<rparr>) (db w)" for r
    using assms p unfolding closing_assigned_def by metis
  moreover have "sess (set_pending [?p] w) = fresh_session\<lparr>pending := [?p]\<rparr>" using w by (simp add: set_pending_def)
  ultimately show "wp (session_modify it (it\<lparr>stock_quantity := q\<rparr>)) (\<lambda>r w'. db w' = db w \<and> shop.robust contested
      (settle (case r of Inl e \<Rightarrow> Finished (Inl e) | Inr _ \<Rightarrow> Finished (Inr (it\<lparr>stock_quantity := q\<rparr>))) k)
      (own \<union> lock_set None) (sess w') (db w)) w"
    using w by (simp add: wp_session_modify)
qed simp

lemma robust_read_row:
  fixes k :: "exn + menu_item \<Rightarrow> ('r, 'c) proc"
  assumes k: "closing contested k" and q: "q = None \<or> closing_assigned contested k \<and> ItemRow iid \<in> contested"
  shows "shop.robust contested (settle (await (item_get_by_id iid)) (\<lambda>r. settle (case r of Inl e \<Rightarrow> Finished (Inl e)
      | Inr found \<Rightarrow> (case found of None \<Rightarrow> Finished (Inl (NotFoundError ''MenuItem'' iid))
        | Some item \<Rightarrow> (case q of None \<Rightarrow> Finished (Inr item)
          | Some n \<Rightarrow> settle (await (session_modify item (item\<lparr>stock_quantity := n\<rparr>)))
              (\<lambda>r. case r of Inl e \<Rightarrow> Finished (Inl e) | Inr _ \<Rightarrow> Finished (Inr (item\<lparr>stock_quantity := n\<rparr>)))))) k))
      own fresh_session t" (is "shop.robust _ (settle _ ?K) _ _ _")
  unfolding await_def [of "item_get_by_id iid"]
proof (rule shop.robust_call, intro conjI)
  fix w :: "'r world"
  assume w: "sess w = fresh_session"
  have "shop.robust contested (?K (Inr (Some it))) own fresh_session (db w)" if "find_item iid (db w) = Some it" for it
    using q robust_nothing [OF k] robust_assign [of contested k it] found_item_id [OF that]
    by (auto simp: settle_settle split: option.split)
  then show "wp (item_get_by_id iid) (\<lambda>r w'. db w' = db w \<and>
      shop.robust contested (?K r) (own \<union> lock_set None) (sess w') (db w)) w"
    using w robust_nothing [OF k]
    by (cases "find_item iid (db w)") (simp_all add: wp_item_get_by_id view_nothing)
qed simp

lemma robust_read_stock:
  fixes k :: "exn + menu_item \<Rightarrow> ('r, 'c) proc"
  assumes k: "closing contested k" and c: "cache = None \<or> closing_assigned contested k \<and> ItemRow iid \<in> contested"
  shows "shop.robust contested (settle (get_stock_proc cache iid) k) own fresh_session t"
  unfolding get_stock_proc_def proc_then_def settle_settle await_def [of "cache_get_stock cache iid"]
proof (rule shop.robust_call, intro conjI)
  fix w :: "'r world"
  assume w: "sess w = fresh_session"
  have q: "cached cache iid (redis w) = None \<or> closing_assigned contested k \<and> ItemRow iid \<in> contested"
    using c by (auto simp: cached_def)
  show "wp (cache_get_stock cache iid) (\<lambda>r w'. db w' = db w \<and> shop.robust contested
      (settle (case r of Inl e \<Rightarrow> Finished (Inl e)
        | Inr q \<Rightarrow> settle (await (item_get_by_id iid)) (\<lambda>r. case r of Inl e \<Rightarrow> Finished (Inl e)
          | Inr found \<Rightarrow> (case found of None \<Rightarrow> Finished (Inl (NotFoundError ''MenuItem'' iid))
            | Some item \<Rightarrow> (case q of None \<Rightarrow> Finished (Inr item)
                | Some n \<Rightarrow> settle (await (session_modify item (item\<lparr>stock_quantity := n\<rparr>)))
                    (\<lambda>r. case r of Inl e \<Rightarrow> Finished (Inl e) | Inr a \<Rightarrow> Finished (Inr (item\<lparr>stock_quantity := n\<rparr>))))))) k)
      (own \<union> lock_set None) (sess w') (db w)) w"
    using w robust_read_row [OF k q] by (simp add: wp_cache_get_stock settle_settle)
qed simp

section \<open>Requests\<close>

text \<open>
  What a request needs to be robust: the order that it acts on is contested or its own, and the
  item whose stock it reads through the cache is contested.
\<close>

fun acts_on :: "client_request \<Rightarrow> uuid \<Rightarrow> bool" where
  "acts_on (TransitionOrder oid a) x \<longleftrightarrow> oid = x"
| "acts_on _ x \<longleftrightarrow> False"

fun reads_through_cache :: "'r env \<Rightarrow> client_request \<Rightarrow> uuid \<Rightarrow> bool" where
  "reads_through_cache env (ReadStock iid) i \<longleftrightarrow> get_cache env \<noteq> None \<and> iid = i"
| "reads_through_cache env _ i \<longleftrightarrow> False"

lemma robust_action:
  assumes "closing contested k" and "OrderRow oid \<in> contested \<or> OrderRow oid \<in> own"
  shows "shop.robust contested (settle (action_proc env cache a oid) k) own fresh_session t"
  using robust_confirm [OF assms] robust_cancel [OF assms] robust_transition [OF assms] by (cases a) simp_all

lemma robust_endpoint:
  assumes k: "closing contested k" "closing_assigned contested k"
    and q: "\<And>i. reads_through_cache env q i \<Longrightarrow> ItemRow i \<in> contested"
    and own: "\<And>oid. acts_on q oid \<Longrightarrow> OrderRow oid \<in> contested \<or> OrderRow oid \<in> own"
  shows "shop.robust contested (settle (endpoint_proc env q) k) own fresh_session t"
proof (cases q)
    case (TransitionOrder oid a)
    then show ?thesis
      using own
      by (simp add: proc_then_def proc_mapped_def settle_settle)
         (intro robust_action closing_via [OF k(1)]; auto split: sum.split option.split)
  next
    case (AdjustStock iid b)
    then show ?thesis
      by (simp add: proc_body_def proc_then_def proc_mapped_def settle_settle robust_nothing [OF k(1)])
         (intro impI robust_adjust closing_via [OF k(1)]; auto split: sum.split)
  next
    case (PlaceOrder b)
    then show ?thesis
      by (simp add: proc_body_def proc_then_def proc_mapped_def settle_settle robust_nothing [OF k(1)])
         (intro impI robust_place closing_via [OF k(1)]; auto split: sum.split)
  next
    case (CreateItem b)
    then show ?thesis
      by (simp add: proc_body_def proc_then_def proc_mapped_def settle_settle robust_nothing [OF k(1)])
         (intro impI robust_create closing_via [OF k(1)]; auto split: sum.split)
  next
    case (ReadStock iid)
    let ?k = "\<lambda>r. settle (case r of Inl e \<Rightarrow> Finished (Inl e) | Inr a \<Rightarrow> Finished (Inr (StockBody (stock_response a)))) k"
    let ?k' = "\<lambda>r. settle (case r of Inl e \<Rightarrow> Finished (Inl (not_found_error e)) | Inr a \<Rightarrow> Finished (Inr a)) ?k"
    have "closing contested ?k'" by (rule closing_via [OF k(1)]) (auto split: sum.split)
    moreover have "closing_assigned contested ?k'" by (rule closing_assigned_via [OF k(2)]) (auto split: sum.split)
    moreover have "get_cache env = None \<or> ItemRow iid \<in> contested" using q [of iid] by (cases "get_cache env") (simp_all add: ReadStock)
    ultimately have "shop.robust contested (settle (get_stock_proc (get_cache env) iid) ?k') own fresh_session t"
      by (intro robust_read_stock) auto
    then show ?thesis
      by (simp add: ReadStock proc_body_def proc_then_def proc_mapped_def settle_settle comp_def)
  next
    case (Query rq)
    then show ?thesis using shop.robust_reading [OF reading_query robust_nothing [OF k(1)]] by simp
qed

lemma robust_request:
  assumes "\<And>i. reads_through_cache env q i \<Longrightarrow> ItemRow i \<in> contested"
    and "\<And>oid. acts_on q oid \<Longrightarrow> OrderRow oid \<in> contested \<or> OrderRow oid \<in> own"
  shows "shop.robust contested (request_proc env q) own fresh_session t"
  unfolding request_proc_def by (rule robust_endpoint [OF closing_end closing_assigned_end assms])

end
