(* ===== verification/Lock_Order.thy ===== *)
theory Lock_Order
  imports Read_Requests
begin

text \<open>
  No request waits for ever. Every request takes its locks in one order: the key of a new item
  or order, the name of a new item, the row of an item in whatever mode, the key of a movement,
  the row of an order. So among the requests that have not ended there is always one that
  nobody blocks, and since the calls that are left to a request decrease, every
  reachable system can be run until all requests have been answered.
\<close>

section \<open>The order of the locks\<close>

fun lock_rank :: "row_lock \<Rightarrow> nat" where
  "lock_rank (ItemKey i) = 0"
| "lock_rank (OrderKey i) = 0"
| "lock_rank (ItemName n) = 1"
| "lock_rank (ItemRow i) = 2"
| "lock_rank (ItemWrite i) = 2"
| "lock_rank (ItemShare i) = 2"
| "lock_rank (MovementKey i) = 3"
| "lock_rank (OrderRow i) = 4"

lemma conflicts_rank: "conflicts k k' \<Longrightarrow> lock_rank k' = lock_rank k"
  by (cases k) auto

definition next_floor :: "nat \<Rightarrow> row_lock option \<Rightarrow> nat" where
  "next_floor n k = (case k of None \<Rightarrow> n | Some l \<Rightarrow> Suc (lock_rank l))"

text \<open>At most \<open>b\<close> calls are left, and the locks they need rank at least \<open>n\<close> and ascend.\<close>

primrec orderly :: "('r, 'a) proc \<Rightarrow> nat \<Rightarrow> nat \<Rightarrow> session \<Rightarrow> bool" where
  "orderly (Finished r) = (\<lambda>b n s. True)"
| "orderly (Await l f) = (\<lambda>b n s. 0 < b \<and> (\<forall>w. sess w = s \<longrightarrow>
     (\<forall>k. l w = Some k \<longrightarrow> n \<le> lock_rank k) \<and>
     (case map_prod orderly id (f w) of (g, w') \<Rightarrow> g (b - 1) (next_floor n (l w)) (sess w'))))"

definition orderly_client :: "('r, 'a) client \<Rightarrow> nat \<Rightarrow> nat \<Rightarrow> bool" where
  "orderly_client c b n \<longleftrightarrow> orderly (client_proc c) b n (client_session c) \<and>
     (\<forall>k \<in> client_held c. lock_rank k < n) \<and> (finished (client_proc c) \<longrightarrow> client_held c = {})"

definition orderly_system :: "('r, 'a) system \<Rightarrow> nat list \<Rightarrow> bool" where
  "orderly_system s bs \<longleftrightarrow> length bs = length (clients s) \<and>
     (\<forall>p < length (clients s). \<exists>n. orderly_client (clients s ! p) (bs ! p) n)"

lemma orderlyD:
  assumes "orderly (Await l f) b n (sess w)"
  shows "0 < b" and "l w = Some k \<Longrightarrow> n \<le> lock_rank k"
    and "orderly (fst (f w)) (b - 1) (next_floor n (l w)) (sess (snd (f w)))"
  using assms by (auto simp: case_prod_beta)

lemma orderly_step:
  assumes "orderly_system s bs" and "advance p s = Some s'"
  shows "p < length bs \<and> 0 < bs ! p \<and> orderly_system s' (bs[p := bs ! p - 1])"
proof -
  from assms(2) obtain l f where p: "p < length (clients s)" "client_proc (clients s ! p) = Await l f"
    and s': "s' = stepped p (l (client_world s (clients s ! p))) (f (client_world s (clients s ! p))) s"
    by (rule advance_cases)
  let ?w = "client_world s (clients s ! p)"
  have len: "length bs = length (clients s)" using assms(1) by (simp add: orderly_system_def)
  obtain n where n: "orderly_client (clients s ! p) (bs ! p) n"
    using assms(1) p(1) by (auto simp: orderly_system_def)
  have "orderly (Await l f) (bs ! p) n (sess ?w)" using n p(2) by (simp add: orderly_client_def)
  note o = orderlyD [OF this]
  have b: "0 < bs ! p" and o1: "orderly (fst (f ?w)) (bs ! p - 1) (next_floor n (l ?w)) (sess (snd (f ?w)))"
    and rank: "\<forall>k. l ?w = Some k \<longrightarrow> n \<le> lock_rank k"
    using o by blast+
  have "\<forall>k \<in> client_held (clients s ! p) \<union> set_option (l ?w). lock_rank k < next_floor n (l ?w)"
    using n rank by (cases "l ?w") (auto simp: orderly_client_def next_floor_def less_Suc_eq_le)
  then have "orderly_client (clients s' ! p) (bs ! p - 1) (next_floor n (l ?w))"
    using stepped_client [OF p(1)] o1 by (simp add: s' orderly_client_def)
  moreover have "\<exists>n. orderly_client (clients s' ! q) (bs ! q) n" if "q < length (clients s)" "q \<noteq> p" for q
    using that assms(1) by (simp add: s' orderly_system_def)
  ultimately show ?thesis
    using b p(1) len by (auto simp: orderly_system_def s' nth_list_update)
qed

lemma sum_list_decrease: "p < length bs \<Longrightarrow> 0 < bs ! p \<Longrightarrow> Suc (sum_list (bs[p := bs ! p - 1])) = sum_list bs"
  for bs :: "nat list"
  by (induction bs arbitrary: p) (auto split: nat.split simp: nth_Cons)

section \<open>Schedules are finite\<close>

lemma schedule_bound:
  assumes "run_schedule ps s = Some s'" and "orderly_system s bs"
  shows "\<exists>bs'. orderly_system s' bs' \<and> length ps + sum_list bs' = sum_list bs"
  using assms
proof (induction ps arbitrary: s bs)
  case (Cons p ps)
  from Cons.prems(1) obtain s1 where s1: "advance p s = Some s1" "run_schedule ps s1 = Some s'"
    by (auto split: option.splits)
  note o1 = orderly_step [OF Cons.prems(2) s1(1)]
  from Cons.IH [OF s1(2)] o1 obtain bs' where "orderly_system s' bs'"
    "length ps + sum_list bs' = sum_list (bs[p := bs ! p - 1])" by blast
  with sum_list_decrease o1 show ?case by (metis add_Suc length_Cons)
qed auto

section \<open>Somebody can always continue\<close>

definition all_finished :: "('r, 'a) system \<Rightarrow> bool" where
  "all_finished s \<longleftrightarrow> list_all (\<lambda>c. finished (client_proc c)) (clients s)"

definition wanted_rank :: "('r, 'a) system \<Rightarrow> nat \<Rightarrow> nat" where
  "wanted_rank s p =
     (case client_proc (clients s ! p) of Finished r \<Rightarrow> 0
      | Await l f \<Rightarrow> (case l (client_world s (clients s ! p)) of None \<Rightarrow> 0 | Some k \<Rightarrow> lock_rank k))"

lemma blocked_by_higher:
  assumes o: "orderly_system s bs" and p: "p < length (clients s)" "\<not> finished (client_proc (clients s ! p))"
    and stuck: "\<forall>p. advance p s = None"
  shows "\<exists>q < length (clients s). \<not> finished (client_proc (clients s ! q)) \<and> wanted_rank s p < wanted_rank s q"
proof -
  have waits: "\<exists>l f k. client_proc (clients s ! a) = Await l f \<and> l (client_world s (clients s ! a)) = Some k \<and>
      held_elsewhere a k s" if a: "a < length (clients s)" "\<not> finished (client_proc (clients s ! a))" for a
  proof (cases "client_proc (clients s ! a)")
    case (Await l f)
    then show ?thesis
      using stuck [rule_format, of a] a(1) by (auto simp: advance_def Let_def split: option.splits if_splits)
  qed (use a in simp)
  from waits [OF p] obtain l f k where k: "client_proc (clients s ! p) = Await l f"
      "l (client_world s (clients s ! p)) = Some k" "held_elsewhere p k s" by blast
  then obtain q h where q: "q < length (clients s)" "h \<in> client_held (clients s ! q)" and h: "conflicts k h"
    by (auto simp: held_elsewhere_iff)
  obtain n where n: "orderly_client (clients s ! q) (bs ! q) n"
    using o q(1) by (auto simp: orderly_system_def)
  have busy: "\<not> finished (client_proc (clients s ! q))" using n q(2) by (auto simp: orderly_client_def)
  from waits [OF q(1) busy] obtain l' f' k' where k': "client_proc (clients s ! q) = Await l' f'"
      "l' (client_world s (clients s ! q)) = Some k'" by blast
  have "orderly (Await l' f') (bs ! q) n (sess (client_world s (clients s ! q)))"
    using n k'(1) by (simp add: orderly_client_def)
  from orderlyD(2) [OF this k'(2)] have "lock_rank h < n" "n \<le> lock_rank k'"
    using n q(2) by (auto simp: orderly_client_def)
  then have "wanted_rank s p < wanted_rank s q" using k k' conflicts_rank [OF h] by (simp add: wanted_rank_def)
  with q(1) busy show ?thesis by blast
qed

lemma not_stuck:
  assumes o: "orderly_system s bs" and busy: "\<not> all_finished s"
  shows "\<exists>p. advance p s \<noteq> None"
proof (rule ccontr)
  assume "\<nexists>p. advance p s \<noteq> None"
  then have stuck: "\<forall>p. advance p s = None" by blast
  let ?B = "{p. p < length (clients s) \<and> \<not> finished (client_proc (clients s ! p))}"
  have "?B \<noteq> {}" using busy by (auto simp: all_finished_def list_all_length)
  then have "Max (wanted_rank s ` ?B) \<in> wanted_rank s ` ?B" by (intro Max_in) auto
  then obtain p where p: "p \<in> ?B" "wanted_rank s p = Max (wanted_rank s ` ?B)" by auto
  then have "\<forall>q \<in> ?B. \<not> wanted_rank s p < wanted_rank s q" by (auto simp: not_less intro: Max_ge)
  with p blocked_by_higher [OF o _ _ stuck, of p] show False by blast
qed

lemma can_finish:
  assumes "orderly_system s bs"
  shows "\<exists>s'. reaches s s' \<and> all_finished s'"
  using assms
proof (induction "sum_list bs" arbitrary: s bs rule: less_induct)
  case less
  show ?case
  proof (cases "all_finished s")
    case True
    then show ?thesis using reaches_refl by blast
  next
    case False
    from not_stuck [OF less.prems False] obtain p s1 where s1: "advance p s = Some s1" by auto
    note o1 = orderly_step [OF less.prems s1]
    then have "sum_list (bs[p := bs ! p - 1]) < sum_list bs" using sum_list_decrease [of p bs] by linarith
    from less.hyps [OF this] o1 obtain s' where "reaches s1 s'" "all_finished s'" by blast
    with reaches_first [OF _ s1] show ?thesis by blast
  qed
qed

section \<open>The requests are orderly\<close>

lemma orderly_mono: "orderly p b n s \<Longrightarrow> b \<le> b' \<Longrightarrow> n' \<le> n \<Longrightarrow> orderly p b' n' s"
proof (induction p arbitrary: b b' n n' s)
  case (Await l f)
  have "orderly (fst (f w)) (b' - 1) (next_floor n' (l w)) (sess (snd (f w)))" if w: "sess w = s" for w
  proof (rule Await.IH [of "f w"])
    have here: "orderly (Await l f) b n (sess w)" using Await.prems(1) w by blast
    show "orderly (fst (f w)) (b - 1) (next_floor n (l w)) (sess (snd (f w)))" by (rule orderlyD(3) [OF here])
    show "next_floor n' (l w) \<le> next_floor n (l w)" using Await.prems(3) by (simp add: next_floor_def split: option.split)
  qed (use Await.prems(2) in \<open>auto simp: prod_set_defs intro: fsts.intros\<close>)
  moreover have "n' \<le> lock_rank k" if "sess w = s" "l w = Some k" for w k
  proof -
    have "orderly (Await l f) b n (sess w)" using Await.prems(1) that(1) by blast
    from orderlyD(2) [OF this that(2)] Await.prems(3) show ?thesis by simp
  qed
  moreover have "0 < b'" using Await.prems(1,2) by simp
  ultimately show ?case by (simp add: case_prod_beta)
qed simp

lemma orderly_await:
  assumes "0 < b" and "\<And>w. sess w = s \<Longrightarrow> (\<forall>c. l w = Some c \<longrightarrow> n \<le> lock_rank c) \<and>
      orderly (k (fst (m w))) (b - 1) (next_floor n (l w)) (sess (snd (m w)))"
  shows "orderly (settle (await_on l m) k) b n s"
  using assms by (auto simp: await_on_def case_prod_beta)

lemma orderly_free:
  assumes "0 < b" and "\<And>w. sess w = s \<Longrightarrow> pending (sess (snd (m w))) = []"
    and "\<And>r s'. pending s' = [] \<Longrightarrow> orderly (k r) (b - 1) n s'"
  shows "orderly (settle (await m) k) b n s"
  unfolding await_def using assms(3) [OF assms(2)] by (intro orderly_await [OF assms(1)]) (simp add: next_floor_def)

lemma orderly_locking:
  assumes "0 < b" and "n \<le> rank" and "\<And>w c. l w = Some c \<Longrightarrow> lock_rank c = rank"
    and "\<And>w. sess w = s \<Longrightarrow> pending (sess (snd (m w))) = []"
    and "\<And>r s'. pending s' = [] \<Longrightarrow> orderly (k r) (b - 1) (Suc rank) s'"
  shows "orderly (settle (await_on l m) k) b n s"
proof (rule orderly_await [OF assms(1)], intro conjI)
  fix w :: "'a world"
  assume w: "sess w = s"
  show "\<forall>c. l w = Some c \<longrightarrow> n \<le> lock_rank c" using assms(2,3) by blast
  have "next_floor n (l w) \<le> Suc rank" using assms(2,3) by (auto simp: next_floor_def split: option.split)
  then show "orderly (k (fst (m w))) (b - 1) (next_floor n (l w)) (sess (snd (m w)))"
    using orderly_mono [OF assms(5) [OF assms(4) [OF w]]] by blast
qed

text \<open>Calls that leave no assignment behind: \<open>quiet\<close> if there was none, \<open>settling\<close> in any case.\<close>

definition quiet_call :: "('r, 'a) io \<Rightarrow> bool" where
  "quiet_call m \<longleftrightarrow> (\<forall>w. pending (sess w) = [] \<longrightarrow> pending (sess (snd (m w))) = [])"

definition settling :: "('r, 'a) io \<Rightarrow> bool" where
  "settling m \<longleftrightarrow> (\<forall>w. pending (sess (snd (m w))) = [])"

lemma settling_then: "settling m \<Longrightarrow> (\<And>a. quiet_call (f a)) \<Longrightarrow> settling (and_then m f)"
  by (simp add: settling_def quiet_call_def and_then_def split: prod.split sum.split) (metis snd_conv)

lemma any_then_settling: "quiet_call m \<Longrightarrow> (\<And>a. quiet_call (f a)) \<Longrightarrow> quiet_call (and_then m f)"
  by (simp add: quiet_call_def and_then_def split: prod.split sum.split) (metis snd_conv)

lemma settling_quiet: "settling m \<Longrightarrow> quiet_call m"
  by (simp add: settling_def quiet_call_def)

lemma quietD: "quiet_call m \<Longrightarrow> pending (sess w) = [] \<Longrightarrow> pending (sess (snd (m w))) = []"
  by (simp add: quiet_call_def)

lemma settlingD: "settling m \<Longrightarrow> pending (sess (snd (m w))) = []"
  by (simp add: settling_def)

lemma quiet_basic [simp]:
  "quiet_call (done_with a)" "quiet_call (raise_exn e)" "quiet_call (session_read q)"
  "quiet_call (session_execute st)" "quiet_call (uuid4 env)" "quiet_call (utc_now env)"
  "quiet_call (cache_set_stock env cache iid n)" "quiet_call (cache_get_stock cache iid)"
  by (simp_all add: quiet_call_def done_with_def raise_exn_def session_read_def session_execute_def uuid4_def
      utc_now_def cache_set_stock_def cache_get_stock_def split: option.split prod.split sum.split)

lemma quiet_branches [simp]:
  "quiet_call (case x of None \<Rightarrow> m | Some a \<Rightarrow> f a) \<longleftrightarrow>
     (case x of None \<Rightarrow> quiet_call m | Some a \<Rightarrow> quiet_call (f a))"
  "quiet_call (if c then m else m') \<longleftrightarrow> (if c then quiet_call m else quiet_call m')"
  by (simp_all split: option.split)

lemma quiet_patches: "quiet_call (flush_patches env ps)"
  by (induction ps) (auto simp: flush_patches.simps intro!: any_then_settling)

lemma settling_flush [simp]: "settling (session_flush env)"
  by (simp add: settling_def session_flush_def quietD [OF quiet_patches])

lemma settling_writes [simp]:
  "settling (create_movement env new)" "settling (draw_order env new')"
  by (auto simp: create_movement_def draw_order_def
      intro!: settling_then any_then_settling split: option.split)

lemma quiet_calls [simp]:
  "quiet_call (order_get_by_id oid)" "quiet_call (item_get_by_id iid)"
  "quiet_call (item_get_by_id_with_lock iid)" "quiet_call (reload_order oid)"
  "quiet_call (item_save env it)"
  by (auto simp: order_get_by_id_def item_get_by_id_def item_get_by_id_with_lock_def reload_order_def item_save_def
      session_refresh_item_def intro!: any_then_settling settling_quiet [OF settling_flush] split: option.split)

lemma quiet_creation [simp]: "settling (draw_item env new)" "quiet_call (insert_item it)" "quiet_call (insert_order r)"
  by (auto simp: draw_item_def insert_item_def session_refresh_item_def insert_order_def session_refresh_order_def intro!: settling_then any_then_settling
      split: option.split)

lemma quiet_transition [simp]: "quiet_call (transition_status env oid v st)"
  by (auto simp: transition_status_def intro!: any_then_settling split: option.split)

text \<open>The call that assigns to the item and inserts the movement.\<close>

lemma settling_change: "settling (and_then (session_modify it it') (\<lambda>_. create_movement env new))"
  using settling_writes(1) [of env new] by (simp add: settling_def and_then_def session_modify_def Let_def)

section \<open>The services are orderly\<close>

definition ending :: "(exn + 'a \<Rightarrow> ('r, 'b) proc) \<Rightarrow> bool" where
  "ending k \<longleftrightarrow> (\<forall>r b n s. 0 < b \<longrightarrow> pending s = [] \<longrightarrow> orderly (k r) b n s)"

lemma endingD: "ending k \<Longrightarrow> 0 < b \<Longrightarrow> pending s = [] \<Longrightarrow> orderly (k r) b n s"
  by (simp add: ending_def)

lemma ending_via: "ending k \<Longrightarrow> (\<And>r. \<exists>r'. k' r = k r') \<Longrightarrow> ending k'"
  unfolding ending_def by metis

lemma ending_end: "ending (\<lambda>r. await_on pending_row (end_request env r))"
  by (simp add: ending_def await_on_def pending_row_def to_write_def next_floor_def case_prod_beta)

lemma row_ranks:
  "item_row i w = Some c \<Longrightarrow> lock_rank c = 2"
  "item_key env w = Some c \<Longrightarrow> lock_rank c = 0"
  "movement_key env w = Some c \<Longrightarrow> lock_rank c = 3"
  "first_movement_key env w = Some c \<Longrightarrow> lock_rank c = 3"
  "order_key env w = Some c \<Longrightarrow> lock_rank c = 0"
  "order_share r w = Some c \<Longrightarrow> lock_rank c = 2"
  "order_row oid v w = Some c \<Longrightarrow> lock_rank c = 4"
  by (auto simp: item_row_def item_key_def movement_key_def first_movement_key_def order_key_def order_share_def order_row_def split: if_splits option.splits)

lemma settle_unit:
  "settle (case r of Inl e \<Rightarrow> Finished (Inl e) | Inr _ \<Rightarrow> Finished (Inr ())) (\<lambda>r. settle (case r of Inl e \<Rightarrow> Finished (Inl e)
     | Inr _ \<Rightarrow> p) k) = settle (case r of Inl e \<Rightarrow> Finished (Inl e) | Inr _ \<Rightarrow> p) k"
  by (simp split: sum.split)

lemma orderly_transition_steps:
  assumes "ending k" and "2 < b" and "n \<le> 4" and "pending s = []"
  shows "orderly (settle (transition_steps env oid v st) k) b n s"
  unfolding transition_steps_def proc_then_def settle_settle
proof (rule orderly_locking [where rank = 4])
  show "orderly (settle (case r of Inl e \<Rightarrow> Finished (Inl e) | Inr updated \<Rightarrow>
      if \<not> updated then Finished (Inl (ConflictError ''Order'' oid)) else await (reload_order oid)) k)
      (b - 1) (Suc 4) s'" if "pending s' = []" for r s'
    using assms that
    by (auto split: sum.split intro!: endingD orderly_free quietD)
qed (use assms in \<open>auto intro: row_ranks quietD\<close>)

text \<open>After the read of the order: an error, or the steps of the transition.\<close>

lemma orderly_read_order:
  assumes "ending k" and "1 < b" and "\<And>ord s'. pending s' = [] \<Longrightarrow> orderly (settle (p ord) k) (b - 1) 0 s'"
  shows "orderly (settle (proc_then (await (order_get_by_id oid)) (\<lambda>found.
      case found of None \<Rightarrow> Finished (Inl (NotFoundError ''Order'' oid))
      | Some ord \<Rightarrow> if \<not> can_transition_to (status ord) st
          then Finished (Inl (InvalidTransitionError (status ord) st)) else p ord)) k) b 0 fresh_session"
  unfolding proc_then_def settle_settle
proof (rule orderly_free)
  show "orderly (settle (case r of Inl e \<Rightarrow> Finished (Inl e) | Inr found \<Rightarrow> (
      case found of None \<Rightarrow> Finished (Inl (NotFoundError ''Order'' oid))
      | Some ord \<Rightarrow> if \<not> can_transition_to (status ord) st
          then Finished (Inl (InvalidTransitionError (status ord) st)) else p ord)) k) (b - 1) 0 s'"
    if "pending s' = []" for r s'
    using assms(2,3) that endingD [OF assms(1)] by (simp split: sum.split option.split)
qed (use assms(2) in \<open>auto intro: quietD simp: fresh_session_def\<close>)

lemma orderly_plain:
  "ending k \<Longrightarrow> 3 < b \<Longrightarrow> orderly (settle (transition_proc env oid st) k) b 0 fresh_session"
  unfolding transition_proc_def by (intro orderly_read_order orderly_transition_steps) simp_all

lemma orderly_reject:
  assumes "ending k" and "1 < b" and "n \<le> 4" and "pending s = []"
  shows "orderly (settle (reject_steps env oid ord it) k) b n s"
  unfolding reject_steps_def proc_then_def settle_settle
proof (rule orderly_locking [where rank = 4])
  show "orderly (settle (case r of Inl e \<Rightarrow> Finished (Inl e) | Inr updated \<Rightarrow>
      if \<not> updated then Finished (Inl (ConflictError ''Order'' oid))
      else Finished (Inl (InsufficientStockError (item_id it) (quantity ord) (stock_quantity it)))) k)
      (b - 1) (Suc 4) s'" if "pending s' = []" for r s'
    using assms(2) that endingD [OF assms(1)] by (simp split: sum.split)
qed (use assms in \<open>auto intro: row_ranks quietD\<close>)

lemma orderly_write:
  assumes "3 < b" and "n \<le> 3" and "pending s = []"
    and "\<And>r s'. pending s' = [] \<Longrightarrow> orderly (k r) (b - 3) 4 s'"
  shows "orderly (settle (write_steps env cache it it' new) k) b n s"
  unfolding write_steps_def proc_then_def [of "await_on l m" for l m] settle_settle
proof (rule orderly_locking [where rank = 3])
  have stop: "orderly (k r) (b - 1) 4 s'" "orderly (k r) (b - 2) 4 s'" if "pending s' = []" for r s'
    using orderly_mono [OF assms(4) [OF that]] by simp_all
  have told: "orderly (settle (await (cache_set_stock env cache i q)) (\<lambda>r. settle (case r of Inl e \<Rightarrow> Finished (Inl e)
      | Inr _ \<Rightarrow> Finished (Inr saved)) k)) (b - 2) 4 s'" if "pending s' = []" for i q saved s'
    by (rule orderly_free) (use assms(1,4) that in \<open>auto intro: quietD split: sum.split\<close>)
  have saved: "orderly (settle (await (item_save env it')) (\<lambda>r. settle (case r of Inl e \<Rightarrow> Finished (Inl e)
      | Inr saved \<Rightarrow> settle (await (cache_set_stock env cache (item_id saved) (stock_quantity saved)))
          (\<lambda>r. case r of Inl e \<Rightarrow> Finished (Inl e) | Inr _ \<Rightarrow> Finished (Inr saved))) k)) (b - 1) 4 s'"
    if "pending s' = []" for s'
    by (rule orderly_free) (use assms(1) that told stop in \<open>auto intro: quietD simp: settle_settle numeral_2_eq_2 split: sum.split\<close>)
  show "orderly (settle (case r of Inl e \<Rightarrow> Finished (Inl e) | Inr _ \<Rightarrow> proc_then (await (item_save env it')) (\<lambda>saved.
      proc_then (await (cache_set_stock env cache (item_id saved) (stock_quantity saved))) (\<lambda>_. Finished (Inr saved)))) k)
      (b - 1) (Suc 3) s'" if "pending s' = []" for r s'
    using that stop saved by (simp add: proc_then_def settle_settle split: sum.split)
qed (use assms in \<open>auto intro: row_ranks settlingD [OF settling_change]\<close>)

lemma orderly_deduct:
  assumes "ending k" and "5 < b" and "n \<le> 3" and "pending s = []"
  shows "orderly (settle (deduct_steps env cache oid ord it) k) b n s"
  unfolding deduct_steps_def Let_def proc_then_def settle_settle
  by (rule orderly_write)
     (use assms endingD [OF assms(1)] orderly_transition_steps [OF assms(1)] in \<open>auto split: sum.split\<close>)

lemma orderly_lock_item:
  assumes "0 < b" and "\<And>r s'. pending s' = [] \<Longrightarrow> orderly (k r) (b - 1) 3 s'" and "pending s = []"
  shows "orderly (settle (await_on (item_row iid) (item_get_by_id_with_lock iid)) k) b 0 s"
  by (rule orderly_locking [where rank = 2]) (use assms in \<open>auto intro: row_ranks quietD\<close>)

lemma orderly_confirm:
  assumes "ending k" and "7 < b"
  shows "orderly (settle (confirm_proc env cache oid) k) b 0 fresh_session"
  unfolding confirm_proc_def
proof (rule orderly_read_order [OF assms(1)])
  fix ord :: order and s' :: session
  assume s': "pending s' = []"
  show "orderly (settle (confirm_steps env cache oid ord) k) (b - 1) 0 s'"
    unfolding confirm_steps_def proc_then_def settle_settle
    by (rule orderly_lock_item [OF _ _ s'])
       (use assms(2) endingD [OF assms(1)] orderly_reject [OF assms(1)] orderly_deduct [OF assms(1)]
         in \<open>simp_all split: sum.split option.split\<close>)
qed (use assms(2) in simp)

lemma orderly_cancel:
  assumes "ending k" and "7 < b"
  shows "orderly (settle (cancel_proc env cache oid) k) b 0 fresh_session"
  unfolding cancel_proc_def
proof (rule orderly_read_order [OF assms(1)])
  fix ord :: order and s' :: session
  assume s': "pending s' = []"
  let ?next = "transition_steps env oid (order_version ord) CANCELLED"
  have after: "orderly (settle (case r of Inl e \<Rightarrow> Finished (Inl e) | Inr _ \<Rightarrow> ?next) k) c n s2"
    if "2 < c" "n \<le> 4" "pending s2 = []" for r :: "exn + 'c" and c n s2
    using that endingD [OF assms(1)] orderly_transition_steps [OF assms(1)] by (simp split: sum.split)
  have restored: "orderly (settle (restore_steps env cache oid ord it)
      (\<lambda>r. settle (case r of Inl e \<Rightarrow> Finished (Inl e) | Inr _ \<Rightarrow> ?next) k)) c n s2"
    if "5 < c" "n \<le> 3" "pending s2 = []" for it c n s2
    unfolding restore_steps_def Let_def by (rule orderly_write) (use that in \<open>auto intro!: after\<close>)
  have "orderly (settle (proc_then (restore_proc env cache oid ord) (\<lambda>_. ?next)) k) (b - 1) 0 s'"
    unfolding restore_proc_def proc_then_def settle_settle
  proof (rule orderly_lock_item [OF _ _ s'])
    show "orderly (settle (case r of Inl e \<Rightarrow> Finished (Inl e) | Inr locked \<Rightarrow> (case locked of
        None \<Rightarrow> Finished (Inr ()) | Some item \<Rightarrow> settle (restore_steps env cache oid ord item)
          (\<lambda>r. case r of Inl e \<Rightarrow> Finished (Inl e) | Inr _ \<Rightarrow> Finished (Inr ()))))
        (\<lambda>r. settle (case r of Inl e \<Rightarrow> Finished (Inl e) | Inr a \<Rightarrow> ?next) k)) (b - 1 - 1) 3 s2"
      if "pending s2 = []" for r s2
    proof -
      have "orderly (settle ?next k) (b - 1 - 1) 3 s2" "orderly (k (Inl e)) (b - 1 - 1) 3 s2" for e
        using that assms(2) by (auto intro!: orderly_transition_steps [OF assms(1)] endingD [OF assms(1)])
      then show ?thesis
        using that restored [of "b - 1 - 1" 3 s2] assms(2)
        by (simp add: settle_settle settle_unit split: sum.split option.split)
    qed
  qed (use assms(2) in simp)
  moreover have "orderly (settle (proc_then (Finished (Inr ())) (\<lambda>_. ?next)) k) (b - 1) 0 s'"
    using s' assms(2) orderly_transition_steps [OF assms(1)] by (simp add: proc_then_def)
  ultimately show "orderly (settle (cancel_steps env cache oid ord) k) (b - 1) 0 s'"
    by (simp add: cancel_steps_def)
qed (use assms(2) in simp)

lemma orderly_adjust:
  assumes "ending k" and "4 < b"
  shows "orderly (settle (adjust_proc env cache iid delta why) k) b 0 fresh_session"
  unfolding adjust_proc_def proc_then_def settle_settle Let_def
proof (rule orderly_lock_item)
  have written: "orderly (settle (write_steps env cache it it' new) k) (b - 1) 3 s'"
    if "pending s' = []" for it it' new s'
    by (rule orderly_write) (use assms endingD [OF assms(1)] that in auto)
  show "orderly (settle (case r of Inl e \<Rightarrow> Finished (Inl e) | Inr found \<Rightarrow> (case found of
      None \<Rightarrow> Finished (Inl (NotFoundError ''MenuItem'' iid))
    | Some item \<Rightarrow> if stock_quantity item + delta < 0
        then Finished (Inl (InsufficientStockError iid \<bar>delta\<bar> (stock_quantity item)))
        else write_steps env cache item (item\<lparr>stock_quantity := stock_quantity item + delta,
              item_version := item_version item + 1\<rparr>)
           (stock_movement_init (item_id item) None ADJUSTMENT delta
              (stock_quantity item) (stock_quantity item + delta) (Some why)))) k) (b - 1) 3 s'"
    if "pending s' = []" for r s'
    using written that assms(2) endingD [OF assms(1)] by (simp split: sum.split option.split)
qed (use assms(2) in \<open>simp_all add: fresh_session_def\<close>)

lemma orderly_place:
  assumes "ending k" and "3 < b"
  shows "orderly (settle (place_proc env iid qty ref) k) b 0 fresh_session"
  unfolding place_proc_def proc_then_def settle_settle
proof (rule orderly_free)
  have shared: "orderly (settle (await_on (order_share drawn) (insert_order drawn)) k) (b - 2) 1 s'"
    if "pending s' = []" for drawn s'
    by (rule orderly_locking [where rank = 2])
       (use that assms endingD [OF assms(1)] in \<open>auto intro: row_ranks quietD\<close>)
  have created: "orderly (settle (await_on (order_key env) (draw_order env new)) (\<lambda>r. settle (case r of
      Inl e \<Rightarrow> Finished (Inl e) | Inr drawn \<Rightarrow> await_on (order_share drawn) (insert_order drawn)) k)) (b - 1) 0 s'"
    for new s'
    by (rule orderly_locking [where rank = 0])
       (use assms shared endingD [OF assms(1)] in \<open>auto simp: numeral_2_eq_2 intro: row_ranks intro!: settlingD split: sum.split\<close>)
  show "orderly (settle (case r of Inl e \<Rightarrow> Finished (Inl e) | Inr found \<Rightarrow> (case found of
      None \<Rightarrow> Finished (Inl (NotFoundError ''MenuItem'' iid))
    | Some item \<Rightarrow> settle (await_on (order_key env) (draw_order env (order_init iid qty (Some PENDING) ref)))
        (\<lambda>r. case r of Inl e \<Rightarrow> Finished (Inl e)
          | Inr drawn \<Rightarrow> await_on (order_share drawn) (insert_order drawn)))) k)
      (b - 1) 0 s'" if "pending s' = []" for r s'
    using created that assms(2) endingD [OF assms(1)] by (simp add: settle_settle split: sum.split option.split)
qed (use assms(2) in \<open>auto intro: quietD simp: fresh_session_def\<close>)

lemma orderly_first_movement:
  assumes "ending k" and "2 < b" and "n \<le> 3" and "pending s = []"
  shows "orderly (settle (first_movement_steps env cache it stock) k) b n s"
  unfolding first_movement_steps_def proc_then_def settle_settle
proof (rule orderly_locking [where rank = 3])
  show "orderly (settle (case r of Inl e \<Rightarrow> Finished (Inl e) | Inr _ \<Rightarrow>
      settle (await (cache_set_stock env cache (item_id it) (stock_quantity it)))
        (\<lambda>r. case r of Inl e \<Rightarrow> Finished (Inl e) | Inr _ \<Rightarrow> Finished (Inr it))) k) (b - 1) (Suc 3) s'"
    if "pending s' = []" for r s'
    using that assms(2) endingD [OF assms(1)]
    by (auto simp: settle_settle intro!: orderly_free quietD split: sum.split)
qed (use assms in \<open>auto intro: row_ranks intro!: settlingD\<close>)

lemma orderly_create:
  fixes k :: "exn + menu_item \<Rightarrow> ('r, 'b) proc"
  assumes "ending k" and "4 < b"
  shows "orderly (settle (create_proc env cache name price stock description threshold) k) b 0 fresh_session"
  unfolding create_proc_def proc_then_def settle_settle
proof (rule orderly_locking [where rank = 0])
  have "orderly (settle (await_on (\<lambda>w. Some (ItemName (item_name it))) (insert_item it)) (\<lambda>r. settle
      (case r of Inl e \<Rightarrow> Finished (Inl e) | Inr item \<Rightarrow> first_movement_steps env cache item stock) k))
      (b - 1) 1 s'" if "pending s' = []" for it s'
    by (rule orderly_locking [where rank = 1])
       (use that assms(2) orderly_first_movement [OF assms(1)] endingD [OF assms(1)]
         in \<open>auto intro: quietD split: sum.split\<close>)
  then show "orderly (settle (case r of Inl e \<Rightarrow> Finished (Inl e) | Inr drawn \<Rightarrow>
      settle (await_on (\<lambda>w. Some (ItemName (item_name drawn))) (insert_item drawn)) (\<lambda>r.
      case r of Inl e \<Rightarrow> Finished (Inl e) | Inr item \<Rightarrow> first_movement_steps env cache item stock)) k)
      (b - 1) (Suc 0) s'" if "pending s' = []" for r :: "exn + menu_item" and s'
    using that assms(2) endingD [OF assms(1)] by (simp add: settle_settle split: sum.split)
qed (use assms in \<open>auto intro: row_ranks settlingD\<close>)

text \<open>The stock read may end with an assignment: its commit then needs the row, its only lock.\<close>

lemma orderly_read_stock:
  assumes "\<And>r b s. 0 < b \<Longrightarrow> orderly (k r) b 0 s" and "3 < b"
  shows "orderly (settle (get_stock_proc cache iid) k) b 0 s"
proof -
  have free: "orderly (settle (await m) k') c 0 s"
    if "0 < c" "\<And>r s'. orderly (k' r) (c - 1) 0 s'" for m :: "('a, 'd) io" and k' :: "exn + 'd \<Rightarrow> ('a, 'b) proc" and c s
    unfolding await_def by (rule orderly_await [OF that(1)]) (simp add: next_floor_def that(2) [unfolded One_nat_def])
  show ?thesis
    unfolding get_stock_proc_def proc_then_def settle_settle
    using assms by (auto simp: settle_settle intro!: free split: sum.split option.split)
qed

text \<open>A process that only reads leaves the session of the request as it found it.\<close>

lemma orderly_reading:
  "reading p n \<Longrightarrow> n < b \<Longrightarrow> (\<And>r b. 0 < b \<Longrightarrow> orderly (k r) b 0 s) \<Longrightarrow> orderly (settle p k) b 0 s"
proof (induction p arbitrary: n b)
  case (Await l f)
  note r = readingD [OF Await.prems(1)]
  have "orderly (settle (fst (f w)) k) (b - 1) 0 s" for w
    by (rule Await.IH [of "f w", OF _ _ r(5) _ Await.prems(3)])
       (use r(1) Await.prems(2) in \<open>auto simp: prod_set_defs intro: fsts.intros\<close>)
  then show ?case using r Await.prems(2) by (simp add: case_prod_beta next_floor_def)
qed simp

lemma orderly_action:
  "ending k \<Longrightarrow> 7 < b \<Longrightarrow> orderly (settle (action_proc env cache a oid) k) b 0 fresh_session"
  using orderly_plain [of k b] orderly_confirm [of k b] orderly_cancel [of k b] by (cases a) simp_all

lemma orderly_request: "orderly (request_proc env q) 8 0 fresh_session"
proof -
  let ?k = "\<lambda>r. await_on pending_row (end_request env r)"
  have k: "ending ?k" by (rule ending_end)
  have any: "orderly (?k r) b 0 s" if "0 < b" for r :: "exn + body" and b s
    using that by (simp add: await_on_def case_prod_beta)
  show ?thesis
  proof (cases q)
    case (TransitionOrder oid a)
    then show ?thesis
      by (simp add: request_proc_def proc_then_def proc_mapped_def settle_settle)
         (intro orderly_action ending_via [OF k]; auto split: sum.split option.split)
  next
    case (AdjustStock iid b)
    then show ?thesis
      using any by (simp add: request_proc_def proc_body_def proc_then_def proc_mapped_def settle_settle)
         (intro impI orderly_adjust ending_via [OF k]; auto split: sum.split)
  next
    case (PlaceOrder b)
    then show ?thesis
      using any by (simp add: request_proc_def proc_body_def proc_then_def proc_mapped_def settle_settle)
         (intro impI orderly_place ending_via [OF k]; auto split: sum.split)
  next
    case (CreateItem b)
    then show ?thesis
      using any by (simp add: request_proc_def proc_body_def proc_then_def proc_mapped_def settle_settle)
         (intro impI orderly_create ending_via [OF k]; auto split: sum.split)
  next
    case (ReadStock iid)
    then show ?thesis
      by (simp add: request_proc_def proc_body_def proc_then_def proc_mapped_def settle_settle)
         (rule orderly_read_stock; auto intro: any split: sum.split)
  next
    case (Query rq)
    then show ?thesis
      using orderly_reading [OF reading_query, of 8 ?k fresh_session env rq] any by (simp add: request_proc_def)
  qed
qed

lemma orderly_start: "orderly_system (start t r n (map (request_proc env) qs)) (replicate (length qs) 8)"
proof -
  have "orderly_client (clients (start t r n (map (request_proc env) qs)) ! p) (replicate (length qs) 8 ! p) 0"
    if "p < length qs" for p
    using that orderly_request by (simp add: start_def orderly_client_def)
  then show ?thesis by (auto simp: orderly_system_def start_def)
qed

end
