(* ===== verification/Races.thy ===== *)
theory Races
  imports Stock_Transactions Lock_Order Item_Properties
begin

text \<open>
  Executions in which two requests meet: two transitions of the same order that have both read
  it before either of them writes, and a stock read whose cache answer has gone out of date
  when it reaches the row. The lemmas execute the schedules symbolically.
\<close>

section \<open>A transition after its read\<close>

fun action_steps ::
  "'r env \<Rightarrow> 'r cache_service \<Rightarrow> order_action \<Rightarrow> uuid \<Rightarrow> order \<Rightarrow> ('r, order option) proc" where
  "action_steps env cache ConfirmAction oid ord = confirm_steps env cache oid ord"
| "action_steps env cache ShipAction oid ord = transition_steps env oid (order_version ord) SHIPPED"
| "action_steps env cache DeliverAction oid ord = transition_steps env oid (order_version ord) DELIVERED"
| "action_steps env cache CancelAction oid ord = cancel_steps env cache oid ord"

lemma action_proc_read:
  "action_proc env cache a oid =
     proc_then (await (order_get_by_id oid)) (\<lambda>found.
     case found of
       None \<Rightarrow> Finished (Inl (NotFoundError ''Order'' oid))
     | Some ord \<Rightarrow>
         if \<not> can_transition_to (status ord) (action_target a)
         then Finished (Inl (InvalidTransitionError (status ord) (action_target a)))
         else action_steps env cache a oid ord)"
  by (cases a) (simp_all add: confirm_proc_def transition_proc_def cancel_proc_def cong: option.case_cong if_cong)

definition request_rest :: "'r env \<Rightarrow> order_action \<Rightarrow> uuid \<Rightarrow> order \<Rightarrow> ('r, body) proc" where
  "request_rest env a oid ord =
     settle (proc_then (proc_mapped transition_error (action_steps env (get_cache env) a oid ord)) (\<lambda>found.
         case found of None \<Rightarrow> Finished (Inl ResponseValidationError)
         | Some r \<Rightarrow> Finished (Inr (OrderBody (order_response r)))))
       (\<lambda>r. await_on pending_row (end_request env r))"

lemma request_rest_busy: "\<not> finished (request_rest env a oid ord)"
  unfolding request_rest_def proc_then_def settle_settle
  by (cases a) (simp_all add: confirm_steps_def cancel_steps_def transition_steps_def restore_proc_def
      proc_then_def proc_mapped_def settle_settle await_on_def)

lemma request_reads:
  assumes "find_order oid (db w) = Some ord" and "sess w = fresh_session"
    and "can_transition_to (status ord) (action_target a)"
  shows "\<exists>l f. request_proc env (TransitionOrder oid a) = Await l f \<and> l w = None \<and>
    f w = (request_rest env a oid ord, w)"
proof -
  have "order_get_by_id oid w = (Inr (Some ord), w)"
    by (rule wp_eqI) (simp add: assms wp_order_get_by_id view_nothing)
  then show ?thesis
    using assms(3)
    by (simp add: request_proc_def action_proc_read proc_then_def proc_mapped_def settle_settle await_def
        await_on_def request_rest_def)
qed

lemma run_rest_alone:
  assumes "find_order oid (db w) = Some ord" and "sess w = fresh_session"
    and "can_transition_to (status ord) (action_target a)"
  shows "run_alone (request_rest env a oid ord) w = get_db env (transition_router env a oid) w"
proof -
  from request_reads [OF assms, of env] obtain l f where
    f: "request_proc env (TransitionOrder oid a) = Await l f" "f w = (request_rest env a oid ord, w)" by blast
  have "open_session w = w" using assms(2) by (simp add: open_session_def)
  then show ?thesis
    using run_alone_request [of env "TransitionOrder oid a" w] f by simp
qed

lemma run_rest_error:
  assumes "run_alone (action_steps env (get_cache env) a oid ord) w = (Inl e, w')"
  shows "run_alone (request_rest env a oid ord) w = end_request env (Inl (transition_error e)) w'"
  using assms
  by (simp add: request_rest_def proc_then_def proc_mapped_def settle_settle run_alone_settle run_alone_await
      run_alone.simps(1))

lemma end_request_commits:
  assumes "committing r" and "\<not> broken (sess w)" and "pending (sess w) = []"
  shows "end_request env r w = (r, open_session (commit_view w))"
proof -
  have "wp (end_request env r) (\<lambda>r' w'. r' = r \<and> w' = open_session (commit_view w)) w"
    using assms
    by (cases r) (simp_all add: wp_end_request wp_rules wp_outcome committing_def set_pending_idem)
  then show ?thesis by (rule wp_eqI)
qed

section \<open>Two transitions of one order\<close>

definition waiting_client :: "('r, 'a) proc \<Rightarrow> ('r, 'a) client" where
  "waiting_client p = \<lparr>client_proc = p, client_session = fresh_session, client_held = {}\<rparr>"

lemma both_read:
  assumes "find_order oid t = Some ord" and "can_transition_to (status ord) (action_target a)"
  shows "run_schedule [0, 1] (start t rd n (map (request_proc env) [TransitionOrder oid a, TransitionOrder oid a])) = Some
    \<lparr>sys_db = t, sys_redis = rd, sys_calls = n,
     clients = [waiting_client (request_rest env a oid ord), waiting_client (request_rest env a oid ord)]\<rparr>"
    (is "run_schedule _ ?s = Some ?s2")
proof -
  let ?w = "\<lparr>db = t, sess = fresh_session, redis = rd, calls = n\<rparr>"
  from request_reads [of oid ?w ord a env] assms obtain l f where
    f: "request_proc env (TransitionOrder oid a) = Await l f" "l ?w = None" "f ?w = (request_rest env a oid ord, ?w)"
    by auto
  show ?thesis
    by (simp add: advance_def start_def f client_world_def stepped_def waiting_client_def request_rest_busy)
qed

lemma both_run:
  assumes "find_order oid t = Some ord" and "can_transition_to (status ord) (action_target a)"
    and first: "run_alone (request_rest env a oid ord) \<lparr>db = t, sess = fresh_session, redis = rd, calls = n\<rparr> = (r0, w0)"
    and second: "run_alone (request_rest env a oid ord) (w0\<lparr>sess := fresh_session\<rparr>) = (r1, w1)"
  shows "\<exists>s. reaches (start t rd n (map (request_proc env) [TransitionOrder oid a, TransitionOrder oid a])) s \<and>
    map answer_of (clients s) = [Some r0, Some r1] \<and> sys_db s = db w1"
proof -
  let ?P = "request_rest env a oid ord"
  let ?s2 = "\<lparr>sys_db = t, sys_redis = rd, sys_calls = n, clients = [waiting_client ?P, waiting_client ?P]\<rparr>"
  note busy = request_rest_busy [of env a oid ord]
  define s3 where "s3 = ended 0 r0 w0 ?s2"
  have 1: "reaches ?s2 s3" unfolding s3_def
  proof (rule runs_to_end)
    show "client_held (clients ?s2 ! q) = {}" if "q < length (clients ?s2)" "q \<noteq> 0" for q
      using that by (simp add: less_Suc_eq waiting_client_def)
    show "run_alone (client_proc (clients ?s2 ! 0)) (client_world ?s2 (clients ?s2 ! 0)) = (r0, w0)"
      using first by (simp add: waiting_client_def client_world_def)
  qed (use busy in \<open>simp_all add: waiting_client_def\<close>)
  have c: "clients s3 = [\<lparr>client_proc = Finished r0, client_session = sess w0, client_held = {}\<rparr>, waiting_client ?P]"
    by (simp add: s3_def ended_def)
  have w: "client_world s3 (waiting_client ?P) = w0\<lparr>sess := fresh_session\<rparr>"
    by (simp add: s3_def client_world_def ended_def waiting_client_def)
  have 2: "reaches s3 (ended 1 r1 w1 s3)"
  proof (rule runs_to_end)
    show "client_held (clients s3 ! q) = {}" if "q < length (clients s3)" "q \<noteq> 1" for q
      using that by (simp add: c less_Suc_eq)
    show "run_alone (client_proc (clients s3 ! 1)) (client_world s3 (clients s3 ! 1)) = (r1, w1)"
      using second w by (simp add: c) (simp add: waiting_client_def)
  qed (use busy in \<open>simp_all add: c waiting_client_def\<close>)
  have "map answer_of (clients (ended 1 r1 w1 s3)) = [Some r0, Some r1]"
    by (simp add: ended_def answer_of_def c)
  moreover have "sys_db (ended 1 r1 w1 s3) = db w1" by (simp add: ended_def)
  ultimately show ?thesis
    by (intro exI [of _ "ended 1 r1 w1 s3"] conjI reaches_trans [OF 2 reaches_trans [OF 1 run_schedule_reaches [OF both_read [OF assms(1,2)]]]])
qed

text \<open>
  The second one finds the order changed when it updates it; what it did to the stock before
  is committed with the conflict.
\<close>

lemma conflict_commits:
  assumes steps: "run_alone (action_steps env (get_cache env) a oid ord) w =
      (Inl (ConflictError ''Order'' oid), tick (stock_changed env (get_cache env) it d new w))"
    and w: "sess w = fresh_session" and it: "find_item (item_id it) (db w) = Some it"
    and new: "\<And>mid created. records_change it d (Some oid) kind (new mid created)"
  shows "\<exists>w'. run_alone (request_rest env a oid ord) w =
      (Inl (HTTPException 409 (exn_message (ConflictError ''Order'' oid))), w') \<and>
    stock_of (db w') (item_id it) = Some (stock_quantity it + d) \<and>
    order_trail oid (db w') = order_trail oid (db w) @ [(kind, d)] \<and>
    find_order oid (db w') = find_order oid (db w)"
proof -
  let ?v = "tick (stock_changed env (get_cache env) it d new w)"
  have "end_request env (Inl (transition_error (ConflictError ''Order'' oid))) ?v =
      (Inl (transition_error (ConflictError ''Order'' oid)), open_session (commit_view ?v))"
    by (rule end_request_commits) (simp_all add: committing_def w)
  with run_rest_error [OF steps] have "run_alone (request_rest env a oid ord) w =
      (Inl (HTTPException 409 (exn_message (ConflictError ''Order'' oid))), open_session (commit_view ?v))"
    by simp
  moreover have "view w = db w" using w by (simp add: view_nothing)
  ultimately show ?thesis
    using new it by (simp add: view_stock_changed table_simps stock_of_change records_change_def)
qed

lemma run_write_steps: "run_alone (write_steps env cache it it' new) = stock_write_cached env cache it it' new"
  by (simp add: write_steps_def stock_write_cached_def stock_write_def run_alone_simps and_then_assoc)

lemma run_change_then_status:
  assumes it: "find_item (item_id it) (db w) = Some it" and w: "sess w = fresh_session"
    and fault: "change_fault env it d new w = None"
    and gone: "find_order oid (db w) = Some r" "order_version r \<noteq> v"
  shows "and_then (stock_write_cached env cache it (changed_item it d) new)
      (\<lambda>_. run_alone (transition_steps env oid v st)) w =
    (Inl (ConflictError ''Order'' oid), tick (stock_changed env cache it d new w))"
proof -
  have v: "view w = db w" using w by (simp add: view_nothing)
  show ?thesis
    unfolding run_alone_simps transition_steps_def
    by (rule wp_eqI)
       (use assms v in \<open>simp add: wp_and_then wp_stock_write_cached wp_done_with wp_transition_status wp_raise_exn
          wp_if cong: sum.case_cong\<close>)
qed

lemma stale_confirm:
  assumes it: "find_item (order_item_id ord) (db w) = Some it" and w: "sess w = fresh_session"
    and fault: "change_fault env it (- quantity ord) (deduction oid ord it) w = None"
    and gone: "find_order oid (db w) = Some r" "order_version r \<noteq> order_version ord"
    and ord: "order_id ord = oid" and enough: "quantity ord \<le> stock_quantity it"
  shows "run_alone (action_steps env cache ConfirmAction oid ord) w =
    (Inl (ConflictError ''Order'' oid), tick (stock_changed env cache it (- quantity ord) (deduction oid ord it) w))"
proof -
  have i: "find_item (item_id it) (db w) = Some it" using it found_item_id by metis
  have "item_get_by_id_with_lock (order_item_id ord) w = (Inr (Some it), w)"
    by (rule wp_eqI) (simp add: wp_item_get_by_id w it view_nothing)
  then show ?thesis
    using run_change_then_status [OF i w fault gone, where st = CONFIRMED and cache = cache] enough
    by (simp add: confirm_steps_def run_alone_then run_alone_await and_then_def deduct_steps_change [OF ord]
        deduction_def run_write_steps)
qed

lemma stale_cancel:
  assumes it: "find_item (order_item_id ord) (db w) = Some it" and w: "sess w = fresh_session"
    and fault: "change_fault env it (quantity ord) (restoration oid ord it) w = None"
    and gone: "find_order oid (db w) = Some r" "order_version r \<noteq> order_version ord"
    and ord: "order_id ord = oid" and held: "status ord \<in> stock_holding_states"
  shows "run_alone (action_steps env cache CancelAction oid ord) w =
    (Inl (ConflictError ''Order'' oid), tick (stock_changed env cache it (quantity ord) (restoration oid ord it) w))"
proof -
  have i: "find_item (item_id it) (db w) = Some it" using it found_item_id by metis
  have "item_get_by_id_with_lock (order_item_id ord) w = (Inr (Some it), w)"
    by (rule wp_eqI) (simp add: wp_item_get_by_id w it view_nothing)
  then show ?thesis
    using run_change_then_status [OF i w fault gone, where st = CANCELLED and cache = cache] held
    by (simp add: cancel_steps_def restore_proc_def run_alone_then run_alone_await run_alone_finished and_then_def
        done_with_def restore_steps_change [OF ord] restoration_def run_write_steps split: prod.splits sum.splits)
qed

section \<open>A stock read overtaken by a write\<close>

definition stock_read_rest :: "'r env \<Rightarrow> uuid \<Rightarrow> int option \<Rightarrow> ('r, body) proc" where
  "stock_read_rest env iid q =
     settle (proc_body (StockBody \<circ> stock_response) (proc_mapped not_found_error
       (proc_then (await (item_get_by_id iid)) (\<lambda>found.
        case found of
          None \<Rightarrow> Finished (Inl (NotFoundError ''MenuItem'' iid))
        | Some item \<Rightarrow>
            (case q of
               None \<Rightarrow> Finished (Inr item)
             | Some n \<Rightarrow>
                 proc_then (await (session_modify item (item\<lparr>stock_quantity := n\<rparr>))) (\<lambda>_.
                 Finished (Inr (item\<lparr>stock_quantity := n\<rparr>))))))))
       (\<lambda>r. await_on pending_row (end_request env r))"

lemma stock_read_starts:
  "\<exists>l f. request_proc env (ReadStock iid) = Await l f \<and> l w = None \<and>
    f w = (stock_read_rest env iid (cached (get_cache env) iid (redis w)),
           w\<lparr>redis := after_get (get_cache env) iid (redis w)\<rparr>)"
proof -
  have "cache_get_stock (get_cache env) iid w =
      (Inr (cached (get_cache env) iid (redis w)), w\<lparr>redis := after_get (get_cache env) iid (redis w)\<rparr>)"
    by (rule wp_eqI) (simp add: wp_cache_get_stock)
  then show ?thesis
    by (simp add: request_proc_def get_stock_proc_def stock_read_rest_def proc_body_def proc_then_def
        proc_mapped_def settle_settle await_def await_on_def)
qed

lemma stock_read_rest_busy: "\<not> finished (stock_read_rest env iid q)"
  by (simp add: stock_read_rest_def proc_body_def proc_then_def proc_mapped_def settle_settle await_def await_on_def)

text \<open>The rest of the read writes the quantity that the cache had answered.\<close>

lemma stock_read_writes:
  assumes it: "find_item iid (db w) = Some it" and w: "sess w = fresh_session"
    and q: "q \<noteq> stock_quantity it" "item_types_ok (it\<lparr>stock_quantity := q\<rparr>)" "item_checks_ok (it\<lparr>stock_quantity := q\<rparr>)"
  shows "\<exists>w'. run_alone (stock_read_rest env iid (Some q)) w =
      (Inr (StockBody (stock_response (it\<lparr>stock_quantity := q\<rparr>))), w') \<and>
    db w' = apply_statement (UpdateItem iid (Some q) None (env_utc_now env (calls w))) (db w)"
proof -
  let ?it' = "it\<lparr>stock_quantity := q\<rparr>"
  let ?v = "set_pending [patch_of it ?it'] w"
  let ?u = "UpdateItem iid (Some q) None (env_utc_now env (calls w))"
  have i: "item_id it = iid" using it by (rule found_item_id)
  have p: "patch_id (patch_of it ?it') = iid" "patch_stock (patch_of it ?it') = Some q"
    "patch_version (patch_of it ?it') = None"
    using i q(1) by (simp_all add: patch_of_def)
  have f: "statement_fault (db w) ?u = None"
    using it q(2,3) by (simp add: statement_fault.simps Let_def item_types_ok_def item_checks_ok_def set_item_columns_def)
  have read: "item_get_by_id iid w = (Inr (Some it), w)"
    by (rule wp_eqI) (simp add: wp_item_get_by_id it w view_nothing)
  have assign: "session_modify it ?it' w = (Inr (), ?v)"
    by (rule wp_eqI) (simp add: wp_session_modify w)
  have "wp (end_request env (Inr (StockBody (stock_response ?it')))) (\<lambda>r w'.
      r = Inr (StockBody (stock_response ?it')) \<and> db w' = apply_statement ?u (db w)) ?v"
    using f p w by (simp add: wp_end_request wp_rules wp_outcome wp_flush_Cons wp_flush_Nil view_nothing)
  moreover have "run_alone (stock_read_rest env iid (Some q)) w =
      end_request env (Inr (StockBody (stock_response ?it'))) ?v"
    by (simp add: stock_read_rest_def proc_body_def proc_then_def proc_mapped_def settle_settle run_alone_settle
        run_alone_await run_alone.simps(1) read assign)
  ultimately show ?thesis by (auto simp: wp_def split: prod.splits)
qed

end
