(* ===== verification/Concurrent_Properties.thy ===== *)
theory Concurrent_Properties
  imports Races
begin

text \<open>
  The properties of requests that run at the same time: what every interleaving keeps, that
  none deadlocks, and three interleavings whose outcome no serial order has.
\<close>

section \<open>What every interleaving keeps\<close>

text \<open>
  The orders that two of the requests act on, the items whose stock is read through the cache,
  and the rows that are left to one request each.
\<close>

definition contested_orders :: "client_request list \<Rightarrow> uuid set" where
  "contested_orders qs =
     {oid. \<exists>p < length qs. \<exists>q < length qs. p \<noteq> q \<and> acts_on (qs ! p) oid \<and> acts_on (qs ! q) oid}"

definition cached_reads :: "'r env \<Rightarrow> client_request list \<Rightarrow> uuid set" where
  "cached_reads env qs = {i. \<exists>q \<in> set qs. reads_through_cache env q i}"

definition contested_rows :: "'r env \<Rightarrow> client_request list \<Rightarrow> row_lock set" where
  "contested_rows env qs = OrderRow ` contested_orders qs \<union> ItemRow ` cached_reads env qs"

definition claimed_rows :: "client_request list \<Rightarrow> nat \<Rightarrow> row_lock set" where
  "claimed_rows qs p =
     {OrderRow oid | oid. p < length qs \<and> acts_on (qs ! p) oid \<and> oid \<notin> contested_orders qs}"

lemma contested_rows_iff [simp]:
  "OrderRow oid \<in> contested_rows env qs \<longleftrightarrow> oid \<in> contested_orders qs"
  "ItemRow i \<in> contested_rows env qs \<longleftrightarrow> i \<in> cached_reads env qs"
  by (auto simp: contested_rows_def)

lemma claimed_shared_out: "shop.shared_out (contested_rows env qs) (claimed_rows qs)"
  unfolding shop.shared_out_def
  by (auto simp: claimed_rows_def reserved_rows_def) (auto simp: contested_orders_def)

lemma safe_requests:
  assumes "audit_ok t"
  shows "shop.safe (contested_rows env qs) (claimed_rows qs) (start t r n (map (request_proc env) qs))"
proof -
  have "audited_but (contested_rows env qs) t"
    using audited_but_mono [of "{}" _ t] assms by (simp add: audited_but_empty)
  moreover have "i \<in> cached_reads env qs" if "p < length qs" "reads_through_cache env (qs ! p) i" for p i
    using that nth_mem [OF that(1)] unfolding cached_reads_def by blast
  ultimately show ?thesis
    by (intro shop.safe_start) (auto intro!: robust_request simp: claimed_rows_def)
qed

lemma interleaving_audited:
  assumes "audit_ok t" and "reaches (start t r n (map (request_proc env) qs)) s"
  shows "audited_but (contested_rows env qs) (sys_db s)" and "evolves t (sys_db s)"
  using shop.safe_reaches [OF assms(2) safe_requests [OF assms(1)] claimed_shared_out]
  by (auto simp: shop.safe_def start_def dest: undisturbedD(1))

text \<open>
  C7. However the requests of the service interleave, at every moment of every run the
  committed tables satisfy the schema and have only evolved; the movements of every item whose
  stock no request reads through the cache replay to its stock; and the trail of every order
  that no two of the requests act on matches its status.
\<close>

theorem interleavings_keep_ledger:
  assumes "audit_ok t" and "reaches (start t r n (map (request_proc env) qs)) s"
  shows "schema_ok (sys_db s) \<and> evolves t (sys_db s) \<and>
    (\<forall>x \<in> set (menu_items (sys_db s)). item_id x \<notin> cached_reads env qs \<longrightarrow>
      replay 0 (item_movements (item_id x) (sys_db s)) = Some (stock_quantity x)) \<and>
    (\<forall>x \<in> set (order_rows (sys_db s)). order_id x \<notin> contested_orders qs \<longrightarrow>
      trail_for (status x) (quantity x) (order_version x) (order_trail (order_id x) (sys_db s)))"
  using interleaving_audited [OF assms] by (auto simp: audited_but_def ledger_but_def trail_but_def)

definition sample_requests :: "client_request list" where
  "sample_requests =
     [TransitionOrder 5 ConfirmAction, AdjustStock 1 \<lparr>sa_delta = 3, sa_reason = ''found''\<rparr>,
      PlaceOrder \<lparr>oc_item_id = 1, oc_quantity = 2, oc_customer_ref = None\<rparr>,
      CreateItem (item_create_body ''Salad'' None (Dec 5 0) 7 (Some 2)), ReadStock 9, Query (ReadOrder 5)]"

lemma contested_sample: "contested_orders sample_requests = {}"
  by (auto simp: contested_orders_def sample_requests_def less_Suc_eq)

lemma cached_sample: "cached_reads sample_env sample_requests = {9}"
  by (auto simp: cached_reads_def sample_requests_def)

abbreviation sample_start :: "client_request list \<Rightarrow> (string \<rightharpoonup> string, body) system" where
  "sample_start qs \<equiv> start (sample_tables 4) Map.empty 0 (map (request_proc sample_env) qs)"

lemma sample_finishes:
  obtains s where "reaches (sample_start qs) s" and "all_finished s"
  using can_finish [OF orderly_start [of "sample_tables 4" Map.empty 0 sample_env qs]] that by (elim exE conjE)

lemma sample_item_stays:
  assumes "reaches (sample_start qs) s"
  obtains it where "find_item 1 (sys_db s) = Some it"
proof -
  have "evolves (sample_tables 4) (sys_db s)"
    using interleaving_audited(2) [OF _ assms] audit_ok_sample [of 4] by simp
  from evolves_find(1) [OF this, of 1] that show ?thesis by auto
qed

theorem interleavings_keep_ledger_witness:
  "\<exists>s it. reaches (sample_start sample_requests) s \<and> all_finished s \<and> it \<in> set (menu_items (sys_db s)) \<and>
     item_id it = 1 \<and> replay 0 (item_movements 1 (sys_db s)) = Some (stock_quantity it)"
proof -
  obtain s where s: "reaches (sample_start sample_requests) s" "all_finished s"
    by (rule sample_finishes)
  obtain it where "find_item 1 (sys_db s) = Some it" by (rule sample_item_stays [OF s(1)])
  then have "it \<in> set (menu_items (sys_db s))" "item_id it = 1"
    using item_table.fetch_in item_table.fetch_key by blast+
  with interleavings_keep_ledger [OF _ s(1)] s audit_ok_sample [of 4] show ?thesis
    by (intro exI [of _ s] exI [of _ it]) (auto simp: cached_sample)
qed

text \<open>
  C8. No overselling: if no order is acted on twice, then at every moment of every
  interleaving no stock is negative and every trail matches its order; the stock of every item
  that no request reads through the cache and the quantities its orders hold add up to what
  its adjustments brought in; and the full audit holds if there is no such read at all.
\<close>

theorem interleavings_conserve_stock:
  assumes "audit_ok t" and "contested_orders qs = {}"
    and "reaches (start t r n (map (request_proc env) qs)) s"
  shows "trail_ok (sys_db s) \<and> (cached_reads env qs = {} \<longrightarrow> audit_ok (sys_db s)) \<and>
    (\<forall>i it. find_item i (sys_db s) = Some it \<longrightarrow> 0 \<le> stock_quantity it \<and>
      (i \<notin> cached_reads env qs \<longrightarrow>
        stock_quantity it + held_quantity i (sys_db s) = adjusted_quantity i (sys_db s)))"
proof -
  have a: "schema_ok (sys_db s)" "ledger_but (contested_rows env qs) (sys_db s)" "trail_but (contested_rows env qs) (sys_db s)"
    using interleaving_audited(1) [OF assms(1,3)] by (simp_all add: audited_but_def)
  then have trail: "trail_ok (sys_db s)" using assms(2) by (simp add: trail_but_def trail_ok_def)
  have "ledger_ok (sys_db s)" if "cached_reads env qs = {}"
    using a(2) that by (simp add: ledger_but_def ledger_ok_def)
  moreover have "0 \<le> stock_quantity it" if "find_item i (sys_db s) = Some it" for i it
    using schema_ok_item [OF a(1) that] by (simp add: item_checks_ok_def)
  moreover have "stock_quantity it + held_quantity i (sys_db s) = adjusted_quantity i (sys_db s)"
    if "find_item i (sys_db s) = Some it" "i \<notin> cached_reads env qs" for i it
    using that by (intro item_balance [OF a(1) trail] ledger_but_find [OF a(2)]) simp_all
  ultimately show ?thesis using a(1) trail by (simp add: audit_ok_def)
qed

theorem interleavings_conserve_stock_witness:
  "\<exists>s it. reaches (sample_start sample_requests) s \<and> all_finished s \<and> find_item 1 (sys_db s) = Some it \<and>
     stock_quantity it + held_quantity 1 (sys_db s) = adjusted_quantity 1 (sys_db s)"
proof -
  obtain s where s: "reaches (sample_start sample_requests) s" "all_finished s"
    by (rule sample_finishes)
  obtain it where "find_item 1 (sys_db s) = Some it" by (rule sample_item_stays [OF s(1)])
  with s interleavings_conserve_stock [OF _ contested_sample s(1)] audit_ok_sample [of 4] show ?thesis
    by (intro exI [of _ s] exI [of _ it]) (simp add: cached_sample)
qed

text \<open>
  C10. No deadlock: from every system that is reached, all requests can be finished. The locks
  of the rows that are read for update, updated or referred to by a foreign key and those of
  the unique indexes are all taken in one order.
\<close>

theorem interleavings_can_finish:
  assumes "reaches (start t r n (map (request_proc env) qs)) s"
  shows "\<exists>s'. reaches s s' \<and> all_finished s'"
proof -
  obtain ps where "run_schedule ps (start t r n (map (request_proc env) qs)) = Some s"
    using assms reaches_iff_schedule by blast
  from schedule_bound [OF this orderly_start] show ?thesis using can_finish by blast
qed

theorem interleavings_can_finish_witness:
  "\<exists>s s'. run_schedule [0, 1] (sample_start [TransitionOrder 5 ConfirmAction, TransitionOrder 5 ConfirmAction]) = Some s \<and>
     \<not> all_finished s \<and> reaches s s' \<and> all_finished s'"
proof -
  obtain s where s: "run_schedule [0, 1]
      (sample_start [TransitionOrder 5 ConfirmAction, TransitionOrder 5 ConfirmAction]) = Some s" "\<not> all_finished s"
    using both_read [of 5 "sample_tables 4" "sample_order 4" ConfirmAction Map.empty 0 sample_env]
    by (auto simp: all_finished_def waiting_client_def request_rest_busy)
  from interleavings_can_finish [OF run_schedule_reaches [OF this(1)]] s show ?thesis by blast
qed

section \<open>Two transitions of one order at the same time\<close>

lemma conflict_after:
  assumes "find_order oid t = Some r" and "can_transition_to (status r) (action_target a)"
    and first: "get_db env (transition_router env a oid) \<lparr>db = t, sess = fresh_session, redis = rd, calls = n\<rparr> = (r0, w0)"
    and steps: "run_alone (action_steps env (get_cache env) a oid r) (w0\<lparr>sess := fresh_session\<rparr>) =
      (Inl (ConflictError ''Order'' oid), tick (stock_changed env (get_cache env) it d new (w0\<lparr>sess := fresh_session\<rparr>)))"
    and it: "find_item (item_id it) (db w0) = Some it"
    and new: "\<And>mid created. records_change it d (Some oid) kind (new mid created)"
  shows "\<exists>s. reaches (start t rd n (map (request_proc env) [TransitionOrder oid a, TransitionOrder oid a])) s \<and>
    map answer_of (clients s) =
      [Some r0, Some (Inl (HTTPException 409 (exn_message (ConflictError ''Order'' oid))))] \<and>
    stock_of (sys_db s) (item_id it) = Some (stock_quantity it + d) \<and>
    order_trail oid (sys_db s) = order_trail oid (db w0) @ [(kind, d)] \<and>
    find_order oid (sys_db s) = find_order oid (db w0)"
proof -
  let ?v = "w0\<lparr>sess := fresh_session\<rparr>"
  have w0: "run_alone (request_rest env a oid r) \<lparr>db = t, sess = fresh_session, redis = rd, calls = n\<rparr> = (r0, w0)"
    using run_rest_alone [of oid _ r a env] assms(1-3) by simp
  obtain w1 where w1: "run_alone (request_rest env a oid r) ?v =
      (Inl (HTTPException 409 (exn_message (ConflictError ''Order'' oid))), w1)"
      "stock_of (db w1) (item_id it) = Some (stock_quantity it + d)"
      "order_trail oid (db w1) = order_trail oid (db w0) @ [(kind, d)]"
      "find_order oid (db w1) = find_order oid (db w0)"
    using conflict_commits [OF steps _ _ new] it by auto
  obtain s where "reaches (start t rd n (map (request_proc env) [TransitionOrder oid a, TransitionOrder oid a])) s"
      "map answer_of (clients s) = [Some r0, Some (Inl (HTTPException 409 (exn_message (ConflictError ''Order'' oid))))]"
      "sys_db s = db w1"
    using both_run [OF assms(1,2) w0 w1(1)] by (elim exE conjE)
  then show ?thesis using w1 by (intro exI [of _ s]) simp
qed

lemma trail_for_unique: "trail_for st q v tr \<Longrightarrow> trail_for st q v tr' \<Longrightarrow> tr = tr'"
  by (cases st) auto

lemma audited_trail_unique:
  assumes "audit_ok t" and "find_order oid t = Some r" and "audit_ok t'" and "find_order oid t' = Some r"
  shows "order_trail oid t = order_trail oid t'"
  using assms by (intro trail_for_unique [OF trail_ok_find trail_ok_find]) (simp_all add: audit_ok_def)

lemma order_changes:
  assumes "order_id r = oid"
  shows "records_change i (- quantity r) (Some oid) DEDUCTION (deduction oid r i mid created)"
    and "records_change i (quantity r) (Some oid) RESTORATION (restoration oid r i mid created)"
    and "mv_id (deduction oid r i mid created) = mid" and "mv_id (restoration oid r i mid created) = mid"
  using assms
  by (simp_all add: deduction_def restoration_def change_record_def stock_movement_init_def records_change_def)

text \<open>
  The first transition is what it is when alone. The second repeats the change of stock on the
  row that the first has left, and finds the version of the order changed.
\<close>

lemma conflict_doubles:
  assumes "find_order oid t = Some r" and "can_transition_to (status r) (action_target a)"
    and "find_item (order_item_id r) t = Some it"
    and first: "get_db env (transition_router env a oid) \<lparr>db = t, sess = fresh_session, redis = rd, calls = n\<rparr> = (r0, w0)"
    and moved: "order_moved t (db w0) oid r st r'" "stock_change_recorded t (db w0) it d (Some oid) kind"
      "audit_ok (db w0)"
    and fits: "0 \<le> stock_quantity it + 2 * d" "stock_quantity it + 2 * d < 2 ^ 31" "item_version it + 2 < 2 ^ 31"
    and fresh: "env_uuid4 env (Suc (calls w0)) \<notin> mv_id ` set (stock_movements (db w0))"
    and new: "\<And>i mid created. records_change i d (Some oid) kind (new i mid created)"
      "\<And>i mid created. mv_id (new i mid created) = mid"
    and stale: "\<And>i v. find_item (order_item_id r) (db v) = Some i \<Longrightarrow> sess v = fresh_session \<Longrightarrow>
        change_fault env i d (new i) v = None \<Longrightarrow> find_order oid (db v) = Some r' \<Longrightarrow>
        order_version r' \<noteq> order_version r \<Longrightarrow> stock_quantity i = stock_quantity it + d \<Longrightarrow>
        run_alone (action_steps env (get_cache env) a oid r) v =
          (Inl (ConflictError ''Order'' oid), tick (stock_changed env (get_cache env) i d (new i) v))"
  shows "\<exists>s. reaches (start t rd n (map (request_proc env) [TransitionOrder oid a, TransitionOrder oid a])) s \<and>
    map answer_of (clients s) =
      [Some r0, Some (Inl (HTTPException 409 (exn_message (ConflictError ''Order'' oid))))] \<and>
    stock_of (sys_db s) (order_item_id r) = Some (stock_quantity it + 2 * d) \<and>
    order_trail oid (sys_db s) = order_trail oid t @ [(kind, d), (kind, d)] \<and> \<not> audit_ok (sys_db s)"
proof -
  let ?v = "w0\<lparr>sess := fresh_session\<rparr>"
  have i: "item_id it = order_item_id r" using assms(3) by (rule found_item_id)
  from moved(1) have r': "find_order oid (db w0) = Some r'" "order_version r' \<noteq> order_version r"
    by (simp_all add: order_moved_def)
  obtain it' where it': "find_item (order_item_id r) (db w0) = Some it'"
      "stock_quantity it' = stock_quantity it + d" "item_version it' = item_version it + 1"
    using stock_change_recordedD(2) [OF moved(2)] i by auto
  have i': "item_id it' = order_item_id r" using it'(1) by (rule found_item_id)
  have "change_fault env it' d (new it') ?v = None"
    by (rule change_accepted [OF _ _ _ _ _ new(2,1)])
       (use moved(3) fits fresh it' i' r'(1) in \<open>simp_all add: view_nothing audit_okD(1)\<close>)
  then have "run_alone (action_steps env (get_cache env) a oid r) ?v =
      (Inl (ConflictError ''Order'' oid), tick (stock_changed env (get_cache env) it' d (new it') ?v))"
    using it' r' by (intro stale) simp_all
  from conflict_after [OF assms(1,2) first this _ new(1)] it'(1) i' obtain s where s:
    "reaches (start t rd n (map (request_proc env) [TransitionOrder oid a, TransitionOrder oid a])) s"
    "map answer_of (clients s) = [Some r0, Some (Inl (HTTPException 409 (exn_message (ConflictError ''Order'' oid))))]"
    "stock_of (sys_db s) (item_id it') = Some (stock_quantity it' + d)"
    "order_trail oid (sys_db s) = order_trail oid (db w0) @ [(kind, d)]"
    "find_order oid (sys_db s) = Some r'"
    using r'(1) by auto
  have "order_trail oid (db w0) = order_trail oid t @ [(kind, d)]"
    using moved(2) by (auto simp: stock_change_recorded_def order_trail_def records_change_def)
  moreover have "\<not> audit_ok (sys_db s)"
    using audited_trail_unique [OF moved(3) r'(1) _ s(5)] s(4) by auto
  ultimately show ?thesis using s i' it'(2) by (intro exI [of _ s]) simp
qed

text \<open>
  C15. A lost race for a confirmation keeps its deduction: two clients confirm the same pending
  order, both read it before either writes, and the stock is enough for both. One is answered the confirmed order, the other
  409, but \<open>get_db\<close> commits on the HTTP error what the second had already written. The stock
  is down by twice the quantity, the order has two deductions, and the audit fails.
\<close>

theorem concurrent_confirms_deduct_twice:
  assumes "audit_ok t" and "find_order oid t = Some r" and "status r = PENDING"
    and "find_item (order_item_id r) t = Some it" and "2 * quantity r \<le> stock_quantity it"
    and "item_version it + 2 < 2 ^ 31"
    and "env_uuid4 env (Suc n) \<notin> mv_id ` set (stock_movements t)"
    and "env_uuid4 env (n + 5) \<notin> insert (env_uuid4 env (Suc n)) (mv_id ` set (stock_movements t))"
  shows "\<exists>s r'. reaches (start t rd n (map (request_proc env)
      [TransitionOrder oid ConfirmAction, TransitionOrder oid ConfirmAction])) s \<and>
    map answer_of (clients s) = [Some (Inr (OrderBody (order_response r'))),
      Some (Inl (HTTPException 409 (exn_message (ConflictError ''Order'' oid))))] \<and> status r' = CONFIRMED \<and>
    stock_of (sys_db s) (order_item_id r) = Some (stock_quantity it - 2 * quantity r) \<and>
    order_trail oid (sys_db s) = [(DEDUCTION, - quantity r), (DEDUCTION, - quantity r)] \<and> \<not> audit_ok (sys_db s)"
proof -
  let ?w = "\<lparr>db = t, sess = fresh_session, redis = rd, calls = n\<rparr>"
  have q: "0 < quantity r" "stock_quantity it < 2 ^ 31" "order_trail oid t = []" "order_id r = oid"
    by (rule audit_find [OF assms(1,2)]; use assms(3,4) in simp)+
  obtain r0 w0 where first: "get_db env (transition_router env ConfirmAction oid) ?w = (r0, w0)"
    by (rule prod.exhaust)
  obtain r' where one: "r0 = Inr (OrderBody (order_response r'))" "order_moved t (db w0) oid r CONFIRMED r'"
      "stock_change_recorded t (db w0) it (- quantity r) (Some oid) DEDUCTION" "audit_ok (db w0)" "calls w0 = n + 4"
      "mv_id ` set (stock_movements (db w0)) = mv_id ` set (stock_movements t) \<union> {env_uuid4 env (Suc n)}"
    using confirm_commits [OF _ _ assms(3) _ _ _ _ first, of it] assms q by auto
  have "\<exists>s. reaches (start t rd n (map (request_proc env)
      [TransitionOrder oid ConfirmAction, TransitionOrder oid ConfirmAction])) s \<and>
    map answer_of (clients s) =
      [Some r0, Some (Inl (HTTPException 409 (exn_message (ConflictError ''Order'' oid))))] \<and>
    stock_of (sys_db s) (order_item_id r) = Some (stock_quantity it + 2 * - quantity r) \<and>
    order_trail oid (sys_db s) = order_trail oid t @ [(DEDUCTION, - quantity r), (DEDUCTION, - quantity r)] \<and>
    \<not> audit_ok (sys_db s)"
  proof (rule conflict_doubles [OF assms(2) _ assms(4) first one(2,3,4), where new = "deduction oid r"])
    have "Suc (calls w0) = n + 5" using one(5) by simp
    then show "env_uuid4 env (Suc (calls w0)) \<notin> mv_id ` set (stock_movements (db w0))"
      using assms(8) one(6) by (simp only: Un_insert_right Un_empty_right not_False_eq_True)
    fix i v
    assume "find_item (order_item_id r) (db v) = Some i" "sess v = fresh_session"
      "change_fault env i (- quantity r) (deduction oid r i) v = None" "find_order oid (db v) = Some r'"
      "order_version r' \<noteq> order_version r" "stock_quantity i = stock_quantity it + - quantity r"
    then show "run_alone (action_steps env (get_cache env) ConfirmAction oid r) v =
        (Inl (ConflictError ''Order'' oid), tick (stock_changed env (get_cache env) i (- quantity r) (deduction oid r i) v))"
      by (intro stale_confirm) (use q(4) assms(5) in simp_all)
  qed (use assms(3,5,6) q in \<open>simp_all add: order_changes\<close>)
  moreover have "status r' = CONFIRMED" using one(2) by (simp add: order_moved_def)
  ultimately show ?thesis
    unfolding one(1) q(3) append.simps mult_minus_right add_uminus_conv_diff by (elim exE conjE) (intro exI conjI, assumption+)
qed

theorem concurrent_confirms_deduct_twice_witness:
  "\<exists>s. reaches (sample_start [TransitionOrder 5 ConfirmAction, TransitionOrder 5 ConfirmAction]) s \<and>
     stock_of (sys_db s) 1 = Some 2 \<and> \<not> audit_ok (sys_db s)"
  using concurrent_confirms_deduct_twice [of "sample_tables 4" 5 "sample_order 4" sample_item sample_env 0 Map.empty]
    audit_ok_sample [of 4] by auto

text \<open>
  The same on cancellation: of two clients that cancel the same confirmed or shipped order
  at the same time, one is answered the cancelled order and the other 409, and the stock is
  given back twice: a unit that was never brought in can be sold.
\<close>

theorem concurrent_cancels_restore_twice:
  assumes "audit_ok t" and "find_order oid t = Some r" and "status r = CONFIRMED \<or> status r = SHIPPED"
    and "find_item (order_item_id r) t = Some it" and "stock_quantity it + 2 * quantity r < 2 ^ 31"
    and "item_version it + 2 < 2 ^ 31"
    and "env_uuid4 env (Suc n) \<notin> mv_id ` set (stock_movements t)"
    and "env_uuid4 env (n + 5) \<notin> insert (env_uuid4 env (Suc n)) (mv_id ` set (stock_movements t))"
  shows "\<exists>s r'. reaches (start t rd n (map (request_proc env)
      [TransitionOrder oid CancelAction, TransitionOrder oid CancelAction])) s \<and>
    map answer_of (clients s) = [Some (Inr (OrderBody (order_response r'))),
      Some (Inl (HTTPException 409 (exn_message (ConflictError ''Order'' oid))))] \<and> status r' = CANCELLED \<and>
    stock_of (sys_db s) (order_item_id r) = Some (stock_quantity it + 2 * quantity r) \<and>
    order_trail oid (sys_db s) =
      [(DEDUCTION, - quantity r), (RESTORATION, quantity r), (RESTORATION, quantity r)] \<and> \<not> audit_ok (sys_db s)"
proof -
  let ?w = "\<lparr>db = t, sess = fresh_session, redis = rd, calls = n\<rparr>"
  have q: "0 < quantity r" "0 \<le> stock_quantity it" "order_trail oid t = [(DEDUCTION, - quantity r)]" "order_id r = oid"
    by (rule audit_find [OF assms(1,2)]; use assms(3,4) in auto)+
  obtain r0 w0 where first: "get_db env (transition_router env CancelAction oid) ?w = (r0, w0)"
    by (rule prod.exhaust)
  obtain r' where one: "r0 = Inr (OrderBody (order_response r'))" "order_moved t (db w0) oid r CANCELLED r'"
      "stock_change_recorded t (db w0) it (quantity r) (Some oid) RESTORATION" "audit_ok (db w0)" "calls w0 = n + 4"
      "mv_id ` set (stock_movements (db w0)) = mv_id ` set (stock_movements t) \<union> {env_uuid4 env (Suc n)}"
    using cancel_commits [OF _ _ assms(3) _ _ _ _ first, of it] assms q by auto
  have "\<exists>s. reaches (start t rd n (map (request_proc env)
      [TransitionOrder oid CancelAction, TransitionOrder oid CancelAction])) s \<and>
    map answer_of (clients s) =
      [Some r0, Some (Inl (HTTPException 409 (exn_message (ConflictError ''Order'' oid))))] \<and>
    stock_of (sys_db s) (order_item_id r) = Some (stock_quantity it + 2 * quantity r) \<and>
    order_trail oid (sys_db s) = order_trail oid t @ [(RESTORATION, quantity r), (RESTORATION, quantity r)] \<and>
    \<not> audit_ok (sys_db s)"
  proof (rule conflict_doubles [OF assms(2) _ assms(4) first one(2,3,4), where new = "restoration oid r"])
    have "Suc (calls w0) = n + 5" using one(5) by simp
    then show "env_uuid4 env (Suc (calls w0)) \<notin> mv_id ` set (stock_movements (db w0))"
      using assms(8) one(6) by (simp only: Un_insert_right Un_empty_right not_False_eq_True)
    fix i v
    assume "find_item (order_item_id r) (db v) = Some i" "sess v = fresh_session"
      "change_fault env i (quantity r) (restoration oid r i) v = None" "find_order oid (db v) = Some r'"
      "order_version r' \<noteq> order_version r" "stock_quantity i = stock_quantity it + quantity r"
    then show "run_alone (action_steps env (get_cache env) CancelAction oid r) v =
        (Inl (ConflictError ''Order'' oid), tick (stock_changed env (get_cache env) i (quantity r) (restoration oid r i) v))"
      by (intro stale_cancel) (use q(4) assms(3) in \<open>auto simp: stock_holding_states_def\<close>)
  qed (use assms(3,5,6) q in \<open>auto simp: order_changes\<close>)
  moreover have "status r' = CANCELLED" using one(2) by (simp add: order_moved_def)
  ultimately show ?thesis
    unfolding one(1) q(3) append.simps by (elim exE conjE) (intro exI conjI, assumption+)
qed

theorem concurrent_cancels_restore_twice_witness:
  "\<exists>s. reaches (start (db confirmed_world) Map.empty 0 (map (request_proc sample_env)
       [TransitionOrder 5 CancelAction, TransitionOrder 5 CancelAction])) s \<and>
     stock_of (sys_db s) 1 = Some 14 \<and> \<not> audit_ok (sys_db s)"
  using concurrent_cancels_restore_twice [of "db confirmed_world" 5 confirmed_order confirmed_item sample_env 0 Map.empty]
    audit_ok_confirmed by auto

section \<open>A stock read during an adjustment\<close>

lemma settle_busy: "(\<And>r. \<not> finished (k r)) \<Longrightarrow> \<not> finished (settle p k)"
  by (cases p) simp_all

lemma request_busy: "\<not> finished (request_proc env q)"
  unfolding request_proc_def by (rule settle_busy) (simp add: await_on_def)

lemma overtaken_read:
  assumes "cached (get_cache env) iid rd = Some c"
    and other: "get_db env (handler env True (request_endpoint q)) \<lparr>db = t, sess = fresh_session,
        redis = after_get (get_cache env) iid rd, calls = n\<rparr> = (r1, w1)"
    and rest: "run_alone (stock_read_rest env iid (Some c)) (w1\<lparr>sess := fresh_session\<rparr>) = (r0, w0)"
  shows "\<exists>s. reaches (start t rd n (map (request_proc env) [ReadStock iid, q])) s \<and>
    map answer_of (clients s) = [Some r0, Some r1] \<and> sys_db s = db w0"
proof -
  let ?s = "start t rd n (map (request_proc env) [ReadStock iid, q])"
  let ?w = "\<lparr>db = t, sess = fresh_session, redis = rd, calls = n\<rparr>"
  let ?R = "stock_read_rest env iid (Some c)"
  obtain l f where f: "request_proc env (ReadStock iid) = Await l f" "l ?w = None"
      "f ?w = (?R, ?w\<lparr>redis := after_get (get_cache env) iid rd\<rparr>)"
    using stock_read_starts [of env iid ?w] assms(1) by auto
  let ?s1 = "\<lparr>sys_db = t, sys_redis = after_get (get_cache env) iid rd, sys_calls = n,
      clients = [waiting_client ?R, waiting_client (request_proc env q)]\<rparr>"
  have 1: "reaches ?s ?s1"
    by (rule run_schedule_reaches [where ps = "[0]"])
       (simp add: advance_def start_def f client_world_def stepped_def waiting_client_def stock_read_rest_busy)
  define s2 where "s2 = ended 1 r1 w1 ?s1"
  have 2: "reaches ?s1 s2" unfolding s2_def
  proof (rule runs_to_end)
    show "client_held (clients ?s1 ! p) = {}" if "p < length (clients ?s1)" "p \<noteq> 1" for p
      using that by (simp add: less_Suc_eq waiting_client_def)
    let ?v = "\<lparr>db = t, sess = fresh_session, redis = after_get (get_cache env) iid rd, calls = n\<rparr>"
    have "open_session ?v = ?v" by (simp add: open_session_def)
    then have "run_alone (request_proc env q) ?v = (r1, w1)"
      using run_alone_request [of env q ?v] other by (simp only:)
    then show "run_alone (client_proc (clients ?s1 ! 1)) (client_world ?s1 (clients ?s1 ! 1)) = (r1, w1)"
      by (simp add: waiting_client_def client_world_def)
  qed (simp_all add: waiting_client_def request_busy)
  have c: "clients s2 = [waiting_client ?R, \<lparr>client_proc = Finished r1, client_session = sess w1, client_held = {}\<rparr>]"
    by (simp add: s2_def ended_def)
  have w: "client_world s2 (waiting_client ?R) = w1\<lparr>sess := fresh_session\<rparr>"
    by (simp add: s2_def client_world_def ended_def waiting_client_def)
  have 3: "reaches s2 (ended 0 r0 w0 s2)"
  proof (rule runs_to_end)
    show "client_held (clients s2 ! p) = {}" if "p < length (clients s2)" "p \<noteq> 0" for p
      using that by (simp add: c less_Suc_eq)
    show "run_alone (client_proc (clients s2 ! 0)) (client_world s2 (clients s2 ! 0)) = (r0, w0)"
      using rest w by (simp add: c) (simp add: waiting_client_def)
  qed (simp_all add: c waiting_client_def stock_read_rest_busy)
  show ?thesis
    by (intro exI [of _ "ended 0 r0 w0 s2"] conjI reaches_trans [OF 3 reaches_trans [OF 2 1]])
       (simp_all add: ended_def answer_of_def c)
qed

text \<open>
  C16. A stock read can undo an adjustment that has been answered: the read takes the quantity
  from a cache that agrees with the database, the adjustment then runs from start to end,
  and the read assigns the old quantity to the row and commits it. Both are answered with
  success; the stock is back at the old quantity, the movement of the adjustment stays, and
  the ledger does not replay to the stock any more.
\<close>

theorem stock_read_undoes_adjustment:
  assumes "audit_ok t" and "find_item iid t = Some it" and "cached (get_cache env) iid rd = Some (stock_quantity it)"
    and "item_stock_adjust_valid b" and "sa_delta b \<noteq> 0"
    and "0 \<le> stock_quantity it + sa_delta b" and "stock_quantity it + sa_delta b < 2 ^ 31"
    and "item_version it + 1 < 2 ^ 31" and "env_uuid4 env (Suc n) \<notin> mv_id ` set (stock_movements t)"
  shows "\<exists>s it' it0. reaches (start t rd n (map (request_proc env) [ReadStock iid, AdjustStock iid b])) s \<and>
    map answer_of (clients s) =
      [Some (Inr (StockBody (stock_response it0))), Some (Inr (ItemBody (item_response it')))] \<and>
    stock_quantity it' = stock_quantity it + sa_delta b \<and> stock_of (sys_db s) iid = Some (stock_quantity it) \<and>
    quantity_delta (last (stock_movements (sys_db s))) = sa_delta b \<and> \<not> ledger_ok (sys_db s)"
proof -
  let ?w = "\<lparr>db = t, sess = fresh_session, redis = after_get (get_cache env) iid rd, calls = n\<rparr>"
  have i: "item_id it = iid" using assms(2) by (rule found_item_id)
  obtain r1 w1 where adj: "get_db env (api_adjust_stock env iid b) ?w = (r1, w1)" by (rule prod.exhaust)
  obtain it' where it': "r1 = Inr (ItemBody (item_response it'))" "stock_quantity it' = stock_quantity it + sa_delta b"
    and rec: "stock_change_recorded t (db w1) it (sa_delta b) None ADJUSTMENT"
    using adjust_commits [OF _ _ assms(4) _ _ assms(8) _ adj] assms by auto
  obtain now m where row: "find_item iid (db w1) = Some ((changed_item it (sa_delta b))\<lparr>item_updated_at := now\<rparr>)"
    and m: "stock_movements (db w1) = stock_movements t @ [m]" "records_change it (sa_delta b) None ADJUSTMENT m"
    using rec i by (auto simp: stock_change_recorded_def)
  let ?row = "(changed_item it (sa_delta b))\<lparr>item_updated_at := now\<rparr>"
  let ?old = "?row\<lparr>stock_quantity := stock_quantity it\<rparr>"
  have "item_types_ok it \<and> item_checks_ok it"
    using assms(1,2) by (intro schema_ok_item) (simp_all add: audit_ok_def)
  then have old: "stock_quantity it \<noteq> stock_quantity ?row" "item_types_ok ?old" "item_checks_ok ?old"
    using assms(5,8)
    by (simp_all add: changed_item_def item_types_ok_def item_checks_ok_def int4_def abs_less_iff)
  obtain w0 where w0: "run_alone (stock_read_rest env iid (Some (stock_quantity it))) (w1\<lparr>sess := fresh_session\<rparr>) =
      (Inr (StockBody (stock_response ?old)), w0)"
      "db w0 = apply_statement (UpdateItem iid (Some (stock_quantity it)) None (env_utc_now env (calls w1))) (db w1)"
    using stock_read_writes [of iid "w1\<lparr>sess := fresh_session\<rparr>" ?row, OF _ _ old] row by auto
  obtain s where s: "reaches (start t rd n (map (request_proc env) [ReadStock iid, AdjustStock iid b])) s"
      "map answer_of (clients s) = [Some (Inr (StockBody (stock_response ?old))), Some r1]" "sys_db s = db w0"
    using overtaken_read [OF assms(3) _ w0(1), of "AdjustStock iid b" t n r1] adj by auto
  have stock: "stock_of (db w0) iid = Some (stock_quantity it)"
    using row by (simp add: w0(2) stock_of_def table_simps set_item_columns_def)
  have "stock_movements (db w0) = stock_movements t @ [m]" by (simp add: w0(2) table_simps m(1))
  moreover have "\<not> ledger_ok (db w0)"
  proof
    assume ok: "ledger_ok (db w0)"
    obtain z where z: "find_item iid (db w0) = Some z" "stock_quantity z = stock_quantity it"
      using stock by (auto simp: stock_of_def)
    have "item_movements iid (db w0) = item_movements iid t @ [m]"
      using m i by (simp add: w0(2) table_simps item_movements_def records_change_def)
    with replay_sum [OF ledger_ok_find [OF ok z(1)]] replay_sum [OF ledger_ok_find [OF _ assms(2)]]
    show False using assms(1,5) m(2) z(2) by (simp add: audit_ok_def records_change_def sum_rows_def)
  qed
  ultimately show ?thesis using s it' stock m(2)
    by (intro exI [of _ s] exI [of _ it'] exI [of _ ?old]) (simp add: records_change_def)
qed

theorem stock_read_undoes_adjustment_witness:
  "\<exists>s. reaches (start (sample_tables 4) [cache_key_stock 1 \<mapsto> py_str_int 10] 0 (map (request_proc sample_env)
       [ReadStock 1, AdjustStock 1 \<lparr>sa_delta = - 4, sa_reason = ''lost''\<rparr>])) s \<and>
     stock_of (sys_db s) 1 = Some 10 \<and> \<not> ledger_ok (sys_db s)"
proof -
  have "cached (get_cache sample_env) 1 [cache_key_stock 1 \<mapsto> py_str_int 10] = Some 10"
    using py_int_str_roundtrip [of 10] by (simp add: cached_def map_client_def)
  with stock_read_undoes_adjustment [of "sample_tables 4" 1 sample_item sample_env "[cache_key_stock 1 \<mapsto> py_str_int 10]"
      "\<lparr>sa_delta = - 4, sa_reason = ''lost''\<rparr>" 0] audit_ok_sample [of 4]
  show ?thesis by (auto simp: item_stock_adjust_valid_def)
qed

end
