(* ===== verification/Linear_System.thy ===== *)
theory Linear_System
  imports Concurrent_System
begin

text \<open>
  Linearization: what a run of the system means to its users. Each request takes effect at one
  of its calls, where what is visible of the tables changes by the step that a specification
  allows it there, with the reply it will give; all its other calls change nothing visible.
  \<open>linear\<close> is that property of one request, under the interference of the others, and every run
  of such requests is a serial order of their steps.
\<close>

section \<open>Serial orders\<close>

text \<open>
  Requests one after the other, each with its reply; every step is taken at one of the given
  moments: a count of the numbers drawn, the tables committed and the cache then.
\<close>

inductive serial_order ::
  "(tables \<Rightarrow> 'v) \<Rightarrow> ('q \<Rightarrow> nat \<Rightarrow> tables \<Rightarrow> 'c \<Rightarrow> 'v \<Rightarrow> bool) \<Rightarrow> (nat \<times> tables \<times> 'r) set \<Rightarrow>
     'v \<Rightarrow> ('q \<times> 'c) list \<Rightarrow> 'v \<Rightarrow> bool"
  for visible :: "tables \<Rightarrow> 'v" and step :: "'q \<Rightarrow> nat \<Rightarrow> tables \<Rightarrow> 'c \<Rightarrow> 'v \<Rightarrow> bool"
    and M :: "(nat \<times> tables \<times> 'r) set" and v :: 'v
where
  nobody_yet: "serial_order visible step M v [] v"
| next_one: "serial_order visible step M v qs (visible t) \<Longrightarrow> (n, t, r) \<in> M \<Longrightarrow>
    step q n t c v' \<Longrightarrow> serial_order visible step M v (qs @ [(q, c)]) v'"

text \<open>The moments of a run: the systems between its first and its last.\<close>

definition moment_of :: "('r, 'a) system \<Rightarrow> nat \<times> tables \<times> 'r" where
  "moment_of s = (sys_calls s, sys_db s, sys_redis s)"

definition run_moments :: "('r, 'a) system \<Rightarrow> ('r, 'a) system \<Rightarrow> (nat \<times> tables \<times> 'r) set" where
  "run_moments s s' = {moment_of m | m. reaches s m \<and> reaches m s'}"

lemma run_moments_step:
  assumes "reaches s s'" and "advance p s' = Some s''"
  shows "run_moments s s' \<subseteq> run_moments s s''" and "moment_of s' \<in> run_moments s s''"
  using assms by (auto simp: run_moments_def intro: reaches.intros)

text \<open>A coarser look at the replies.\<close>

lemma serial_order_map:
  assumes "serial_order visible step M v H v'" and "\<And>q n t c s. step q n t c s \<Longrightarrow> step' q n t (f c) s"
  shows "serial_order visible step' M v (map (\<lambda>(q, c). (q, f c)) H) v'"
  using assms by (induction) (auto intro: serial_order.intros)

lemma reaches_length: "reaches s s' \<Longrightarrow> length (clients s') = length (clients s)"
  by (induction rule: reaches.induct) (auto elim: advance_cases)

section \<open>One request\<close>

locale linearization = interference good undisturbed reserved
  for good :: "tables \<Rightarrow> bool" and undisturbed :: "row_lock set \<Rightarrow> tables \<Rightarrow> tables \<Rightarrow> bool"
    and reserved :: "row_lock set" +
  fixes visible :: "tables \<Rightarrow> 'v"
begin

text \<open>
  A call keeps what is visible, or is the one that takes effect. The moments \<open>M\<close> at which the
  request may run are those of the whole run.
\<close>

definition takes ::
  "(nat \<Rightarrow> tables \<Rightarrow> 'c \<Rightarrow> 'v \<Rightarrow> bool) \<Rightarrow> nat \<Rightarrow> tables \<Rightarrow> 'c option \<Rightarrow> tables \<Rightarrow> 'c option \<Rightarrow> bool" where
  "takes step n t c t' c' \<longleftrightarrow>
     c' = c \<and> visible t' = visible t \<or> (\<exists>x. c = None \<and> c' = Some x \<and> step n t x (visible t'))"

primrec linear ::
  "(nat \<times> tables \<times> 'r) set \<Rightarrow> (nat \<Rightarrow> tables \<Rightarrow> 'c \<Rightarrow> 'v \<Rightarrow> bool) \<Rightarrow> (exn + 'a \<Rightarrow> 'c) \<Rightarrow> ('r, 'a) proc \<Rightarrow>
     row_lock set \<Rightarrow> session \<Rightarrow> tables \<Rightarrow> 'c option \<Rightarrow> bool" where
  "linear M step code (Finished r) = (\<lambda>own s t c. c = Some (code r))"
| "linear M step code (Await l f) = (\<lambda>own s t c.
     \<forall>w. sess w = s \<longrightarrow> good (db w) \<longrightarrow> undisturbed own t (db w) \<longrightarrow> (calls w, db w, redis w) \<in> M \<longrightarrow>
       (\<exists>c'. takes step (calls w) (db w) c (db (snd (f w))) c' \<and>
         (case map_prod (linear M step code) id (f w) of (g, w') \<Rightarrow> g (own \<union> lock_set (l w)) (sess w') (db w') c')))"

lemma linear_undisturbed:
  "linear M step code p own s t c \<Longrightarrow> undisturbed own t t' \<Longrightarrow> linear M step code p own s t' c"
  by (cases p) (auto intro: undisturbed_trans)

lemma linearD:
  assumes "linear M step code (Await l f) own (sess w) (db w) c" and "good (db w)"
    and "(calls w, db w, redis w) \<in> M"
  obtains c' where "takes step (calls w) (db w) c (db (snd (f w))) c'"
    and "linear M step code (fst (f w)) (own \<union> lock_set (l w)) (sess (snd (f w))) (db (snd (f w))) c'"
  using assms undisturbed_refl by (auto simp: case_prod_beta)

lemma linear_await:
  assumes "\<And>w. sess w = s \<Longrightarrow> good (db w) \<Longrightarrow> undisturbed own t (db w) \<Longrightarrow>
      (calls w, db w, redis w) \<in> M \<Longrightarrow> wp m (\<lambda>r w'. \<exists>c'. takes step (calls w) (db w) c (db w') c' \<and>
              linear M step code (k r) (own \<union> lock_set (l w)) (sess w') (db w') c') w"
  shows "linear M step code (settle (await_on l m) k) own s t c"
  using assms by (simp add: await_on_def wp_def case_prod_beta)

text \<open>A call that leaves the tables alone, before the request takes effect or after; one that decides the code.\<close>

lemma linear_call:
  assumes "\<And>w. sess w = s \<Longrightarrow> good (db w) \<Longrightarrow> undisturbed own t (db w) \<Longrightarrow>
      (calls w, db w, redis w) \<in> M \<Longrightarrow> wp m (\<lambda>r w'. db w' = db w \<and>
        (linear M step code (k r) (own \<union> lock_set (l w)) (sess w') (db w) c \<or>
         c = None \<and> (\<exists>x. step (calls w) (db w) x (visible (db w)) \<and>
           linear M step code (k r) (own \<union> lock_set (l w)) (sess w') (db w) (Some x)))) w"
  shows "linear M step code (settle (await_on l m) k) own s t c"
proof (rule linear_await)
  fix w :: "'a world"
  assume w: "sess w = s" "good (db w)" "undisturbed own t (db w)" "(calls w, db w, redis w) \<in> M"
  from assms [OF w] show "wp m (\<lambda>r w'. \<exists>c'. takes step (calls w) (db w) c (db w') c' \<and>
      linear M step code (k r) (own \<union> lock_set (l w)) (sess w') (db w') c') w"
    by (rule wp_mono) (auto simp: takes_def)
qed

section \<open>All requests\<close>

text \<open>The invariant of a run: the requests that have taken effect so far, in order.\<close>

definition ordered ::
  "(nat \<Rightarrow> row_lock set) \<Rightarrow> (nat \<Rightarrow> nat \<Rightarrow> tables \<Rightarrow> 'c \<Rightarrow> 'v \<Rightarrow> bool) \<Rightarrow> (nat \<Rightarrow> exn + 'a \<Rightarrow> 'c) \<Rightarrow>
     (nat \<times> tables \<times> 'r) set \<Rightarrow> 'v \<Rightarrow> (nat \<times> 'c) list \<Rightarrow> ('r, 'a) system \<Rightarrow> bool" where
  "ordered base step code M v H s \<longleftrightarrow>
     safe base s \<and> distinct (map fst H) \<and> fst ` set H \<subseteq> {..<length (clients s)} \<and>
     serial_order visible step M v H (visible (sys_db s)) \<and>
     (\<forall>p < length (clients s).
        linear M (step p) (code p) (client_proc (clients s ! p)) (held_rows (clients s ! p) \<union> base p)
          (client_session (clients s ! p)) (sys_db s) (map_of H p))"

lemma orderedD:
  assumes "ordered base step code M v H s"
  shows "safe base s" "distinct (map fst H)" "fst ` set H \<subseteq> {..<length (clients s)}"
    "serial_order visible step M v H (visible (sys_db s))"
    "p < length (clients s) \<Longrightarrow> linear M (step p) (code p) (client_proc (clients s ! p))
        (held_rows (clients s ! p) \<union> base p) (client_session (clients s ! p)) (sys_db s) (map_of H p)"
  using assms by (simp_all add: ordered_def)

lemma takes_order:
  assumes "takes (step p) n t (map_of H p) t' c'" and "serial_order visible step M v H (visible t)"
    and "(n, t, r) \<in> M" and "distinct (map fst H)" and "fst ` set H \<subseteq> P" and "p \<in> P"
  obtains H' where "serial_order visible step M v H' (visible t')" and "distinct (map fst H')"
    and "fst ` set H' \<subseteq> P" and "map_of H' p = c'" and "\<And>q. q \<noteq> p \<Longrightarrow> map_of H' q = map_of H q"
proof (cases "c' = map_of H p \<and> visible t' = visible t")
  case True
  with assms that [of H] show thesis by simp
next
  case False
  then obtain x where x: "map_of H p = None" "c' = Some x" "step p n t x (visible t')"
    using assms(1) by (auto simp: takes_def)
  have "p \<notin> fst ` set H" using x(1) by (simp add: map_of_eq_None_iff)
  with x assms show thesis
    by (intro that [of "H @ [(p, x)]"]) (auto intro: next_one simp: map_add_def split: option.split)
qed

lemma ordered_step:
  assumes o: "ordered base step code M v H s" and base: "shared_out base" and adv: "advance p s = Some s'"
    and M: "moment_of s \<in> M"
  shows "\<exists>H'. ordered base step code M v H' s'"
proof -
  from adv obtain l f where p: "p < length (clients s)" "client_proc (clients s ! p) = Await l f"
    and s': "s' = stepped p (l (client_world s (clients s ! p))) (f (client_world s (clients s ! p))) s"
    by (rule advance_cases)
  define w where "w = client_world s (clients s ! p)"
  define own where "own = held_rows (clients s ! p) \<union> base p"
  note d = orderedD [OF o]
  have s'': "s' = stepped p (l w) (f w) s" by (simp add: s' w_def)
  have "linear M (step p) (code p) (Await l f) own (sess w) (db w) (map_of H p)"
    using d(5) [OF p(1)] p(2) by (simp add: w_def own_def)
  then obtain c' where c: "takes (step p) (calls w) (db w) (map_of H p) (db (snd (f w))) c'"
    and lin: "linear M (step p) (code p) (fst (f w)) (own \<union> lock_set (l w)) (sess (snd (f w))) (db (snd (f w))) c'"
    by (rule linearD) (use safeD(1) [OF d(1) p(1)] M in \<open>simp_all add: w_def moment_of_def\<close>)
  obtain H' where H': "serial_order visible step M v H' (visible (db (snd (f w))))" "distinct (map fst H')"
    "fst ` set H' \<subseteq> {..<length (clients s)}" "map_of H' p = c'" "\<And>q. q \<noteq> p \<Longrightarrow> map_of H' q = map_of H q"
    by (rule takes_order [where step = step and p = p and M = M and v = v and H = H and P = "{..<length (clients s)}"
        and r = "redis w", OF c])
       (use d(2-4) M p(1) in \<open>simp_all add: w_def moment_of_def\<close>)
  have "linear M (step q) (code q) (client_proc (clients s' ! q)) (held_rows (clients s' ! q) \<union> base q)
      (client_session (clients s' ! q)) (sys_db s') (map_of H' q)" if q: "q < length (clients s)" for q
  proof (cases "q = p")
    case True
    have me: "client_proc (clients s' ! p) = fst (f w)" "client_session (clients s' ! p) = sess (snd (f w))"
        "sys_db s' = db (snd (f w))"
      by (simp_all add: s'' stepped_client [OF p(1)])
    have "held_rows (clients s ! p) \<union> lock_set (l w) \<union> base p = own \<union> lock_set (l w)" by (auto simp: own_def)
    with True lin H'(4) stepped_rows [OF p(1), of "l w" "f w"] show ?thesis
      by (cases "fst (f w)") (simp_all add: me, simp_all add: s'')
  next
    case False
    then show ?thesis
      using linear_undisturbed [OF d(5) [OF q] safe_keeps [OF d(1) base adv q False]] H'(5) [OF False]
      by (simp add: s'')
  qed
  with H' safe_step [OF d(1) base adv] show ?thesis by (auto simp: ordered_def s'')
qed

lemma ordered_reaches:
  assumes "reaches s s'" and "ordered base step code M v H s" and "shared_out base" and "run_moments s s' \<subseteq> M"
  shows "\<exists>H'. ordered base step code M v H' s'"
  using assms(1,2,4)
proof (induction)
  case (reaches_refl s)
  then show ?case by blast
next
  case (reaches_step s s' p s'')
  note step = run_moments_step [OF reaches_step.hyps]
  have "run_moments s s' \<subseteq> M" "moment_of s' \<in> M" using step reaches_step.prems(2) by blast+
  with reaches_step.IH [OF reaches_step.prems(1)] show ?case
    using ordered_step [OF _ assms(3) reaches_step.hyps(2)] by blast
qed

lemma ordered_finished:
  assumes "ordered base step code M v H s" and "p < length (clients s)" and "client_proc (clients s ! p) = Finished r"
  shows "map_of H p = Some (code p r)"
  using orderedD(5) [OF assms(1,2)] assms(3) by simp

lemma ordered_start:
  assumes "safe base (start t r n ps)"
    and "\<And>p. p < length ps \<Longrightarrow> linear M (step p) (code p) (ps ! p) (base p) fresh_session t None"
  shows "ordered base step code M (visible t) [] (start t r n ps)"
  using assms by (simp add: ordered_def start_def held_rows_def nobody_yet)

text \<open>When all requests are finished, they are in a serial order, with the replies they have given.\<close>

lemma run_linearizes:
  assumes run: "reaches (start t r n ps) s" and base: "shared_out base" and safe: "safe base (start t r n ps)"
    and M: "M = run_moments (start t r n ps) s"
    and lin: "\<And>p. p < length ps \<Longrightarrow> linear M (step p) (code p) (ps ! p) (base p) fresh_session t None"
    and fin: "\<And>p. p < length (clients s) \<Longrightarrow> finished (client_proc (clients s ! p))"
  shows "\<exists>H. distinct (map fst H) \<and> fst ` set H = {..<length (clients s)} \<and>
    serial_order visible step M (visible t) H (visible (sys_db s)) \<and>
    (\<forall>(p, c) \<in> set H. map_option (code p) (answer_of (clients s ! p)) = Some c)"
proof -
  have "ordered base step code M (visible t) [] (start t r n ps)"
    by (rule ordered_start [OF safe lin])
  from ordered_reaches [OF run this base] obtain H
    where H: "ordered base step code M (visible t) H s" using M by blast
  have ended: "\<exists>x. client_proc (clients s ! p) = Finished x \<and> map_of H p = Some (code p x)"
    if "p < length (clients s)" for p
    using fin [OF that] ordered_finished [OF H that] by (cases "client_proc (clients s ! p)") simp_all
  have "fst ` set H = {..<length (clients s)}"
  proof
    show "{..<length (clients s)} \<subseteq> fst ` set H"
      using ended map_of_eq_None_iff by (metis lessThan_iff option.distinct(1) subsetI)
  qed (rule orderedD(3) [OF H])
  moreover have "map_option (code p) (answer_of (clients s ! p)) = Some c" if "(p, c) \<in> set H" for p c
  proof -
    have "p < length (clients s)" using that orderedD(3) [OF H] by force
    moreover have "map_of H p = Some c" using that orderedD(2) [OF H] by (simp add: map_of_eq_Some_iff)
    ultimately show ?thesis using ended by (fastforce simp: answer_of_def)
  qed
  ultimately show ?thesis using orderedD(2,4) [OF H] by blast
qed

end

end
