(* ===== verification/Linear_Requests.thy ===== *)
theory Linear_Requests
  imports Linear_System Stock_Transactions Inventory_Handlers
begin

text \<open>
  The requests of the service take effect as the steps of the abstract inventory, whatever runs
  between their calls: an answer of not found or not allowed at the call that reads the row, a
  refused statement at the call that sends it, every other change and its answer at the commit.
  The orders in \<open>C\<close> may be acted on by several requests. One that finds the order moved on takes
  effect as a conflict, which keeps the change of the stock that the order allowed when it was
  read. The items in \<open>C\<close> may be read through the cache. Such a read takes effect as a write of
  the quantity that it answers.
\<close>

section \<open>What an answer tells\<close>

text \<open>
  The part of a response that is about the inventory: stocks of items, or item, quantity and
  status of orders.
\<close>

datatype told =
    NothingTold
  | StockTold "uuid \<rightharpoonup> int"
  | OrdersTold "uuid \<rightharpoonup> uuid \<times> int \<times> order_status"

fun told_of :: "body \<Rightarrow> told" where
  "told_of (ItemBody x) = StockTold [ir_id x \<mapsto> ir_stock_quantity x]"
| "told_of (ItemsBody xs) = StockTold (map_of (map (\<lambda>x. (ir_id x, ir_stock_quantity x)) xs))"
| "told_of (StockBody x) = StockTold [sr_item_id x \<mapsto> sr_stock_quantity x]"
| "told_of (AlertsBody xs) = StockTold (map_of (map (\<lambda>x. (la_id x, la_stock_quantity x)) xs))"
| "told_of (OrderBody x) = OrdersTold [or_id x \<mapsto> (or_item_id x, or_quantity x, or_status x)]"
| "told_of (OrdersBody xs) = OrdersTold (map_of (map (\<lambda>x. (or_id x, or_item_id x, or_quantity x, or_status x)) xs))"
| "told_of (OrderDetailBody x) = OrdersTold [od_id x \<mapsto> (od_item_id x, od_quantity x, od_status x)]"
| "told_of _ = NothingTold"

definition reply_of :: "endpoint \<Rightarrow> exn + body \<Rightarrow> int \<times> told" where
  "reply_of e r = (status_of e r, case r of Inl x \<Rightarrow> NothingTold | Inr b \<Rightarrow> told_of b)"

text \<open>
  What a successful answer has to tell of the inventory that the request leaves: the item or the
  order that it is about, all stocks, or some rows of a selection.
\<close>

fun success_tells :: "endpoint \<Rightarrow> uuid \<Rightarrow> inventory \<Rightarrow> told \<Rightarrow> bool" where
  "success_tells (PostItem b) new s a \<longleftrightarrow> a = StockTold (inv_stock s |` {new})"
| "success_tells (PatchItemStock i b) new s a \<longleftrightarrow> a = StockTold (inv_stock s |` {i})"
| "success_tells (GetItem i) new s a \<longleftrightarrow> a = StockTold (inv_stock s |` {i})"
| "success_tells (GetStock i) new s a \<longleftrightarrow> a = StockTold (inv_stock s |` {i})"
| "success_tells GetItems new s a \<longleftrightarrow> a = StockTold (inv_stock s)"
| "success_tells GetStockAlertsLow new s a \<longleftrightarrow> (\<exists>m. a = StockTold m \<and> m \<subseteq>\<^sub>m inv_stock s)"
| "success_tells (PostOrder b) new s a \<longleftrightarrow> a = OrdersTold (inv_orders s |` {new})"
| "success_tells (PostOrderAction oid x) new s a \<longleftrightarrow> a = OrdersTold (inv_orders s |` {oid})"
| "success_tells (GetOrder oid) new s a \<longleftrightarrow> a = OrdersTold (inv_orders s |` {oid})"
| "success_tells (GetOrders f) new s a \<longleftrightarrow> (\<exists>m. a = OrdersTold m \<and> m \<subseteq>\<^sub>m inv_orders s)"
| "success_tells _ new s a \<longleftrightarrow> a = NothingTold"

definition tells :: "endpoint \<Rightarrow> uuid \<Rightarrow> inventory \<Rightarrow> int \<times> told \<Rightarrow> bool" where
  "tells e new s reply \<longleftrightarrow>
     (if fst reply < 300 then success_tells e new s (snd reply) else snd reply = NothingTold)"

abbreviation refused :: "int \<times> told" where
  "refused \<equiv> (500, NothingTold)"

lemma reply_of_simps [simp]:
  "reply_of e (Inl x) = (status_of e (Inl x), NothingTold)" "reply_of e (Inr b) = (success_status e, told_of b)"
  by (simp_all add: reply_of_def status_of_def)

lemma restrict_single: "m |` {k} = (case m k of None \<Rightarrow> Map.empty | Some x \<Rightarrow> [k \<mapsto> x])"
  by (auto simp: fun_eq_iff restrict_map_def split: option.split)

section \<open>The effect of a request\<close>

text \<open>
  When the database may refuse a value of the request, with \<open>n\<close> numbers drawn so far: as in
  serial runs, where the first movement of a new item draws its identifier later.
\<close>

definition refusable :: "'r env \<Rightarrow> nat \<Rightarrow> endpoint \<Rightarrow> tables \<Rightarrow> bool" where
  "refusable env n e t \<longleftrightarrow> \<not> fits env n e t \<or>
     (case e of PostItem b \<Rightarrow> env_uuid4 env n \<in> mv_id ` set (stock_movements t) | _ \<Rightarrow> False)"

definition unused :: "endpoint \<Rightarrow> uuid \<Rightarrow> inventory \<Rightarrow> bool" where
  "unused e new s \<longleftrightarrow>
     (case e of PostItem b \<Rightarrow> inv_stock s new = None | PostOrder b \<Rightarrow> inv_orders s new = None | _ \<Rightarrow> True)"

text \<open>
  The lost race on an order. At a moment of the run the order was in an earlier status, which
  allowed the action; the request is answered 409, and the stock has changed as if the action
  had succeeded then, unless the stock was too low. A statement on the way may be refused as well.
\<close>

definition read_at :: "(nat \<times> tables \<times> 'r) set \<Rightarrow> uuid \<Rightarrow> order \<Rightarrow> bool" where
  "read_at M oid r \<longleftrightarrow> (\<exists>n t rd. (n, t, rd) \<in> M \<and> find_order oid t = Some r)"

definition conflict_on_order ::
  "(nat \<times> tables \<times> 'r) set \<Rightarrow> order_action \<Rightarrow> uuid \<Rightarrow> inventory \<Rightarrow> inventory \<Rightarrow> bool" where
  "conflict_on_order M a oid s s' \<longleftrightarrow>
     (\<exists>r now k. read_at M oid r \<and> next_status a (status r) \<noteq> None \<and>
        inv_orders s oid = Some (order_item_id r, quantity r, now) \<and> status r < now \<and>
        inv_stock s (order_item_id r) = Some k \<and>
        s' = (if k + stock_delta a (status r) (quantity r) < 0 then s
              else s\<lparr>inv_stock := (inv_stock s)(order_item_id r \<mapsto> k + stock_delta a (status r) (quantity r))\<rparr>))"

definition stale_refusable ::
  "'r env \<Rightarrow> (nat \<times> tables \<times> 'r) set \<Rightarrow> nat \<Rightarrow> order_action \<Rightarrow> uuid \<Rightarrow> tables \<Rightarrow> bool" where
  "stale_refusable env M n a oid t \<longleftrightarrow>
     (\<exists>ord r it. read_at M oid ord \<and> next_status a (status ord) \<noteq> None \<and>
        find_order oid t = Some r \<and> find_item (order_item_id r) t = Some it \<and>
        (\<not> movement_fits env n it (stock_delta a (status ord) (quantity r)) t \<or> \<not> int4 (order_version r + 1)))"

text \<open>
  The stock read through the cache: at a moment of the run the cache held the quantity that is
  answered and written to the row, if the column can hold it.
\<close>

definition cached_read ::
  "'r env \<Rightarrow> (nat \<times> tables \<times> 'r) set \<Rightarrow> uuid \<Rightarrow> inventory \<Rightarrow> int \<times> told \<Rightarrow> inventory \<Rightarrow> bool" where
  "cached_read env M i s reply s' \<longleftrightarrow> inv_stock s i \<noteq> None \<and>
     (\<exists>n t rd q. (n, t, rd) \<in> M \<and> cached (get_cache env) i rd = Some q \<and>
        (if 0 \<le> q \<and> int4 q
         then reply = (200, StockTold [i \<mapsto> q]) \<and> s' = s\<lparr>inv_stock := (inv_stock s)(i \<mapsto> q)\<rparr>
         else reply = refused \<and> s' = s))"

text \<open>
  The effect of a request: the step of the inventory with an answer that tells it; a refusal of
  the database; and, on the orders and the items of \<open>C\<close>, the lost race and the cached read.
\<close>

definition takes_effect ::
  "'r env \<Rightarrow> row_lock set \<Rightarrow> (nat \<times> tables \<times> 'r) set \<Rightarrow> endpoint \<Rightarrow> nat \<Rightarrow> tables \<Rightarrow> int \<times> told \<Rightarrow> inventory \<Rightarrow> bool" where
  "takes_effect env C M e n t reply s \<longleftrightarrow>
     (\<exists>new. (fst reply = 201 \<longrightarrow> unused e new (inventory_of t)) \<and>
        endpoint_step True new e (inventory_of t) = (fst reply, s) \<and> tells e new s reply) \<or>
     reply = refused \<and> s = inventory_of t \<and> refusable env n e t \<or>
     (\<exists>oid a. e = PostOrderAction oid a \<and> OrderRow oid \<in> C \<and>
        (reply = (409, NothingTold) \<and> conflict_on_order M a oid (inventory_of t) s \<or>
         reply = refused \<and> s = inventory_of t \<and> stale_refusable env M n a oid t)) \<or>
     (\<exists>i. e = GetStock i \<and> ItemRow i \<in> C \<and> cached_read env M i (inventory_of t) reply s)"

interpretation lin: linearization "audited_but C" "undisturbed C" "reserved_rows C" inventory_of for C
  by unfold_locales

abbreviation takes_place ::
  "'r env \<Rightarrow> row_lock set \<Rightarrow> (nat \<times> tables \<times> 'r) set \<Rightarrow> endpoint \<Rightarrow> ('r, body) proc \<Rightarrow> row_lock set \<Rightarrow> session \<Rightarrow>
     tables \<Rightarrow> (int \<times> told) option \<Rightarrow> bool"
  where "takes_place env C M e p own s t c \<equiv> lin.linear C M (takes_effect env C M e) (reply_of e) p own s t c"

lemma takes_effect_answer:
  "endpoint_step True new e (inventory_of t) = (fst reply, s) \<Longrightarrow> (fst reply = 201 \<Longrightarrow> unused e new (inventory_of t)) \<Longrightarrow>
     tells e new s reply \<Longrightarrow> takes_effect env C M e n t reply s"
  by (auto simp: takes_effect_def)

lemma takes_effect_error:
  "endpoint_step True new e (inventory_of t) = (code, inventory_of t) \<Longrightarrow> 300 \<le> code \<Longrightarrow>
     takes_effect env C M e n t (code, NothingTold) (inventory_of t)"
  by (rule takes_effect_answer) (auto simp: tells_def)

lemma takes_effect_refusal: "refusable env n e t \<Longrightarrow> takes_effect env C M e n t refused (inventory_of t)"
  by (simp add: takes_effect_def)

section \<open>The end of a request\<close>

text \<open>The continuation of a service method: its outcome becomes the outcome of the endpoint, and the transaction ends.\<close>

definition concludes :: "'r env \<Rightarrow> (exn + 'a \<Rightarrow> ('r, body) proc) \<Rightarrow> (exn + 'a \<Rightarrow> exn + body) \<Rightarrow> bool" where
  "concludes env k h \<longleftrightarrow> (\<forall>r. k r = await_on pending_row (end_request env (h r)))"

lemma end_request_result:
  assumes "pending (sess w) = []"
  shows "wp (end_request env r) (\<lambda>r' w'.
      r' = (if committing r \<and> broken (sess w) then Inl PendingRollbackError else r) \<and>
      db w' = (if committing r \<and> \<not> broken (sess w) then view w else db w)) w"
  using assms
  by (cases r) (simp_all add: wp_end_request wp_rules wp_outcome committing_def set_pending_idem open_session_def)

lemma concludes_end:
  fixes env :: "'r env"
  assumes k: "concludes env k h" and s: "pending s = []"
    and step: "\<And>w :: 'r world. sess w = s \<Longrightarrow> audited_but C (db w) \<Longrightarrow> undisturbed C own t (db w) \<Longrightarrow>
      (let t' = (if committing (h r) \<and> \<not> broken s then apply_statements (executed s) (db w) else db w);
           reply = (if committing (h r) \<and> broken s then refused else reply_of e (h r))
       in c = Some reply \<and> t' = db w \<or> c = None \<and> takes_effect env C M e (calls w) (db w) reply (inventory_of t'))"
  shows "takes_place env C M e (k r) own s t c"
proof -
  have "takes_place env C M e (settle (await_on pending_row (end_request env (h r))) Finished) own s t c"
  proof (rule lin.linear_await)
    fix w :: "'r world"
    assume w: "sess w = s" "audited_but C (db w)" "undisturbed C own t (db w)"
    have five: "status_of e (Inl PendingRollbackError) = 500" by (simp add: status_of_def)
    have "view w = apply_statements (executed s) (db w)" using w(1) by (simp add: view_def)
    then show "wp (end_request env (h r)) (\<lambda>r' w'. \<exists>c'.
        lin.takes (takes_effect env C M e) (calls w) (db w) c (db w') c' \<and>
        takes_place env C M e (Finished r') (own \<union> lock_set (pending_row w)) (sess w') (db w') c') w"
      using end_request_result [of w env "h r"] step [OF w(1) _ w(3)] s w(1,2) five
      by (intro wp_mono [OF end_request_result [of w env "h r"]])
         (auto simp: lin.takes_def Let_def simp del: split_paired_Ex split_paired_All split: if_splits)
  qed
  then show ?thesis using k by (simp add: concludes_def settle_Finished)
qed

lemma concludes_answered:
  assumes "concludes env k h" and "pending s = []" "executed s = []" "\<not> broken s"
  shows "takes_place env C M e (k r) own s t (Some (reply_of e (h r)))"
  by (rule concludes_end [OF assms(1,2)]) (simp add: assms(3,4) Let_def)

lemma concludes_failed:
  assumes "concludes env k h" and "pending s = []" "broken s" and "committing (h r) \<or> reply_of e (h r) = refused"
  shows "takes_place env C M e (k r) own s t (Some refused)"
  by (rule concludes_end [OF assms(1,2)]) (use assms(3,4) in \<open>auto simp: Let_def\<close>)

lemma concludes_takes:
  assumes "concludes env k h" and "pending s = []" "\<not> broken s" and "committing (h r)"
    and "\<And>t' n. audited_but C t' \<Longrightarrow> undisturbed C own t t' \<Longrightarrow>
      takes_effect env C M e n t' (reply_of e (h r)) (inventory_of (apply_statements (executed s) t'))"
  shows "takes_place env C M e (k r) own s t None"
  by (rule concludes_end [OF assms(1,2)]) (use assms(3-5) in \<open>auto simp: Let_def\<close>)

lemma concludes_commits:
  assumes "concludes env k h" and "pending s = []" "\<not> broken s" and "committing (h r)"
    and "\<And>t'. audited_but C t' \<Longrightarrow> undisturbed C own t t' \<Longrightarrow>
      let s' = inventory_of (apply_statements (executed s) t')
      in \<exists>new. unused e new (inventory_of t') \<and> tells e new s' (reply_of e (h r)) \<and>
           endpoint_step True new e (inventory_of t') = (status_of e (h r), s')"
  shows "takes_place env C M e (k r) own s t None"
  by (rule concludes_takes [OF assms(1-4)]) (use assms(5) in \<open>fastforce simp: Let_def reply_of_def intro: takes_effect_answer\<close>)

text \<open>After a call that changes nothing, the request goes on, or its reply is decided.\<close>

definition decides ::
  "'r env \<Rightarrow> row_lock set \<Rightarrow> (nat \<times> tables \<times> 'r) set \<Rightarrow> endpoint \<Rightarrow> ('r, body) proc \<Rightarrow> row_lock set \<Rightarrow> session \<Rightarrow>
     nat \<Rightarrow> tables \<Rightarrow> bool" where
  "decides env C M e p own s n t \<longleftrightarrow> takes_place env C M e p own s t None \<or>
     (\<exists>reply. takes_effect env C M e n t reply (inventory_of t) \<and> takes_place env C M e p own s t (Some reply))"

lemma decides_going: "takes_place env C M e p own s t None \<Longrightarrow> decides env C M e p own s n t"
  by (simp add: decides_def)

lemma decides_code:
  "takes_place env C M e p own s t (Some reply) \<Longrightarrow> takes_effect env C M e n t reply (inventory_of t) \<Longrightarrow> decides env C M e p own s n t"
  by (auto simp: decides_def simp del: split_paired_Ex split_paired_All)

lemma decides_answer:
  assumes "concludes env k h" and "pending s = []" "executed s = []" "\<not> broken s"
    and "takes_effect env C M e n t (reply_of e (h r)) (inventory_of t)"
  shows "decides env C M e (k r) own s n t"
  by (rule decides_code [OF concludes_answered [OF assms(1-4)] assms(5)])

abbreviation world_moment :: "'r world \<Rightarrow> nat \<times> tables \<times> 'r" where
  "world_moment w \<equiv> (calls w, db w, redis w)"

lemma lin_calls:
  fixes env :: "'r env" and m :: "('r, 'b) io"
  assumes "\<And>w. sess w = s \<Longrightarrow> audited_but C (db w) \<Longrightarrow> undisturbed C own t (db w) \<Longrightarrow> world_moment w \<in> M \<Longrightarrow>
      wp m (\<lambda>r w'. db w' = db w \<and> decides env C M e (k r) (own \<union> lock_set (l w)) (sess w') (calls w) (db w)) w"
  shows "takes_place env C M e (settle (await_on l m) k) own s t None"
proof (rule lin.linear_call)
  fix w :: "'r world"
  assume w: "sess w = s" "audited_but C (db w)" "undisturbed C own t (db w)" "world_moment w \<in> M"
  show "wp m (\<lambda>r w'. db w' = db w \<and>
      (takes_place env C M e (k r) (own \<union> lock_set (l w)) (sess w') (db w) None \<or>
       None = None \<and> (\<exists>x. takes_effect env C M e (calls w) (db w) x (inventory_of (db w)) \<and>
         takes_place env C M e (k r) (own \<union> lock_set (l w)) (sess w') (db w) (Some x)))) w"
    by (rule wp_mono [OF assms [OF w]]) (auto simp: decides_def)
qed

text \<open>A query, which needs no lock and leaves the session; one that comes after the reply is decided.\<close>

lemma lin_reads:
  fixes env :: "'r env" and m :: "('r, 'b) io"
  assumes "\<And>w. sess w = s \<Longrightarrow> audited_but C (db w) \<Longrightarrow> undisturbed C own t (db w) \<Longrightarrow> world_moment w \<in> M \<Longrightarrow>
      wp m (\<lambda>r w'. db w' = db w \<and> sess w' = s \<and> decides env C M e (k r) own s (calls w) (db w)) w"
  shows "takes_place env C M e (settle (await m) k) own s t None"
  unfolding await_def
  by (rule lin_calls, rule wp_mono [OF assms]) auto

lemma lin_reads_on:
  fixes env :: "'r env" and m :: "('r, 'b) io"
  assumes "\<And>w. sess w = s \<Longrightarrow> audited_but C (db w) \<Longrightarrow> undisturbed C own t (db w) \<Longrightarrow>
      wp m (\<lambda>r w'. db w' = db w \<and> sess w' = s \<and> takes_place env C M e (k r) own s (db w) c) w"
  shows "takes_place env C M e (settle (await m) k) own s t c"
  unfolding await_def
  by (rule lin.linear_call, rule wp_mono [OF assms]) auto

section \<open>Steps of the order services\<close>

definition transition_outcome :: "exn + order option \<Rightarrow> exn + body" where
  "transition_outcome r =
     (case r of Inl e \<Rightarrow> Inl (transition_error e)
      | Inr None \<Rightarrow> Inl ResponseValidationError
      | Inr (Some x) \<Rightarrow> Inr (OrderBody (order_response x)))"

lemma transition_outcome_codes [simp]:
  "status_of e (transition_outcome (Inl (NotFoundError resource i))) = 404"
  "status_of e (transition_outcome (Inl (InvalidTransitionError st st'))) = 422"
  "status_of e (transition_outcome (Inl (InsufficientStockError i n m))) = 422"
  "committing (transition_outcome (Inl (InsufficientStockError i n m)))"
  "status_of e (transition_outcome (Inl (ConflictError resource i))) = 409"
  "committing (transition_outcome (Inl (ConflictError resource i)))"
  "status_of (PostOrderAction oid a) (transition_outcome (Inr (Some x))) = 200"
  "committing (transition_outcome (Inr (Some x)))"
  by (simp_all add: transition_outcome_def status_of_def committing_def json_response_def)

lemma transition_outcome_replies [simp]:
  "reply_of e (transition_outcome (Inl x)) = (status_of e (transition_outcome (Inl x)), NothingTold)"
  "reply_of (PostOrderAction oid a) (transition_outcome (Inr (Some y))) = (200, OrdersTold [order_id y \<mapsto> order_summary y])"
  by (simp_all add: transition_outcome_def order_response_def order_summary_def)

lemma transition_outcome_refused:
  "x = DBAPIError \<or> x = IntegrityError \<or> x = StaleDataError \<Longrightarrow> status_of e (transition_outcome (Inl x)) = 500"
  by (auto simp: transition_outcome_def status_of_def)

lemma lin_read_order:
  fixes env :: "'r env" and k :: "exn + order option \<Rightarrow> ('r, body) proc"
  assumes k: "concludes env k transition_outcome"
    and going: "\<And>ord t'. audited_but C t' \<Longrightarrow> find_order oid t' = Some ord \<Longrightarrow> read_at M oid ord \<Longrightarrow>
      can_transition_to (status ord) (action_target a) \<Longrightarrow>
      takes_place env C M (PostOrderAction oid a) (settle (p ord) k) own fresh_session t' None"
  shows "takes_place env C M (PostOrderAction oid a) (settle (proc_then (await (order_get_by_id oid)) (\<lambda>found.
      case found of None \<Rightarrow> Finished (Inl (NotFoundError ''Order'' oid))
      | Some ord \<Rightarrow> if \<not> can_transition_to (status ord) (action_target a)
          then Finished (Inl (InvalidTransitionError (status ord) (action_target a))) else p ord)) k)
      own fresh_session t None"
  unfolding proc_then_def settle_settle
proof (rule lin_reads, goal_cases)
  case (1 w)
  note w = 1(1,2)
  note stops = decides_answer [OF k, of fresh_session C M "PostOrderAction oid a" "calls w" "db w", simplified]
  show ?case
  proof (cases "find_order oid (db w)")
    case None
    then have "takes_effect env C M (PostOrderAction oid a) (calls w) (db w) (404, NothingTold) (inventory_of (db w))"
      by (intro takes_effect_error) (simp_all add: act_on_order_def)
    with None w stops [of "Inl (NotFoundError ''Order'' oid)"] show ?thesis
      by (simp add: wp_order_get_by_id view_nothing)
  next
    case (Some ord)
    have "read_at M oid ord" using 1(4) Some unfolding read_at_def by blast
    note going = going [OF w(2) Some this]
    show ?thesis
    proof (cases "can_transition_to (status ord) (action_target a)")
      case True
      with Some w decides_going [OF going] show ?thesis
        by (simp add: wp_order_get_by_id view_nothing)
    next
      case False
      with Some have "takes_effect env C M (PostOrderAction oid a) (calls w) (db w) (422, NothingTold) (inventory_of (db w))"
        by (intro takes_effect_error) (simp_all add: act_on_order_def order_summary_def next_status_transition)
      with False Some w stops [of "Inl (InvalidTransitionError (status ord) (action_target a))"] show ?thesis
        by (simp add: wp_order_get_by_id view_nothing)
    qed
  qed
qed

text \<open>What the request knows about the order that it has read: it owns the row, or the order is contested.\<close>

lemma seen_later:
  assumes "order_seen own oid ord t" and "undisturbed C own t t'"
  obtains r where "find_order oid t' = Some r" and "order_evolves ord r" and "OrderRow oid \<in> own \<longrightarrow> r = ord"
  using order_seen_undisturbed [OF assms] that by (auto simp: order_seen_def)

lemma path_increases: "transitions_path st sts \<Longrightarrow> sts \<noteq> [] \<Longrightarrow> st < last sts"
proof (induction rule: transitions_path.induct)
  case (path_step s t ts)
  then show ?case using can_transition_increases [OF path_step.hyps(1)] by (cases "ts = []") auto
qed simp

lemma order_moved_on:
  assumes "order_evolves ord r" and "order_version r \<noteq> order_version ord"
  shows "status ord < status r"
  using assms path_increases by (auto simp: order_evolves_def)

lemma order_stays_moved:
  assumes "order_evolves ord r" and "order_version r \<noteq> order_version ord" and "order_evolves r r'"
  shows "order_version r' \<noteq> order_version ord"
proof -
  have "order_version ord < order_version r" using assms(1,2) by (auto simp: order_evolves_def)
  moreover have "order_version r \<le> order_version r'" using assms(3) by (auto simp: order_evolves_def)
  ultimately show ?thesis by simp
qed

lemma takes_conflict:
  assumes "OrderRow oid \<in> C" and r: "find_order oid t = Some r" "order_evolves ord r" "order_version r \<noteq> order_version ord"
    and read: "read_at M oid ord"
    and "next_status a (status ord) \<noteq> None" and it: "find_item (order_item_id ord) t = Some it"
    and d: "stock_delta a (status ord) (quantity ord) = d"
    and s: "s = (if stock_quantity it + d < 0 then inventory_of t
      else (inventory_of t)\<lparr>inv_stock := (inv_stock (inventory_of t))(order_item_id ord \<mapsto> stock_quantity it + d)\<rparr>)"
  shows "takes_effect env C M (PostOrderAction oid a) n t (409, NothingTold) s"
proof -
  have "order_item_id r = order_item_id ord" "quantity r = quantity ord"
    using r(2) by (simp_all add: order_evolves_def)
  then have "inv_orders (inventory_of t) oid = Some (order_item_id ord, quantity ord, status r)"
    using r(1) by (simp add: order_summary_def)
  moreover have "inv_stock (inventory_of t) (order_item_id ord) = Some (stock_quantity it)"
    using it by (simp add: stock_of_def)
  ultimately have "conflict_on_order M a oid (inventory_of t) s"
    using order_moved_on [OF r(2,3)] assms(6) read unfolding conflict_on_order_def s d [symmetric] by blast
  then show ?thesis using assms(1) by (simp add: takes_effect_def)
qed

lemma takes_stale_refusal:
  assumes "OrderRow oid \<in> C" and "find_order oid t = Some r" "find_item (order_item_id r) t = Some it"
    and "read_at M oid ord" "next_status a (status ord) \<noteq> None"
    and "\<not> movement_fits env n it (stock_delta a (status ord) (quantity r)) t \<or> \<not> int4 (order_version r + 1)"
  shows "takes_effect env C M (PostOrderAction oid a) n t refused (inventory_of t)"
proof -
  have "stale_refusable env M n a oid t" unfolding stale_refusable_def using assms(2-6) by blast
  then show ?thesis using assms(1) by (simp add: takes_effect_def)
qed

lemma audited_item:
  assumes "audited_but C t" and "find_order oid t = Some ord"
  shows "find_item (order_item_id ord) t \<noteq> None" and "find_item (order_item_id ord) t = Some it \<Longrightarrow> 0 \<le> stock_quantity it"
    and "0 < quantity ord" and "order_id ord = oid"
  using schema_ok_order [OF audited_butD(1) [OF assms(1)] assms(2)] schema_ok_item [OF audited_butD(1) [OF assms(1)]]
    found_order_id [OF assms(2)]
  by (auto simp: order_checks_ok_def item_checks_ok_def)

lemma audited_version:
  assumes "audited_but C t" and "find_order oid t = Some r" and "OrderRow oid \<notin> C"
  shows "int4 (order_version r + 1)"
  using trail_for_version [OF trail_but_find [OF audited_butD(3) [OF assms(1)] assms(2,3)]] by simp

text \<open>The compare-and-set of the order: it is won, lost to another request, or refused.\<close>

lemma lin_status:
  fixes env :: "'r env" and k :: "exn + order option \<Rightarrow> ('r, body) proc"
  assumes k: "concludes env k transition_outcome" and own: "OrderRow oid \<in> C \<or> OrderRow oid \<in> own" and seen: "order_seen own oid ord t"
    and read: "read_at M oid ord" and moves: "next_status a (status ord) \<noteq> None" and s: "pending s = []" "\<not> broken s"
    and orders: "\<And>t'. find_order oid (apply_statements (executed s) t') = find_order oid t'"
    and lost: "\<And>t' r n. audited_but C t' \<Longrightarrow> undisturbed C own t t' \<Longrightarrow> OrderRow oid \<in> C \<Longrightarrow> find_order oid t' = Some r \<Longrightarrow>
      order_evolves ord r \<Longrightarrow> order_version r \<noteq> order_version ord \<Longrightarrow>
      takes_effect env C M (PostOrderAction oid a) n t' (409, NothingTold) (inventory_of (apply_statements (executed s) t'))"
    and won: "\<And>t' r now. audited_but C t' \<Longrightarrow> undisturbed C own t t' \<Longrightarrow> find_order oid t' = Some r \<Longrightarrow>
      order_evolves ord r \<Longrightarrow> order_version r = order_version ord \<Longrightarrow>
      takes_place env C M (PostOrderAction oid a) (settle p k) (insert (OrderRow oid) own)
        (s\<lparr>executed := executed s @ [UpdateOrder oid st (order_version ord + 1) now]\<rparr>) t' None"
  shows "takes_place env C M (PostOrderAction oid a) (settle (proc_then (await_on (order_row oid (order_version ord))
      (transition_status env oid (order_version ord) st)) (\<lambda>updated.
      if \<not> updated then Finished (Inl (ConflictError ''Order'' oid)) else p)) k) own s t None"
  unfolding proc_then_def settle_settle
proof (rule lin_calls, goal_cases)
  case (1 w)
  note w = 1
  obtain r where r: "find_order oid (db w) = Some r" "order_evolves ord r" "OrderRow oid \<in> own \<longrightarrow> r = ord"
    by (rule seen_later [OF seen w(3)])
  have view: "find_order oid (view w) = Some r" using orders w(1) r(1) by (simp add: view_def)
  show ?case
  proof (cases "order_version r = order_version ord")
    case False
    then have C: "OrderRow oid \<in> C" using own r(3) by blast
    have lock: "order_row oid (order_version ord) w = None" using False by (simp add: order_row_def view)
    have "takes_place env C M (PostOrderAction oid a) (k (Inl (ConflictError ''Order'' oid))) own s (db w) None"
    proof (rule concludes_takes [OF k])
      fix t' n
      assume t': "audited_but C t'" "undisturbed C own (db w) t'"
      obtain r' where r': "find_order oid t' = Some r'" "order_evolves r r'"
        using undisturbedD(1) [OF t'(2)] r(1) unfolding evolves_def by blast
      from lost [OF t'(1) undisturbed_trans [OF w(3) t'(2)] C r'(1) order_evolves_trans [OF r(2) r'(2)]
          order_stays_moved [OF r(2) False r'(2)]]
      show "takes_effect env C M (PostOrderAction oid a) n t'
          (reply_of (PostOrderAction oid a) (transition_outcome (Inl (ConflictError ''Order'' oid))))
          (inventory_of (apply_statements (executed s) t'))" by simp
    qed (use s in simp_all)
    then show ?thesis
      using False s w(1) by (simp add: lock wp_transition_status view decides_going)
  next
    case True
    then have lock: "order_row oid (order_version ord) w = Some (OrderRow oid)" by (simp add: order_row_def view)
    show ?thesis
    proof (cases "int4 (order_version ord + 1)")
      case v: True
      from decides_going [OF won [OF w(2,3) r(1,2) True]] s w(1) v True show ?thesis
        by (simp add: lock wp_transition_status view log_statement_def)
    next
      case False
      then have C: "OrderRow oid \<in> C" using audited_version [OF w(2) r(1)] True by auto
      obtain it where it: "find_item (order_item_id r) (db w) = Some it" using audited_item(1) [OF w(2) r(1)] by auto
      have "takes_effect env C M (PostOrderAction oid a) (calls w) (db w) refused (inventory_of (db w))"
        by (rule takes_stale_refusal [OF C r(1) it read moves]) (use False True in simp)
      then have "decides env C M (PostOrderAction oid a) (k (Inl DBAPIError)) own' s' (calls w) (db w)"
        if "broken s'" "pending s' = []" for own' s'
        using concludes_failed [OF k that(2,1)] transition_outcome_refused [of DBAPIError]
        by (intro decides_code) simp_all
      then show ?thesis
        using s w(1) False True by (simp add: lock wp_transition_status view break_session_def)
    qed
  qed
qed

lemma lin_transition_steps:
  fixes env :: "'r env" and k :: "exn + order option \<Rightarrow> ('r, body) proc"
  assumes k: "concludes env k transition_outcome" and own: "OrderRow oid \<in> C \<or> OrderRow oid \<in> own" and seen: "order_seen own oid ord t"
    and read: "read_at M oid ord" and moves: "next_status a (status ord) \<noteq> None" and s: "pending s = []" "\<not> broken s"
    and orders: "\<And>t'. find_order oid (apply_statements (executed s) t') = find_order oid t'"
    and lost: "\<And>t' r n. audited_but C t' \<Longrightarrow> undisturbed C own t t' \<Longrightarrow> OrderRow oid \<in> C \<Longrightarrow> find_order oid t' = Some r \<Longrightarrow>
      order_evolves ord r \<Longrightarrow> order_version r \<noteq> order_version ord \<Longrightarrow>
      takes_effect env C M (PostOrderAction oid a) n t' (409, NothingTold) (inventory_of (apply_statements (executed s) t'))"
    and commit: "\<And>t' r now. audited_but C t' \<Longrightarrow> undisturbed C own t t' \<Longrightarrow> find_order oid t' = Some r \<Longrightarrow>
      status r = status ord \<and> quantity r = quantity ord \<and> order_item_id r = order_item_id ord \<Longrightarrow>
      act_on_order a oid (inventory_of t') = (200, inventory_of (apply_statement
        (UpdateOrder oid st (order_version ord + 1) now) (apply_statements (executed s) t')))"
  shows "takes_place env C M (PostOrderAction oid a) (settle (transition_steps env oid (order_version ord) st) k) own s t None"
  unfolding transition_steps_def
proof (rule lin_status [OF k own seen read moves s orders lost])
  fix t1 r now
  assume t1: "audited_but C t1" "undisturbed C own t t1" and r: "find_order oid t1 = Some r" "order_evolves ord r"
    "order_version r = order_version ord"
  note same = order_evolves_same [OF r(2,3)]
  let ?u = "UpdateOrder oid st (order_version ord + 1) now"
  let ?s = "s\<lparr>executed := executed s @ [?u]\<rparr>" and ?own = "insert (OrderRow oid) own"
  let ?row = "r\<lparr>status := st, order_version := order_version ord + 1, order_updated_at := now\<rparr>"
  have moved: "find_order oid (apply_statement ?u (apply_statements (executed s) x)) = Some ?row"
    if "find_order oid x = Some r" for x
    using that orders [of x] by (simp add: table_simps)
  have told: "OrdersTold [order_id ?row \<mapsto> order_summary ?row] =
      OrdersTold (inv_orders (inventory_of (apply_statement ?u (apply_statements (executed s) x))) |` {oid})"
    if "find_order oid x = Some r" for x
  using moved [OF that] found_order_id [OF r(1)] by (simp add: restrict_single)
  show "takes_place env C M (PostOrderAction oid a) (settle (await (reload_order oid)) k) ?own ?s t1 None"
  proof (rule lin_reads, goal_cases)
    case (1 w)
    note w = 1
    have found: "find_order oid (db w) = Some r" by (rule undisturbedD(4) [OF w(3) insertI1 r(1)])
    have view: "find_order oid (view w) = Some ?row"
      using moved [OF found] w(1) by (simp add: view_def)
    have "takes_place env C M (PostOrderAction oid a) (k (Inr (Some ?row))) ?own ?s (db w) None"
    proof (rule concludes_commits [OF k])
      fix t'
      assume t': "audited_but C t'" "undisturbed C ?own (db w) t'"
      have row: "find_order oid t' = Some r" by (rule undisturbedD(4) [OF t'(2) insertI1 found])
      have "undisturbed C own t1 t'"
        by (rule undisturbed_mono [OF subset_insertI undisturbed_trans [OF w(3) t'(2)]])
      from commit [OF t'(1) undisturbed_trans [OF t1(2) this] row same, of now] told [OF row]
      show "let s' = inventory_of (apply_statements (executed ?s) t') in \<exists>new.
          unused (PostOrderAction oid a) new (inventory_of t') \<and>
          tells (PostOrderAction oid a) new s' (reply_of (PostOrderAction oid a) (transition_outcome (Inr (Some ?row)))) \<and>
          endpoint_step True new (PostOrderAction oid a) (inventory_of t') =
          (status_of (PostOrderAction oid a) (transition_outcome (Inr (Some ?row))), s')"
        by (simp add: Let_def unused_def tells_def)
    qed (use s in simp_all)
    then show ?case
      using view w(1) s(2) by (auto simp: reload_order_def wp_order_get_by_id intro: decides_going)
  qed
qed simp_all

section \<open>Changes of stock\<close>

lemma lin_lock_item:
  fixes env :: "'r env" and k :: "exn + menu_item option \<Rightarrow> ('r, body) proc"
  assumes "\<And>t' n. audited_but C t' \<Longrightarrow> undisturbed C own t t' \<Longrightarrow> find_item iid t' = None \<Longrightarrow>
      decides env C M e (k (Inr None)) own fresh_session n t'"
    and "\<And>t' n it. audited_but C t' \<Longrightarrow> undisturbed C own t t' \<Longrightarrow> find_item iid t' = Some it \<Longrightarrow>
      decides env C M e (k (Inr (Some it))) (insert (ItemRow iid) own) fresh_session n t'"
  shows "takes_place env C M e (settle (await_on (item_row iid) (item_get_by_id_with_lock iid)) k) own fresh_session t None"
proof (rule lin_calls, goal_cases)
  case (1 w)
  then show ?case
    using assms by (cases "find_item iid (db w)") (simp_all add: wp_item_get_by_id item_row_def view_nothing)
qed

text \<open>The row with the change and the cache: what the request answers is what it will commit.\<close>

lemma lin_saving:
  fixes env :: "'r env" and k :: "exn + menu_item \<Rightarrow> ('r, body) proc"
  assumes c: "change_owned own s t it d m now" and nb: "\<not> broken s"
    and ends: "\<And>t'. undisturbed C own t t' \<Longrightarrow>
      takes_place env C M e (k (Inr ((changed_item it d)\<lparr>item_updated_at := now\<rparr>))) own s t' None"
  shows "takes_place env C M e (settle (proc_then (await (item_save env (changed_item it d))) (\<lambda>saved.
      proc_then (await (cache_set_stock env cache (item_id saved) (stock_quantity saved))) (\<lambda>_. Finished (Inr saved)))) k)
      own s t None"
  unfolding proc_then_def settle_settle
proof (rule lin_reads, goal_cases)
  case (1 w)
  note w = 1
  let ?row = "(changed_item it d)\<lparr>item_updated_at := now\<rparr>"
  have here: "change_owned own (sess w) (db w) it d m now" using change_owned_undisturbed [OF c w(3)] w(1) by simp
  have told: "takes_place env C M e (settle (await (cache_set_stock env cache i n))
      (\<lambda>r. settle (case r of Inl e \<Rightarrow> Finished (Inl e) | Inr _ \<Rightarrow> Finished (Inr ?row)) k)) own s (db w) None" for i n
  proof (rule lin_reads_on, goal_cases)
    case (1 v)
    with ends [OF undisturbed_trans [OF w(3) 1(3)]] show ?case by (simp add: wp_cache_set_stock)
  qed
  have "item_id (changed_item it d) = item_id it" by simp
  then show ?case
    using nb w(1) here told change_owned_row [OF here]
    by (simp add: wp_item_save change_owned_def settle_settle decides_going)
qed

text \<open>The change is refused, or waits for the commit with the row and the new key owned.\<close>

lemma lin_change:
  fixes env :: "'r env" and k :: "exn + menu_item \<Rightarrow> ('r, body) proc"
  assumes it: "find_item (item_id it) t = Some it" "ItemRow (item_id it) \<in> own" "0 \<le> stock_quantity it + d"
    and order: "case oid of None \<Rightarrow> True | Some i \<Rightarrow> find_order i t \<noteq> None"
    and new: "\<And>mid created. mv_id (new mid created) = mid"
      "\<And>mid created. records_change it d oid kind (new mid created)"
    and refuse: "\<And>t' n. audited_but C t' \<Longrightarrow> undisturbed C own t t' \<Longrightarrow> \<not> movement_fits env n it d t' \<Longrightarrow>
      takes_effect env C M e n t' refused (inventory_of t')"
    and failed: "\<And>x own' s' t'. x = DBAPIError \<or> x = IntegrityError \<or> x = StaleDataError \<Longrightarrow>
      broken s' \<Longrightarrow> pending s' = [] \<Longrightarrow> takes_place env C M e (k (Inl x)) own' s' t' (Some refused)"
    and written: "\<And>own' s' t' mid created now. change_owned own' s' t' it d (new mid created) now \<Longrightarrow>
      own \<subseteq> own' \<Longrightarrow> (\<forall>oid. OrderRow oid \<in> own' \<longrightarrow> OrderRow oid \<in> own) \<Longrightarrow>
      undisturbed C own t t' \<Longrightarrow> \<not> broken s' \<Longrightarrow>
      takes_place env C M e (k (Inr ((changed_item it d)\<lparr>item_updated_at := now\<rparr>))) own' s' t' None"
  shows "takes_place env C M e (settle (write_steps env cache it (changed_item it d) new) k) own fresh_session t None"
  unfolding write_steps_def proc_then_def [of "await_on l m" for l m] settle_settle
proof (rule lin_calls, goal_cases)
  case (1 w)
  note w = 1
  have key: "movement_key env w = Some (MovementKey (env_uuid4 env (Suc (calls w))))"
    using w(1) by (simp add: movement_key_def next_key_def to_write_def)
  have view: "view w = db w" using w(1) by (simp add: view_def)
  have here: "find_item (item_id it) (view w) = Some it" "\<not> broken (sess w)" "pending (sess w) = []"
    using undisturbedD(2) [OF w(3) it(2,1)] w(1) view by simp_all
  let ?own = "own \<union> lock_set (movement_key env w)"
  let ?rest = "proc_then (await (item_save env (changed_item it d))) (\<lambda>saved.
      proc_then (await (cache_set_stock env cache (item_id saved) (stock_quantity saved))) (\<lambda>_. Finished (Inr saved)))"
  show ?case
  proof (cases "change_fault env it d new w")
    case None
    let ?now = "env_utc_now env (calls w)"
    let ?m = "new (env_uuid4 env (Suc (calls w))) (env_utc_now env (Suc (Suc (calls w))))"
    let ?s = "sess (change_sent env it d new w)"
    have "change_ready (db w) it d ?m ?now"
      using None here(1) view by (simp add: change_ready_def change_fault_def Let_def split: option.splits)
    then have c: "change_owned ?own ?s (db w) it d ?m ?now"
      using it(2) w(1) by (simp add: change_owned_def key new)
    have "takes_place env C M e (settle ?rest k) ?own ?s (db w) None"
    proof (rule lin_saving [OF c])
      fix t'
      assume t': "undisturbed C ?own (db w) t'"
      show "takes_place env C M e (k (Inr ((changed_item it d)\<lparr>item_updated_at := ?now\<rparr>))) ?own ?s t' None"
      proof (rule written [OF change_owned_undisturbed [OF c t']])
        show "undisturbed C own t t'"
          by (rule undisturbed_trans [OF w(3) undisturbed_mono [OF _ t']]) simp
      qed (use w(1) in \<open>auto simp: key\<close>)
    qed (use w(1) in simp)
    then show ?thesis using None by (simp add: wp_send_change [OF here(2,3)] decides_going)
  next
    case (Some x)
    have "\<not> movement_fits env (calls w) it d (db w)"
    proof
      assume fit: "movement_fits env (calls w) it d (db w)"
      have "change_fault env it d new w = None"
        using fit w(2) here(1) it(3) new order evolves_find(2) [OF undisturbedD(1) [OF w(3)]]
        by (intro change_accepted [where oid = oid and kind = kind])
           (auto simp: view movement_fits_def dest: audited_butD(1) split: option.split)
      with Some show False by simp
    qed
    then have step: "takes_effect env C M e (calls w) (db w) refused (inventory_of (db w))"
      by (rule refuse [OF w(2,3)])
    show ?thesis
      by (simp add: wp_send_change [OF here(2,3)] Some decides_code [OF failed [OF change_fault_kind [OF Some]] step])
  qed
qed

lemma act_moves:
  assumes "find_order oid t = Some ord" and "find_item (order_item_id ord) t = Some it"
    and "next_status a (status ord) = Some st" and "stock_delta a (status ord) (quantity ord) = d"
  shows "0 \<le> stock_quantity it + d \<Longrightarrow> act_on_order a oid (inventory_of t) = (200, (inventory_of t)
      \<lparr>inv_stock := (inv_stock (inventory_of t))(order_item_id ord \<mapsto> stock_quantity it + d),
       inv_orders := (inv_orders (inventory_of t))(oid \<mapsto> (order_item_id ord, quantity ord, st))\<rparr>)"
    and "stock_quantity it + d < 0 \<Longrightarrow> act_on_order a oid (inventory_of t) = (422, (inventory_of t)
      \<lparr>inv_orders := (inv_orders (inventory_of t))(oid \<mapsto> (order_item_id ord, quantity ord, REJECTED))\<rparr>)"
  using assms by (simp_all add: act_on_order_def order_summary_def stock_of_def)

lemma item_kept:
  assumes "undisturbed C own t t'" and "ItemRow i \<in> own" and "find_item i t = Some it"
  shows "find_item i t' = Some it"
  by (rule undisturbedD(2) [OF assms])

lemma lin_change_and_move:
  fixes env :: "'r env" and k :: "exn + order option \<Rightarrow> ('r, body) proc"
  assumes k: "concludes env k transition_outcome" and own: "OrderRow oid \<in> C \<or> OrderRow oid \<in> own" "ItemRow (order_item_id ord) \<in> own"
    and seen: "order_seen own oid ord t" and read: "read_at M oid ord" and it: "find_item (order_item_id ord) t = Some it"
    and moves: "next_status a (status ord) = Some st" "stock_delta a (status ord) (quantity ord) = d"
    and pos: "0 \<le> stock_quantity it + d"
  shows "takes_place env C M (PostOrderAction oid a) (settle (proc_then (write_steps env cache it (changed_item it d)
      (change_record it d (Some oid) kind why)) (\<lambda>_. transition_steps env oid (order_version ord) st)) k) own fresh_session t None"
  unfolding proc_then_def settle_settle
proof (rule lin_change [where kind = kind and oid = "Some oid"])
  have iid: "item_id it = order_item_id ord" by (rule found_item_id [OF it])
  show "find_item (item_id it) t = Some it" "ItemRow (item_id it) \<in> own" using it own(2) iid by simp_all
  show "case Some oid of None \<Rightarrow> True | Some i \<Rightarrow> find_order i t \<noteq> None" using seen by (auto simp: order_seen_def)
  show "mv_id (change_record it d (Some oid) kind why mid created) = mid" for mid created
    by (simp add: change_record_def stock_movement_init_def)
  show "takes_effect env C M (PostOrderAction oid a) n t' refused (inventory_of t')"
    if t': "undisturbed C own t t'" and unfit: "\<not> movement_fits env n it d t'" for t' n
  proof -
    obtain r where r: "find_order oid t' = Some r" "order_evolves ord r" "OrderRow oid \<in> own \<longrightarrow> r = ord"
      by (rule seen_later [OF seen t'])
    then have same: "order_item_id r = order_item_id ord" "quantity r = quantity ord" by (simp_all add: order_evolves_def)
    note here = item_kept [OF t' own(2) it]
    show ?thesis
    proof (cases "OrderRow oid \<in> C")
      case True
      then show ?thesis
        using unfit here same moves by (intro takes_stale_refusal [OF _ r(1) _ read]) auto
    next
      case False
      with r own(1) unfit here moves(2) have "refusable env n (PostOrderAction oid a) t'" by (simp add: refusable_def)
      then show ?thesis by (rule takes_effect_refusal)
    qed
  qed
  show "takes_place env C M (PostOrderAction oid a) (settle (case Inl x of Inl e \<Rightarrow> Finished (Inl e)
      | Inr a \<Rightarrow> transition_steps env oid (order_version ord) st) k) own' s' t' (Some refused)"
    if "x = DBAPIError \<or> x = IntegrityError \<or> x = StaleDataError" "broken s'" "pending s' = []" for x own' s' t'
    using concludes_failed [OF k that(3,2) disjI2] transition_outcome_refused [OF that(1)] by simp
  fix own' s' t' mid created now
  let ?m = "change_record it d (Some oid) kind why mid created"
  assume c: "change_owned own' s' t' it d ?m now" and more: "own \<subseteq> own'"
    and rows: "\<forall>oid. OrderRow oid \<in> own' \<longrightarrow> OrderRow oid \<in> own"
    and t': "undisturbed C own t t'" and nb: "\<not> broken s'"
  have s': "pending s' = []" "executed s' = [stock_update it (changed_item it d) now, InsertMovement ?m]"
    using c by (simp_all add: change_owned_def)
  have kept: "find_item (order_item_id ord) u = Some it" if "undisturbed C own' t' u" for u
    by (rule item_kept [OF undisturbed_trans [OF t' undisturbed_mono [OF more that]] own(2) it])
  have "takes_place env C M (PostOrderAction oid a) (settle (transition_steps env oid (order_version ord) st) k) own' s' t' None"
  proof (rule lin_transition_steps [OF k _ order_seen_more_locks [OF order_seen_undisturbed [OF seen t'] rows] read _ s'(1) nb])
    show "OrderRow oid \<in> C \<or> OrderRow oid \<in> own'" using own(1) more by blast
    show "next_status a (status ord) \<noteq> None" using moves(1) by simp
    show "find_order oid (apply_statements (executed s') x) = find_order oid x" for x
      by (simp add: s'(2) table_simps)
    show "takes_effect env C M (PostOrderAction oid a) n u (409, NothingTold) (inventory_of (apply_statements (executed s') u))"
      if "undisturbed C own' t' u" "OrderRow oid \<in> C" "find_order oid u = Some r" "order_evolves ord r"
        "order_version r \<noteq> order_version ord" for u r n
    proof (rule takes_conflict [OF that(2-5) read _ kept [OF that(1)] moves(2)])
      have "find_item (item_id it) u = Some it" using kept [OF that(1)] iid by simp
      from inventory_change [OF this] show "inventory_of (apply_statements (executed s') u) =
          (if stock_quantity it + d < 0 then inventory_of u else (inventory_of u)
            \<lparr>inv_stock := (inv_stock (inventory_of u))(order_item_id ord \<mapsto> stock_quantity it + d)\<rparr>)"
        using pos iid by (simp add: s'(2))
    qed (use moves(1) in simp)
    fix u r now'
    assume u: "undisturbed C own' t' u" and r: "find_order oid u = Some r"
      and same: "status r = status ord \<and> quantity r = quantity ord \<and> order_item_id r = order_item_id ord"
    have "find_item (order_item_id r) u = Some it" "find_item (item_id it) u = Some it" "item_id it = order_item_id r"
      using kept [OF u] same iid by simp_all
    with inventory_move [OF r] act_moves(1) [OF r _ _ _ pos] moves same
    show "act_on_order a oid (inventory_of u) = (200, inventory_of (apply_statement
        (UpdateOrder oid st (order_version ord + 1) now') (apply_statements (executed s') u)))"
      by (simp add: s'(2))
  qed
  then show "takes_place env C M (PostOrderAction oid a) (settle (case Inr ((changed_item it d)\<lparr>item_updated_at := now\<rparr>) of
      Inl e \<Rightarrow> Finished (Inl e) | Inr a \<Rightarrow> transition_steps env oid (order_version ord) st) k) own' s' t' None" by simp
qed (use pos in simp_all)

section \<open>Transitions\<close>

lemma lin_plain_transition:
  fixes env :: "'r env"
  assumes k: "concludes env k transition_outcome" and own: "OrderRow oid \<in> C \<or> OrderRow oid \<in> own" and seen: "order_seen own oid ord t"
    and read: "read_at M oid ord"
    and moves: "next_status a (status ord) = Some st" "stock_delta a (status ord) (quantity ord) = 0"
  shows "takes_place env C M (PostOrderAction oid a) (settle (transition_steps env oid (order_version ord) st) k) own
    fresh_session t None"
proof -
  have same_stock: "(inventory_of u)\<lparr>inv_stock := (inv_stock (inventory_of u))(order_item_id r \<mapsto> stock_quantity it)\<rparr> = inventory_of u"
    if "find_item (order_item_id r) u = Some it" for u r it
    using inventory_same_stock [of u "order_item_id r" "stock_quantity it"] that by (simp add: stock_of_def)
  show ?thesis
  proof (rule lin_transition_steps [OF k own seen read])
    fix u r n
    assume u: "audited_but C u" and C: "OrderRow oid \<in> C" and r: "find_order oid u = Some r" "order_evolves ord r"
      "order_version r \<noteq> order_version ord"
    have i: "order_item_id r = order_item_id ord" using r(2) by (simp add: order_evolves_def)
    obtain it where it: "find_item (order_item_id ord) u = Some it" using audited_item(1) [OF u r(1)] i by auto
    have "0 \<le> stock_quantity it" using audited_item(2) [OF u r(1)] it i by simp
    moreover have "(inventory_of u)\<lparr>inv_stock := (inv_stock (inventory_of u))(order_item_id ord \<mapsto> stock_quantity it + 0)\<rparr> =
        inventory_of u" using same_stock [of r u it] it i by simp
    ultimately have "inventory_of u = (if stock_quantity it + 0 < 0 then inventory_of u else (inventory_of u)
        \<lparr>inv_stock := (inv_stock (inventory_of u))(order_item_id ord \<mapsto> stock_quantity it + 0)\<rparr>)" by simp
    with moves show "takes_effect env C M (PostOrderAction oid a) n u (409, NothingTold)
        (inventory_of (apply_statements (executed fresh_session) u))"
      by (intro takes_conflict [OF C r read _ it moves(2)]) simp_all
  next
    fix u r now
    assume u: "audited_but C u" and r: "find_order oid u = Some r"
      and same: "status r = status ord \<and> quantity r = quantity ord \<and> order_item_id r = order_item_id ord"
    obtain it where it: "find_item (order_item_id r) u = Some it" using audited_item(1) [OF u r] by auto
    have "0 \<le> stock_quantity it + 0" using audited_item(2) [OF u r it] by simp
    from act_moves(1) [OF r it _ _ this, of a st] moves same same_stock [OF it]
    show "act_on_order a oid (inventory_of u) = (200, inventory_of (apply_statement
        (UpdateOrder oid st (order_version ord + 1) now) (apply_statements (executed fresh_session) u)))"
      by (simp add: inventory_status [OF r])
  qed (use moves in simp_all)
qed

lemma lin_reject:
  fixes env :: "'r env"
  assumes k: "concludes env k transition_outcome" and own: "OrderRow oid \<in> C \<or> OrderRow oid \<in> own" "ItemRow (order_item_id ord) \<in> own"
    and seen: "order_seen own oid ord t" and read: "read_at M oid ord" and it: "find_item (order_item_id ord) t = Some it"
    and short: "status ord = PENDING" "stock_quantity it < quantity ord"
  shows "takes_place env C M (PostOrderAction oid ConfirmAction) (settle (reject_steps env oid ord it) k) own fresh_session t None"
  unfolding reject_steps_def
proof (rule lin_status [OF k own(1) seen read])
  show "takes_effect env C M (PostOrderAction oid ConfirmAction) n u (409, NothingTold) (inventory_of (apply_statements (executed fresh_session) u))"
    if "undisturbed C own t u" "OrderRow oid \<in> C" "find_order oid u = Some r" "order_evolves ord r"
      "order_version r \<noteq> order_version ord" for u r n
    by (rule takes_conflict [OF that(2-5) read _ item_kept [OF that(1) own(2) it] refl]) (use short in simp_all)
  fix t1 r now
  assume t1: "undisturbed C own t t1" and r: "find_order oid t1 = Some r" "order_evolves ord r"
    "order_version r = order_version ord"
  note same = order_evolves_same [OF r(2,3)]
  let ?x = "Inl (InsufficientStockError (item_id it) (quantity ord) (stock_quantity it)) :: exn + order option"
  let ?s = "fresh_session\<lparr>executed := executed fresh_session @ [UpdateOrder oid REJECTED (order_version ord + 1) now]\<rparr>"
  have "takes_place env C M (PostOrderAction oid ConfirmAction) (k ?x) (insert (OrderRow oid) own) ?s t1 None"
  proof (rule concludes_commits [OF k])
    fix u
    assume u: "undisturbed C (insert (OrderRow oid) own) t1 u"
    have rows: "find_order oid u = Some r" by (rule undisturbedD(4) [OF u insertI1 r(1)])
    have "find_item (order_item_id r) u = Some it"
      using item_kept [OF undisturbed_trans [OF t1 undisturbed_mono [OF subset_insertI u]] own(2) it] same by simp
    moreover have "stock_quantity it + - quantity ord < 0" using short(2) by simp
    ultimately show "let s' = inventory_of (apply_statements (executed ?s) u) in \<exists>new.
        unused (PostOrderAction oid ConfirmAction) new (inventory_of u) \<and>
        tells (PostOrderAction oid ConfirmAction) new s' (reply_of (PostOrderAction oid ConfirmAction) (transition_outcome ?x)) \<and>
        endpoint_step True new (PostOrderAction oid ConfirmAction) (inventory_of u) =
        (status_of (PostOrderAction oid ConfirmAction) (transition_outcome ?x), s')"
      using act_moves(2) [OF rows, of it ConfirmAction CONFIRMED "- quantity ord"] short(1) same
      by (simp add: Let_def unused_def tells_def inventory_status [OF rows])
  qed simp_all
  then show "takes_place env C M (PostOrderAction oid ConfirmAction) (settle (Finished ?x) k) (insert (OrderRow oid) own) ?s t1 None"
    by simp
qed (use short in simp_all)

text \<open>The item of the order, locked: the order is still as it was seen or has moved on.\<close>

lemma lin_lock_seen:
  fixes env :: "'r env" and k :: "exn + menu_item option \<Rightarrow> ('r, body) proc"
  assumes seen: "order_seen own oid ord t"
    and going: "\<And>t' it. audited_but C t' \<Longrightarrow> order_seen (insert (ItemRow (order_item_id ord)) own) oid ord t' \<Longrightarrow>
      find_item (order_item_id ord) t' = Some it \<Longrightarrow>
      takes_place env C M e (k (Inr (Some it))) (insert (ItemRow (order_item_id ord)) own) fresh_session t' None"
  shows "takes_place env C M e (settle (await_on (item_row (order_item_id ord)) (item_get_by_id_with_lock (order_item_id ord))) k)
    own fresh_session t None"
proof (rule lin_lock_item, goal_cases)
  case (1 t2 n)
  obtain r where r: "find_order oid t2 = Some r" "order_evolves ord r" "OrderRow oid \<in> own \<longrightarrow> r = ord"
    by (rule seen_later [OF seen 1(2)])
  have "order_item_id r = order_item_id ord" using r(2) by (simp add: order_evolves_def)
  then show ?case using audited_item(1) [OF 1(1) r(1)] 1(3) by simp
next
  case (2 t2 n it)
  have "order_seen (insert (ItemRow (order_item_id ord)) own) oid ord t2"
    by (rule order_seen_more_locks [OF order_seen_undisturbed [OF seen 2(2)]]) simp
  from going [OF 2(1) this 2(3)] show ?case by (rule decides_going)
qed

lemma lin_confirm:
  fixes env :: "'r env"
  assumes k: "concludes env k transition_outcome" and own: "OrderRow oid \<in> C \<or> OrderRow oid \<in> own"
  shows "takes_place env C M (PostOrderAction oid ConfirmAction) (settle (confirm_proc env cache oid) k) own fresh_session t None"
  unfolding confirm_proc_def
proof (rule lin_read_order [OF k, where a = ConfirmAction, unfolded action_target.simps])
  fix ord t1
  assume ord: "find_order oid t1 = Some ord" and read: "read_at M oid ord" and a1: "audited_but C t1"
    and can: "can_transition_to (status ord) CONFIRMED"
  then have pending: "status ord = PENDING" by (cases "status ord") simp_all
  let ?own = "insert (ItemRow (order_item_id ord)) own"
  show "takes_place env C M (PostOrderAction oid ConfirmAction) (settle (confirm_steps env cache oid ord) k) own fresh_session t1 None"
    unfolding confirm_steps_def proc_then_def settle_settle
  proof (rule lin_lock_seen [OF order_seen_now [OF ord]])
    fix t2 it
    assume seen: "order_seen ?own oid ord t2" and it: "find_item (order_item_id ord) t2 = Some it"
    have rows: "OrderRow oid \<in> C \<or> OrderRow oid \<in> ?own" "ItemRow (order_item_id ord) \<in> ?own" using own by simp_all
    have id: "order_id ord = oid" by (rule found_order_id [OF ord])
    note reject = lin_reject [OF k rows seen read it pending]
    note deduct = lin_change_and_move [OF k rows seen read it, where a = ConfirmAction and d = "- quantity ord"]
    show "takes_place env C M (PostOrderAction oid ConfirmAction) (settle (case Inr (Some it) of Inl e \<Rightarrow> Finished (Inl e)
        | Inr locked \<Rightarrow> (case locked of None \<Rightarrow> Finished (Inl (NotFoundError ''MenuItem'' (order_item_id ord)))
          | Some item \<Rightarrow> if stock_quantity item < quantity ord then reject_steps env oid ord item
              else deduct_steps env cache oid ord item)) k) ?own fresh_session t2 None"
      using reject deduct pending
      by (cases "stock_quantity it < quantity ord") (simp_all add: deduct_steps_change [OF id])
  qed
qed

lemma lin_cancel:
  fixes env :: "'r env"
  assumes k: "concludes env k transition_outcome" and own: "OrderRow oid \<in> C \<or> OrderRow oid \<in> own"
  shows "takes_place env C M (PostOrderAction oid CancelAction) (settle (cancel_proc env cache oid) k) own fresh_session t None"
  unfolding cancel_proc_def
proof (rule lin_read_order [OF k, where a = CancelAction, unfolded action_target.simps])
  fix ord t1
  assume ord: "find_order oid t1 = Some ord" and read: "read_at M oid ord" and a1: "audited_but C t1"
    and can: "can_transition_to (status ord) CANCELLED"
  let ?own = "insert (ItemRow (order_item_id ord)) own"
  let ?next = "transition_steps env oid (order_version ord) CANCELLED"
  note now = order_seen_now [OF ord]
  show "takes_place env C M (PostOrderAction oid CancelAction) (settle (cancel_steps env cache oid ord) k) own fresh_session t1 None"
  proof (cases "status ord \<in> stock_holding_states")
    case False
    then have "status ord = PENDING" using can by (cases "status ord") (simp_all add: stock_holding_states_def)
    then show ?thesis
      using False lin_plain_transition [OF k own now read, of CancelAction CANCELLED]
      by (simp add: cancel_steps_def proc_then_def)
  next
    case True
    then have held: "next_status CancelAction (status ord) = Some CANCELLED"
        "stock_delta CancelAction (status ord) (quantity ord) = quantity ord"
      using can by (cases "status ord"; simp add: stock_holding_states_def)+
    have "takes_place env C M (PostOrderAction oid CancelAction) (settle (proc_then (restore_proc env cache oid ord) (\<lambda>_. ?next)) k)
        own fresh_session t1 None"
      unfolding restore_proc_def proc_then_def settle_settle
    proof (rule lin_lock_seen [OF now], goal_cases)
      case (1 t2 it)
      have rows: "OrderRow oid \<in> C \<or> OrderRow oid \<in> ?own" "ItemRow (order_item_id ord) \<in> ?own" using own by simp_all
      have id: "order_id ord = oid" by (rule found_order_id [OF ord])
      have "item_types_ok it \<and> item_checks_ok it" by (rule schema_ok_item [OF audited_butD(1) [OF 1(1)] 1(3)])
      then have pos: "0 \<le> stock_quantity it + quantity ord"
        using audited_item(3) [OF a1 ord] by (simp add: item_checks_ok_def)
      from lin_change_and_move [OF k rows 1(2) read 1(3) held pos, where kind = RESTORATION and why = "restoration_reason oid" and cache = cache]
      show ?case
        by (simp add: restore_steps_change [OF id] proc_then_def settle_settle settle_after_unit)
    qed
    then show ?thesis using True by (simp add: cancel_steps_def)
  qed
qed

lemma lin_transition:
  fixes env :: "'r env"
  assumes k: "concludes env k transition_outcome" and own: "OrderRow oid \<in> C \<or> OrderRow oid \<in> own" and "a = ShipAction \<or> a = DeliverAction"
  shows "takes_place env C M (PostOrderAction oid a) (settle (transition_proc env oid (action_target a)) k) own fresh_session t None"
  unfolding transition_proc_def
proof (rule lin_read_order [OF k])
  fix ord t1
  assume ord: "find_order oid t1 = Some ord" and read: "read_at M oid ord"
    and "can_transition_to (status ord) (action_target a)"
  moreover from this(3) assms(3) have "next_status a (status ord) = Some (action_target a)"
      "stock_delta a (status ord) (quantity ord) = 0"
    by (auto simp: next_status_transition)
  ultimately show "takes_place env C M (PostOrderAction oid a)
      (settle (transition_steps env oid (order_version ord) (action_target a)) k) own fresh_session t1 None"
    by (intro lin_plain_transition [OF k own order_seen_now read])
qed

lemma lin_action:
  assumes "concludes env k transition_outcome" and "OrderRow oid \<in> C \<or> OrderRow oid \<in> own"
  shows "takes_place env C M (PostOrderAction oid a) (settle (action_proc env cache a oid) k) own fresh_session t None"
  using lin_confirm [OF assms] lin_cancel [OF assms] lin_transition [OF assms, of ShipAction]
    lin_transition [OF assms, of DeliverAction]
  by (cases a) simp_all

end
