(* ===== verification/Linear_Items.thy ===== *)
theory Linear_Items
  imports Linear_Requests
begin

text \<open>
  The other requests take effect as steps of the abstract inventory as well: adjustment,
  placement, the creation of an item, the stock read, also through the cache, and the queries.
\<close>

section \<open>Outcomes\<close>

definition service_outcome :: "('a \<Rightarrow> body) \<Rightarrow> (exn \<Rightarrow> exn) \<Rightarrow> exn + 'a \<Rightarrow> exn + body" where
  "service_outcome f g r = (case r of Inl x \<Rightarrow> Inl (g x) | Inr a \<Rightarrow> Inr (f a))"

lemma service_outcome_simps [simp]:
  "service_outcome f g (Inl x) = Inl (g x)" "service_outcome f g (Inr a) = Inr (f a)"
  by (simp_all add: service_outcome_def)

lemma settle_service:
  "settle (proc_body f (proc_mapped g p)) k = settle p (\<lambda>r. k (service_outcome f g r))"
  "settle (proc_body f p) k = settle p (\<lambda>r. k (service_outcome f id r))"
proof -
  have "(\<lambda>r. settle (case r of Inl x \<Rightarrow> Finished (Inl (g x)) | Inr a \<Rightarrow> Finished (Inr a))
      (\<lambda>r. settle (case r of Inl x \<Rightarrow> Finished (Inl x) | Inr a \<Rightarrow> Finished (Inr (f a))) k)) =
      (\<lambda>r. k (service_outcome f g r))"
    by (rule ext) (simp split: sum.split)
  then show "settle (proc_body f (proc_mapped g p)) k = settle p (\<lambda>r. k (service_outcome f g r))"
    by (simp only: proc_body_def proc_then_def proc_mapped_def settle_settle)
  have "(\<lambda>r. settle (case r of Inl x \<Rightarrow> Finished (Inl x) | Inr a \<Rightarrow> Finished (Inr (f a))) k) =
      (\<lambda>r. k (service_outcome f id r))"
    by (rule ext) (simp split: sum.split)
  then show "settle (proc_body f p) k = settle p (\<lambda>r. k (service_outcome f id r))"
    by (simp only: proc_body_def proc_then_def settle_settle)
qed

lemma status_of_simps [simp]:
  "status_of e (Inl (HTTPException code detail)) = code" "status_of e (Inr b) = success_status e"
  "status_of e (Inl RequestValidationError) = 422" "status_of e (Inl InvalidOperation) = 500"
  by (simp_all add: status_of_def json_response_def)

lemma committing_simps [simp]:
  "committing (Inl (HTTPException code detail))" "committing (Inr b)"
  by (simp_all add: committing_def)

lemma committed_response: "committing (Inr b)"
  by (simp add: committing_def)

lemma told_rows [simp]:
  "ir_id (item_response it) = item_id it" "ir_stock_quantity (item_response it) = stock_quantity it"
  "sr_item_id (stock_response it) = item_id it" "sr_stock_quantity (stock_response it) = stock_quantity it"
  "la_id (low_stock_alert it) = item_id it" "la_stock_quantity (low_stock_alert it) = stock_quantity it"
  "or_id (order_response r) = order_id r" "or_item_id (order_response r) = order_item_id r"
  "or_quantity (order_response r) = quantity r" "or_status (order_response r) = status r"
  by (simp_all add: item_response_def stock_response_def low_stock_alert_def order_response_def)

section \<open>Adjustment and placement\<close>

lemma lin_adjust_change:
  fixes env :: "'r env"
  assumes k: "concludes env k (service_outcome (ItemBody \<circ> item_response) adjust_error)"
    and valid: "item_stock_adjust_valid b" and it: "find_item iid t = Some it" and own: "ItemRow iid \<in> own"
    and pos: "0 \<le> stock_quantity it + sa_delta b"
  shows "takes_place env C M (PatchItemStock iid b) (settle (write_steps env cache it (changed_item it (sa_delta b))
      (change_record it (sa_delta b) None ADJUSTMENT (sa_reason b))) k) own fresh_session t None"
proof -
  have iid: "item_id it = iid" by (rule found_item_id [OF it])
  show ?thesis
  proof (rule lin_change [where oid = None and kind = ADJUSTMENT], goal_cases)
    case (7 t' n)
    then show ?case
      using item_kept [OF 7(2) own it] by (intro takes_effect_refusal) (simp add: refusable_def)
  next
    case (8 x own' s' t')
    then show ?case by (intro concludes_failed [OF k]) (auto simp: status_of_def)
  next
    case (9 own' s' t' mid created now)
    show ?case
    proof (rule concludes_commits [OF k])
      fix u
      assume u: "undisturbed C own' t' u"
      have row: "find_item iid u = Some it"
        by (rule item_kept [OF undisturbed_trans [OF 9(4) undisturbed_mono [OF 9(2) u]] own it])
      then have item: "find_item (item_id it) u = Some it" by (simp add: iid)
      let ?r = "Inr ((changed_item it (sa_delta b))\<lparr>item_updated_at := now\<rparr>)"
      show "let s' = inventory_of (apply_statements (executed s') u) in \<exists>new.
          unused (PatchItemStock iid b) new (inventory_of u) \<and>
          tells (PatchItemStock iid b) new s' (reply_of (PatchItemStock iid b) (service_outcome (ItemBody \<circ> item_response) adjust_error ?r)) \<and>
          endpoint_step True new (PatchItemStock iid b) (inventory_of u) =
          (status_of (PatchItemStock iid b) (service_outcome (ItemBody \<circ> item_response) adjust_error ?r), s')"
        using pos valid row inventory_change [OF item] 9(1) iid
        by (simp add: Let_def change_owned_def unused_def change_stock_def stock_of_def tells_def restrict_single)
    qed (use 9(1,5) in \<open>simp_all add: change_owned_def\<close>)
  qed (use it own pos iid in \<open>simp_all add: change_record_def stock_movement_init_def records_change_def\<close>)
qed

lemma lin_adjust:
  fixes env :: "'r env"
  assumes k: "concludes env k (service_outcome (ItemBody \<circ> item_response) adjust_error)"
    and valid: "item_stock_adjust_valid b"
  shows "takes_place env C M (PatchItemStock iid b) (settle (adjust_proc env cache iid (sa_delta b) (sa_reason b)) k) own
    fresh_session t None"
  unfolding adjust_proc_def proc_then_def settle_settle
proof (rule lin_lock_item, goal_cases)
  case (1 t1 n)
  have "takes_effect env C M (PatchItemStock iid b) n t1 (404, NothingTold) (inventory_of t1)"
    using 1(3) valid by (intro takes_effect_error) (simp_all add: change_stock_def stock_of_def)
  then show ?case by (simp add: decides_answer [OF k])
next
  case (2 t1 n it)
  let ?own = "insert (ItemRow iid) own" and ?d = "sa_delta b"
  show ?case
  proof (cases "stock_quantity it + ?d < 0")
    case True
    then have "takes_effect env C M (PatchItemStock iid b) n t1 (422, NothingTold) (inventory_of t1)"
      using 2(3) valid by (intro takes_effect_error) (simp_all add: change_stock_def stock_of_def)
    then show ?thesis by (simp add: Let_def True decides_answer [OF k])
  next
    case False
    have "0 \<le> stock_quantity it + ?d" using False by simp
    note lin_adjust_change [OF k valid 2(3) insertI1 this, where cache = cache]
    moreover have "it\<lparr>stock_quantity := stock_quantity it + ?d, item_version := item_version it + 1\<rparr> = changed_item it ?d"
      by (simp add: changed_item_def)
    ultimately show ?thesis
      using False by (simp add: Let_def change_fold(4) decides_going)
  qed
qed

text \<open>Whether an order can be inserted does not change once its key is locked.\<close>

lemma insert_order_fault_kept:
  assumes u: "undisturbed C own t t'" and own: "OrderKey (order_id r) \<in> own" and item: "find_item (order_item_id r) t \<noteq> None"
  shows "statement_fault t' (InsertOrder r) = None \<longleftrightarrow> statement_fault t (InsertOrder r) = None"
proof -
  have "find_item (order_item_id r) t' \<noteq> None" by (rule evolves_find(1) [OF undisturbedD(1) [OF u] item])
  moreover have "find_order (order_id r) t' = None \<longleftrightarrow> find_order (order_id r) t = None"
    using undisturbedD(5) [OF u own] evolves_find(2) [OF undisturbedD(1) [OF u]] by blast
  then have "order_id r \<in> order_id ` set (order_rows t') \<longleftrightarrow> order_id r \<in> order_id ` set (order_rows t)"
    by (simp add: find_order_None_iff)
  ultimately show ?thesis using item by (auto simp: statement_fault.simps)
qed

lemma lin_insert_order:
  fixes env :: "'r env"
  assumes k: "concludes env k (service_outcome (OrderBody \<circ> order_response) not_found_error)"
    and valid: "order_create_valid b" and own: "OrderKey (order_id r) \<in> own"
    and r: "order_item_id r = oc_item_id b" "quantity r = oc_quantity b" "status r = PENDING"
    and item: "find_item (order_item_id r) t \<noteq> None"
    and c: "c = (if statement_fault t (InsertOrder r) = None then None else Some refused)"
  shows "takes_place env C M (PostOrder b) (settle (await_on (order_share r) (insert_order r)) k) own fresh_session t c"
proof (rule lin.linear_call, goal_cases)
  case (1 w)
  note w = 1
  note same = insert_order_fault_kept [OF w(3) own item]
  show ?case
  proof (cases "statement_fault (db w) (InsertOrder r)")
    case None
    let ?s = "fresh_session\<lparr>executed := [InsertOrder r]\<rparr>"
    have here: "find_item (order_item_id r) (db w) \<noteq> None" by (rule evolves_find(1) [OF undisturbedD(1) [OF w(3)] item])
    have "takes_place env C M (PostOrder b) (k (Inr r)) own ?s (db w) None"
    proof (rule concludes_commits [OF k])
      fix u
      assume u: "undisturbed C own (db w) u"
      have fault: "statement_fault u (InsertOrder r) = None" using insert_order_fault_kept [OF u own here] None by simp
      have "find_item (oc_item_id b) u \<noteq> None" "find_order (order_id r) u = None"
        using evolves_find(1) [OF undisturbedD(1) [OF u] here] fault r(1)
        by (simp_all add: statement_fault.simps find_order_None_iff split: if_splits)
      with inventory_placed [OF fault] valid r
      show "let s' = inventory_of (apply_statements (executed ?s) u) in \<exists>new. unused (PostOrder b) new (inventory_of u) \<and>
          tells (PostOrder b) new s' (reply_of (PostOrder b) (service_outcome (OrderBody \<circ> order_response) not_found_error (Inr r))) \<and>
          endpoint_step True new (PostOrder b) (inventory_of u) =
          (status_of (PostOrder b) (service_outcome (OrderBody \<circ> order_response) not_found_error (Inr r)), s')"
        unfolding Let_def
        by (intro exI [of _ "order_id r"])
           (auto simp: unused_def stock_of_def order_summary_def tells_def restrict_single)
    qed simp_all
    then show ?thesis
      using w(1) None same by (simp add: c wp_insert_order view_nothing log_statement_def)
  next
    case (Some e)
    then have "takes_place env C M (PostOrder b) (k (Inl e)) own' (sess (break_session w)) (db w) (Some refused)" for own'
      using statement_fault_kind [OF Some] w(1)
      by (intro concludes_failed [OF k]) (auto simp: status_of_def break_session_def)
    then show ?thesis using w(1) Some same by (auto simp: c wp_insert_order view_nothing)
  qed
qed

lemma lin_draw_order:
  fixes env :: "'r env"
  assumes k: "concludes env k (service_outcome (OrderBody \<circ> order_response) not_found_error)"
    and valid: "order_create_valid b" and item: "find_item (oc_item_id b) t \<noteq> None"
  shows "takes_place env C M (PostOrder b) (settle (await_on (order_key env)
      (draw_order env (order_init (oc_item_id b) (oc_quantity b) (Some PENDING) (oc_customer_ref b))))
      (\<lambda>r. settle (case r of Inl e \<Rightarrow> Finished (Inl e)
        | Inr drawn \<Rightarrow> await_on (order_share drawn) (insert_order drawn)) k)) own fresh_session t None"
proof (rule lin.linear_call, goal_cases)
  case (1 w)
  note w = 1
  let ?r = "new_order env (oc_item_id b) (oc_quantity b) (oc_customer_ref b) w"
  have key: "order_key env w = Some (OrderKey (order_id ?r))"
    using w(1) by (simp add: order_key_def next_key_def to_write_def)
  have fields: "order_item_id ?r = oc_item_id b" "quantity ?r = oc_quantity b" by (simp_all add: new_order_def order_init_def)
  obtain x where here: "find_item (oc_item_id b) (db w) = Some x"
    using evolves_find(1) [OF undisturbedD(1) [OF w(3)] item] by blast
  have "takes_effect env C M (PostOrder b) (calls w) (db w) refused (inventory_of (db w))"
    if "statement_fault (db w) (InsertOrder ?r) \<noteq> None"
  proof (rule takes_effect_refusal)
    show "refusable env (calls w) (PostOrder b) (db w)"
      using place_accepted [OF valid _ here, of env w] that by (auto simp: refusable_def)
  qed
  with lin_insert_order [OF k valid, of ?r "insert (OrderKey (order_id ?r)) own" "db w", OF insertI1 fields _ _ refl] here
  show ?case
    using w(1) by (cases "statement_fault (db w) (InsertOrder ?r) = None") (auto simp: key wp_draw_order fields)
qed

lemma lin_place:
  fixes env :: "'r env"
  assumes k: "concludes env k (service_outcome (OrderBody \<circ> order_response) not_found_error)"
    and valid: "order_create_valid b"
  shows "takes_place env C M (PostOrder b) (settle (place_proc env (oc_item_id b) (oc_quantity b) (oc_customer_ref b)) k) own
    fresh_session t None"
  unfolding place_proc_def proc_then_def settle_settle
proof (rule lin_reads, goal_cases)
  case (1 w1)
  note w1 = 1
  show ?case
  proof (cases "find_item (oc_item_id b) (db w1)")
    case None
    then have "takes_effect env C M (PostOrder b) (calls w1) (db w1) (404, NothingTold) (inventory_of (db w1))"
      using valid by (intro takes_effect_error) (simp_all add: stock_of_def)
    with None w1(1) show ?thesis by (simp add: wp_item_get_by_id view_nothing decides_answer [OF k])
  next
    case (Some it)
    with w1(1) lin_draw_order [OF k valid, of "db w1"] show ?thesis
      by (simp add: wp_item_get_by_id view_nothing decides_going settle_settle)
  qed
qed

section \<open>Creation\<close>

abbreviation create_outcome :: "ItemCreate \<Rightarrow> exn + menu_item \<Rightarrow> exn + body" where
  "create_outcome b \<equiv> service_outcome (ItemBody \<circ> item_response) (create_error (ic_name b))"

text \<open>A refused statement ends the request with 500, also where the error is mapped to 409.\<close>

lemma create_refused:
  assumes k: "concludes env k (create_outcome b)" and "pending s = []" "broken s"
    and f: "statement_fault t' st = Some x"
  shows "takes_place env C M (PostItem b) (k (Inl x)) own s t (Some refused)"
  using statement_fault_kind [OF f] by (intro concludes_failed [OF assms(1-3)]) (auto simp: status_of_def)

lemma first_movement_fault:
  assumes "statement_fault t (InsertItem it) = None"
    and "statement_fault (apply_statement (InsertItem it) t) (InsertMovement m) \<noteq> None"
    and "records_change (it\<lparr>stock_quantity := 0\<rparr>) (stock_quantity it) None ADJUSTMENT m"
  shows "mv_id m \<in> mv_id ` set (stock_movements t)"
  using assms find_item_inserted [OF assms(1)]
  by (auto simp: statement_fault.simps records_change_def movement_types_ok_def item_types_ok_def int4_def table_simps
      split: if_splits)

lemma lin_first_movement:
  fixes env :: "'r env"
  assumes k: "concludes env k (create_outcome b)"
    and s: "executed s = [InsertItem it]" "pending s = []" "\<not> broken s"
    and free: "statement_fault t (InsertItem it) = None"
    and own: "ItemKey (item_id it) \<in> own" "ItemName (item_name it) \<in> own"
    and valid: "item_create_valid b" "stock_quantity it = ic_stock_quantity b"
  shows "takes_place env C M (PostItem b) (settle (first_movement_steps env cache it (stock_quantity it)) k) own s t None"
  unfolding first_movement_steps_def proc_then_def settle_settle
proof (rule lin_calls, goal_cases)
  case (1 w)
  note w = 1
  let ?m = "stock_movement_init (item_id it) None ADJUSTMENT (stock_quantity it) 0 (stock_quantity it)
      (Some initial_stock_reason) (env_uuid4 env (calls w)) (env_utc_now env (Suc (calls w)))"
  have m: "records_change (it\<lparr>stock_quantity := 0\<rparr>) (stock_quantity it) None ADJUSTMENT ?m" "mv_id ?m = env_uuid4 env (calls w)"
    by (simp_all add: records_change_def stock_movement_init_def)
  have view: "view w = apply_statement (InsertItem it) (db w)" using s(1) w(1) by (simp add: view_def)
  note free' = insert_item_undisturbed [OF free w(3) own]
  show ?case
  proof (cases "statement_fault (apply_statement (InsertItem it) (db w)) (InsertMovement ?m)")
    case None
    let ?own = "own \<union> lock_set (first_movement_key env w)" and ?s = "s\<lparr>executed := [InsertItem it, InsertMovement ?m]\<rparr>"
    have "takes_place env C M (PostItem b) (k (Inr it)) ?own ?s t' None" if t': "undisturbed C ?own (db w) t'" for t'
    proof (rule concludes_commits [OF k])
      fix u
      assume u: "undisturbed C ?own t' u"
      have fault: "statement_fault u (InsertItem it) = None"
        by (rule insert_item_undisturbed [OF free' undisturbed_trans [OF t' u]]) (use own in auto)
      from inventory_created [OF fault, of ?m] fault valid
      show "let s' = inventory_of (apply_statements (executed ?s) u) in \<exists>new. unused (PostItem b) new (inventory_of u) \<and>
          tells (PostItem b) new s' (reply_of (PostItem b) (create_outcome b (Inr it))) \<and>
          endpoint_step True new (PostItem b) (inventory_of u) = (status_of (PostItem b) (create_outcome b (Inr it)), s')"
        unfolding Let_def
        by (intro exI [of _ "item_id it"])
           (simp add: unused_def insert_item_fault item_absent_find stock_of_def tells_def restrict_single)
    qed (use s in simp_all)
    then have "takes_place env C M (PostItem b) (settle (await (cache_set_stock env cache (item_id it) (stock_quantity it)))
        (\<lambda>r. settle (case r of Inl e \<Rightarrow> Finished (Inl e) | Inr _ \<Rightarrow> Finished (Inr it)) k)) ?own ?s (db w) None"
      by (intro lin_reads_on) (simp add: wp_cache_set_stock)
    then show ?thesis
      using s w(1) None
      by (simp add: create_movement_def wp_rules set_pending_idem view log_statement_def decides_going settle_settle)
  next
    case (Some x)
    have "env_uuid4 env (calls w) \<in> mv_id ` set (stock_movements (db w))"
      using first_movement_fault [OF free' _ m(1)] Some m(2) by simp
    then have "refusable env (calls w) (PostItem b) (db w)" by (simp add: refusable_def)
    moreover have "takes_place env C M (PostItem b) (k (Inl x)) own' (sess (break_session w)) (db w) (Some refused)" for own'
      using s w(1) by (intro create_refused [OF k _ _ Some]) (simp_all add: break_session_def)
    ultimately have "decides env C M (PostItem b) (k (Inl x)) own' (sess (break_session w)) (calls w) (db w)" for own'
      by (blast intro: decides_code takes_effect_refusal)
    then show ?thesis
      using s w(1) Some
      by (simp add: create_movement_def wp_rules set_pending_idem view break_session_def)
  qed
qed

text \<open>The insertion of the drawn row: the name decides, unless the row could never be inserted.\<close>

definition insertable :: "menu_item \<Rightarrow> tables \<Rightarrow> bool" where
  "insertable it t \<longleftrightarrow> item_types_ok it \<and> item_checks_ok it \<and> item_absent (item_id it) t"

lemma insert_fault_name:
  assumes "insertable it t"
  shows "statement_fault t (InsertItem it) \<noteq> None \<longleftrightarrow> item_name it \<in> item_name ` set (menu_items t)"
  using assms by (simp add: insert_item_fault insertable_def name_absent_def)

lemma never_insertable:
  assumes "\<not> insertable it t" and "undisturbed C own t t'"
  shows "statement_fault t' (InsertItem it) \<noteq> None"
  using assms(1) evolves_find(1) [OF undisturbedD(1) [OF assms(2)]]
  by (auto simp: insertable_def insert_item_fault item_absent_find)

lemma lin_insert_item:
  fixes env :: "'r env"
  assumes k: "concludes env k (create_outcome b)" and own: "ItemKey (item_id it) \<in> own"
    and valid: "item_create_valid b" "stock_quantity it = ic_stock_quantity b" "item_name it = ic_name b"
    and c: "c = (if insertable it t then None else Some refused)"
    and K: "K = (\<lambda>r. settle (case r of Inl e \<Rightarrow> Finished (Inl e)
        | Inr item \<Rightarrow> first_movement_steps env cache item (stock_quantity it)) k)"
  shows "takes_place env C M (PostItem b) (settle (await_on (\<lambda>w. Some (ItemName (item_name it))) (insert_item it)) K)
      own fresh_session t c"
proof (rule lin.linear_call, goal_cases)
  case (1 w)
  note w = 1
  let ?own = "insert (ItemName (item_name it)) own"
  have refused: "takes_place env C M (PostItem b) (K (Inl x)) ?own (sess (break_session w)) (db w) (Some refused)"
    if "statement_fault (db w) (InsertItem it) = Some x" for x
    using create_refused [OF k _ _ that] w(1) by (simp add: K break_session_def)
  show ?case
  proof (cases "insertable it t")
    case False
    then obtain x where x: "statement_fault (db w) (InsertItem it) = Some x"
      using never_insertable [OF _ w(3)] by blast
    then show ?thesis
      using w(1) refused [OF x] False by (simp add: wp_insert_item view_nothing c)
  next
    case True
    then have ok: "insertable it (db w)"
      using undisturbedD(7) [OF w(3) own] by (simp add: insertable_def)
    show ?thesis
    proof (cases "statement_fault (db w) (InsertItem it)")
      case None
      have "takes_place env C M (PostItem b) (K (Inr it)) ?own (fresh_session\<lparr>executed := [InsertItem it]\<rparr>) (db w) None"
        using lin_first_movement [OF k, of "fresh_session\<lparr>executed := [InsertItem it]\<rparr>" it "db w" ?own C M cache] None own valid
        by (simp add: K)
      then show ?thesis
        using w(1) None True by (simp add: wp_insert_item view_nothing c) (simp add: log_statement_def)
    next
      case (Some x)
      then have "\<not> fits env (calls w) (PostItem b) (db w)"
        using insert_fault_name [OF ok] valid(3) by simp
      then have "takes_effect env C M (PostItem b) (calls w) (db w) refused (inventory_of (db w))"
        by (intro takes_effect_refusal) (simp add: refusable_def)
      with w(1) Some True refused [OF Some] show ?thesis by (auto simp: wp_insert_item view_nothing c)
    qed
  qed
qed

lemma lin_create:
  fixes env :: "'r env"
  assumes k: "concludes env k (create_outcome b)" and valid: "item_create_valid b"
  shows "takes_place env C M (PostItem b) (settle (create_proc env cache (ic_name b) (price_cents b) (ic_stock_quantity b)
      (ic_description b) (ic_low_stock_threshold b)) k) own fresh_session t None"
  unfolding create_proc_def proc_then_def settle_settle
proof (rule lin.linear_call, goal_cases)
  case (1 w)
  note w = 1
  let ?it = "item_of_body env b w"
  have it: "menu_item_init (ic_name b) (ic_description b) (price_cents b) (Some (ic_stock_quantity b))
      (Some (ic_low_stock_threshold b)) None
      (env_uuid4 env (calls w)) (env_utc_now env (Suc (calls w))) (env_utc_now env (Suc (Suc (calls w)))) = ?it"
    by (simp add: item_of_body_def new_item_def eval_nat_numeral)
  have row: "stock_quantity ?it = ic_stock_quantity b" "item_name ?it = ic_name b"
    by (simp_all add: item_of_body_def)
  have key: "item_key env w = Some (ItemKey (item_id ?it))"
    using w(1) by (simp add: item_key_def next_key_def to_write_def item_of_body_def)
  note insert = lin_insert_item [OF k _ valid row refl refl, where own = "insert (ItemKey (item_id ?it)) own"
      and t = "db w" and cache = cache, OF insertI1, unfolded row(1)]
  have "takes_effect env C M (PostItem b) (calls w) (db w) refused (inventory_of (db w))" if "\<not> insertable ?it (db w)"
  proof (rule takes_effect_refusal)
    have "\<not> fits env (calls w) (PostItem b) (db w)"
      using create_accepted(1) [OF valid, of "db w" env w] that
      by (auto simp: insertable_def insert_item_fault)
    then show "refusable env (calls w) (PostItem b) (db w)" by (simp add: refusable_def)
  qed
  with insert w(1) show ?case
    by (cases "insertable ?it (db w)")
       (auto simp: key draw_item_def wp_rules set_pending_idem it settle_settle)
qed

section \<open>Reads\<close>

abbreviation close_request :: "'r env \<Rightarrow> exn + body \<Rightarrow> ('r, body) proc" where
  "close_request env \<equiv> (\<lambda>r. await_on pending_row (end_request env r))"

lemma concludes_close: "concludes env (close_request env) id"
  by (simp add: concludes_def)

lemma decides_close:
  "takes_effect env C M e n t (reply_of e r) (inventory_of t) \<Longrightarrow>
     decides env C M e (await_on pending_row (end_request env r)) own fresh_session n t"
  using decides_answer [OF concludes_close, of fresh_session env C M e n t r own] by simp

text \<open>An answer that needs no call: the body or the query does not validate.\<close>

lemma closes_now:
  assumes "\<And>n t'. takes_effect env C M e n t' (reply_of e (Inl x)) (inventory_of t')" and "\<not> is_HTTPException x"
  shows "takes_place env C M e (await_on pending_row (end_request env (Inl x))) own fresh_session t None"
  by (rule concludes_end [OF concludes_close]) (use assms in \<open>simp_all add: committing_def Let_def\<close>)

text \<open>The end of a stock read that has assigned a quantity: nothing to write, or the row is written.\<close>

lemma lin_end_unassigned:
  assumes k: "concludes env k h" and p: "assigns p s" "patch_stock p = None"
  shows "takes_place env C M e (k r) own s t (Some (reply_of e (h r)))"
proof -
  have "takes_place env C M e (settle (await_on pending_row (end_request env (h r))) Finished) own s t (Some (reply_of e (h r)))"
  proof (rule lin.linear_call, goal_cases)
    case (1 w)
    with p have "assigns p (sess w)" by simp
    from wp_mono [OF end_request_assigned [OF this, of env "h r"]] p(2) show ?case by (simp add: wp_def split: prod.splits)
  qed
  then show ?thesis using k by (simp add: concludes_def settle_Finished)
qed

lemma assignment_fault:
  assumes "schema_ok t" and "find_item i t = Some it"
  shows "statement_fault t (UpdateItem i (Some q) None now) = None \<longleftrightarrow> 0 \<le> q \<and> int4 q"
  using assms schema_ok_item [OF assms]
  by (auto simp: statement_fault.simps Let_def item_types_ok_def item_checks_ok_def set_item_columns_def)

lemma inventory_assigned:
  "find_item i t \<noteq> None \<Longrightarrow> inventory_of (apply_statement (UpdateItem i (Some q) None now) t) =
     (inventory_of t)\<lparr>inv_stock := (inv_stock (inventory_of t))(i \<mapsto> q)\<rparr>"
  by (intro inventory_eqI) (auto simp: stock_of_def table_simps set_item_columns_def)

lemma lin_end_assigned:
  assumes k: "concludes env k h" and p: "assigns p s" "patch_stock p = Some q" "patch_id p = i"
    and C: "ItemRow i \<in> C" and item: "find_item i t \<noteq> None"
    and told: "(n, t0, rd) \<in> M" "cached (get_cache env) i rd = Some q"
    and reply: "committing (h r)" "reply_of (GetStock i) (h r) = (200, StockTold [i \<mapsto> q])"
  shows "takes_place env C M (GetStock i) (k r) own s t None"
proof -
  have "takes_place env C M (GetStock i) (settle (await_on pending_row (end_request env (h r))) Finished) own s t None"
  proof (rule lin.linear_await, goal_cases)
    case (1 w)
    note w = 1
    let ?u = "UpdateItem i (Some q) None (env_utc_now env (calls w))"
    have a: "assigns p (sess w)" using p(1) w(1) by simp
    have u: "assignment env p w = ?u" using p(2,3) by simp
    obtain it where it: "find_item i (db w) = Some it" using evolves_find(1) [OF undisturbedD(1) [OF w(3)] item] by blast
    note fault = assignment_fault [OF audited_butD(1) [OF w(2)] it]
    have effect: "takes_effect env C M (GetStock i) (calls w) (db w)
        (if statement_fault (db w) ?u = None then (200, StockTold [i \<mapsto> q]) else refused)
        (inventory_of (if statement_fault (db w) ?u = None then apply_statement ?u (db w) else db w))"
    proof -
      have "cached_read env M i (inventory_of (db w))
          (if statement_fault (db w) ?u = None then (200, StockTold [i \<mapsto> q]) else refused)
          (inventory_of (if statement_fault (db w) ?u = None then apply_statement ?u (db w) else db w))"
        unfolding cached_read_def using told it fault [of q "env_utc_now env (calls w)"]
        by (intro conjI exI [of _ n] exI [of _ t0] exI [of _ rd] exI [of _ q]) (auto simp: stock_of_def inventory_assigned)
      then show ?thesis using C by (auto simp: takes_effect_def)
    qed
    have five: "reply_of (GetStock i) (Inl x) = refused" if "statement_fault (db w) ?u = Some x" for x
      using statement_fault_kind [OF that] by (auto simp: status_of_def)
    show ?case
    proof (rule wp_mono [OF end_request_assigned [OF a, of env "h r"]], goal_cases)
      case (1 r' w')
      then show ?case
        using effect five reply p(2) u
        by (cases "statement_fault (db w) ?u") (auto simp: lin.takes_def simp del: split_paired_Ex)
    qed
  qed
  then show ?thesis using k by (simp add: concludes_def settle_Finished)
qed

lemma lin_assign:
  fixes env :: "'r env"
  assumes k: "concludes env k (service_outcome (StockBody \<circ> stock_response) not_found_error)"
    and C: "ItemRow iid \<in> C" and it: "find_item iid t = Some it"
    and told: "(n, t0, rd) \<in> M" "cached (get_cache env) iid rd = Some q"
  shows "takes_place env C M (GetStock iid) (settle (await (session_modify it (it\<lparr>stock_quantity := q\<rparr>))) (\<lambda>r. settle
      (case r of Inl e \<Rightarrow> Finished (Inl e) | Inr _ \<Rightarrow> Finished (Inr (it\<lparr>stock_quantity := q\<rparr>))) k)) own fresh_session t
      (if q = stock_quantity it then Some (200, StockTold [iid \<mapsto> q]) else None)"
  unfolding await_def
proof (rule lin.linear_call, goal_cases)
  case (1 w)
  note w = 1
  let ?it = "it\<lparr>stock_quantity := q\<rparr>"
  let ?p = "patch_of it ?it"
  have iid: "item_id it = iid" by (rule found_item_id [OF it])
  have p: "assigns ?p (fresh_session\<lparr>pending := [?p]\<rparr>)" "patch_id ?p = iid"
    "patch_stock ?p = (if q = stock_quantity it then None else Some q)"
    using iid by (simp_all add: assigns_def patch_of_def)
  have s: "sess (set_pending [?p] w) = fresh_session\<lparr>pending := [?p]\<rparr>" using w(1) by (simp add: set_pending_def)
  have item: "find_item iid (db w) \<noteq> None" using evolves_find(1) [OF undisturbedD(1) [OF w(3)]] it by blast
  have "takes_place env C M (GetStock iid) (k (Inr ?it)) own (fresh_session\<lparr>pending := [?p]\<rparr>) (db w)
      (if q = stock_quantity it then Some (200, StockTold [iid \<mapsto> q]) else None)"
  proof (cases "q = stock_quantity it")
    case True
    with lin_end_unassigned [OF k p(1), of C M "GetStock iid" "Inr ?it"] p(3) iid show ?thesis by simp
  next
    case False
    with lin_end_assigned [OF k p(1) _ p(2) C item told] p(3) iid show ?thesis by simp
  qed
  then show ?case using w(1) s by (simp add: wp_session_modify)
qed

lemma lin_read_row:
  fixes env :: "'r env"
  assumes k: "concludes env k (service_outcome (StockBody \<circ> stock_response) not_found_error)"
    and q: "q = None \<or> ItemRow iid \<in> C \<and> (\<exists>n t0 rd. (n, t0, rd) \<in> M \<and> cached (get_cache env) iid rd = q)"
  shows "takes_place env C M (GetStock iid) (settle (await (item_get_by_id iid)) (\<lambda>r. settle (case r of Inl e \<Rightarrow> Finished (Inl e)
      | Inr row \<Rightarrow> (case row of None \<Rightarrow> Finished (Inl (NotFoundError ''MenuItem'' iid))
        | Some item \<Rightarrow> (case q of None \<Rightarrow> Finished (Inr item)
          | Some n \<Rightarrow> settle (await (session_modify item (item\<lparr>stock_quantity := n\<rparr>)))
              (\<lambda>r. case r of Inl e \<Rightarrow> Finished (Inl e) | Inr _ \<Rightarrow> Finished (Inr (item\<lparr>stock_quantity := n\<rparr>)))))) k))
      own fresh_session t None"
proof (rule lin_reads, goal_cases)
  case (1 w)
  note w = 1
  show ?case
  proof (cases "find_item iid (db w)")
    case None
    then have "takes_effect env C M (GetStock iid) (calls w) (db w) (404, NothingTold) (inventory_of (db w))"
      by (intro takes_effect_error) (simp_all add: stock_of_def found_def)
    with None w(1) show ?thesis by (simp add: wp_item_get_by_id view_nothing decides_answer [OF k])
  next
    case (Some it)
    then have "takes_effect env C M (GetStock iid) (calls w) (db w) (200, StockTold [iid \<mapsto> stock_quantity it]) (inventory_of (db w))"
      by (intro takes_effect_answer) (simp_all add: stock_of_def found_def tells_def restrict_single)
    note now = this
    show ?thesis
    proof (cases q)
      case None
      with Some w(1) now found_item_id [OF Some] show ?thesis
        by (simp add: wp_item_get_by_id view_nothing decides_answer [OF k])
    next
      case q': (Some n)
      obtain m t0 rd where "(m, t0, rd) \<in> M" "cached (get_cache env) iid rd = Some n" "ItemRow iid \<in> C" using q q' by blast
      note assigned = lin_assign [OF k this(3) Some this(1,2)]
      have "decides env C M (GetStock iid) (settle (await (session_modify it (it\<lparr>stock_quantity := n\<rparr>))) (\<lambda>r. settle
          (case r of Inl e \<Rightarrow> Finished (Inl e) | Inr _ \<Rightarrow> Finished (Inr (it\<lparr>stock_quantity := n\<rparr>))) k)) own fresh_session
          (calls w) (db w)"
        using assigned now by (cases "n = stock_quantity it") (auto intro: decides_code decides_going)
      with Some q' w(1) show ?thesis by (simp add: wp_item_get_by_id view_nothing settle_settle)
    qed
  qed
qed

lemma lin_read_stock:
  fixes env :: "'r env"
  assumes k: "concludes env k (service_outcome (StockBody \<circ> stock_response) not_found_error)"
    and C: "get_cache env = None \<or> ItemRow iid \<in> C"
  shows "takes_place env C M (GetStock iid) (settle (get_stock_proc (get_cache env) iid) k) own fresh_session t None"
  unfolding get_stock_proc_def proc_then_def settle_settle
proof (rule lin_reads, goal_cases)
  case (1 w)
  have "cached (get_cache env) iid (redis w) = None \<or> ItemRow iid \<in> C \<and>
      (\<exists>n t0 rd. (n, t0, rd) \<in> M \<and> cached (get_cache env) iid rd = cached (get_cache env) iid (redis w))"
    using C 1(4) by (auto simp: cached_def)
  from lin_read_row [OF k this] 1(1) show ?case
    by (simp add: wp_cache_get_stock settle_settle decides_going)
qed

text \<open>A query of a report: it goes on, is answered, or its sum does not fit the decimal context.\<close>

lemma lin_report:
  fixes env :: "'r env" and m :: "('r, 'b) io"
  assumes "\<And>w. sess w = fresh_session \<Longrightarrow> audited_but C (db w) \<Longrightarrow> wp m (\<lambda>r w'. db w' = db w \<and> sess w' = fresh_session \<and>
      (case r of Inl x \<Rightarrow> x = InvalidOperation \<and> \<not> sums_fit (db w)
       | Inr a \<Rightarrow> decides env C M e (K (Inr a)) own fresh_session (calls w) (db w))) w"
    and "\<And>n t'. fits env n e t' \<longleftrightarrow> sums_fit t'"
    and "K (Inl InvalidOperation) = close_request env (Inl InvalidOperation)"
  shows "takes_place env C M e (settle (await m) K) own fresh_session t None"
proof (rule lin_reads, goal_cases)
  case (1 w)
  have "decides env C M e (K (Inl InvalidOperation)) own fresh_session (calls w) (db w)" if "\<not> sums_fit (db w)"
    unfolding assms(3)
    using that assms(2) takes_effect_refusal [of env "calls w" e "db w" C M]
    by (intro decides_close) (simp add: refusable_def)
  then show ?case
    by (intro wp_mono [OF assms(1) [OF 1(1,2)]]) (auto split: sum.splits)
qed

lemma sums_refused:
  assumes "schema_ok t"
  shows "dec_quantize2 (coalesce_sum_numeric (\<lambda>it. item_price it * stock_quantity it) (menu_items t)) = None \<Longrightarrow> \<not> sums_fit t"
    and "dec_quantize2 (order_value_sum (orders_joined st since t)) = None \<Longrightarrow> \<not> sums_fit t"
  using summary_sums_fit [OF assms] by auto

lemma lin_order_report:
  fixes env :: "'r env"
  assumes fit: "\<And>n t'. fits env n e t' \<longleftrightarrow> sums_fit t'"
    and K: "K (Inl InvalidOperation) = close_request env (Inl InvalidOperation)"
    and last: "\<And>a n t'. decides env C M e (K (Inr a)) own fresh_session n t'"
  shows "takes_place env C M e (settle (order_report_proc env days) K) own fresh_session t None"
  unfolding order_report_proc_def proc_then_def settle_settle
proof (rule lin_report [OF _ fit], goal_cases)
  case (1 w)
  have "takes_place env C M e (settle (await (and_then (session_read (orders_joined DELIVERED since)) (\<lambda>rev_rows.
       quantized (order_value_sum rev_rows)))) (\<lambda>r. settle (case r of Inl e \<Rightarrow> Finished (Inl e) | Inr amount \<Rightarrow>
     await (and_then (session_read (orders_joined CANCELLED since)) (\<lambda>refund_rows.
       and_then (quantized (order_value_sum refund_rows)) (\<lambda>refund. done_with (g amount refund))))) K)) own fresh_session (db w) None" for since g
  proof (rule lin_report [OF _ fit], goal_cases)
    case (1 v)
    have "takes_place env C M e (settle (await (and_then (session_read (orders_joined CANCELLED since)) (\<lambda>refund_rows.
       and_then (quantized (order_value_sum refund_rows)) (\<lambda>refund. done_with (g' refund))))) K) own fresh_session (db v) None" for g'
    proof (rule lin_report [OF _ fit], goal_cases)
      case (1 u)
      then show ?case using sums_refused [OF audited_butD(1) [OF 1(2)]] last by (auto simp: wp_rules view_nothing split: option.split)
    qed (simp add: K)
    with 1(1) sums_refused [OF audited_butD(1) [OF 1(2)]] show ?case
      by (auto simp: wp_rules view_nothing decides_going split: option.split)
  qed (simp add: K)
  with 1(1) show ?case by (simp add: wp_rules view_nothing decides_going settle_settle)
qed (simp add: K)

text \<open>The detail of an order: its status is that of the first query, which decides the answer.\<close>

lemma lin_detail_rest:
  fixes env :: "'r env"
  assumes ord: "find_order oid t = Some ord"
    and reply: "reply = (200, OrdersTold [oid \<mapsto> order_summary ord])"
    and f: "\<And>item price amount movements. od_id (f item price amount movements) = order_id ord \<and>
      od_item_id (f item price amount movements) = order_item_id ord \<and>
      od_quantity (f item price amount movements) = quantity ord \<and> od_status (f item price amount movements) = status ord"
  shows "takes_place env C M (GetOrder oid) (settle (await (item_get_by_id (order_item_id ord))) (\<lambda>r. settle (case r of
      Inl e \<Rightarrow> Finished (Inl e) | Inr item \<Rightarrow> await (and_then (list_movements_for_order oid) (\<lambda>movements.
         let price = (case item of None \<Rightarrow> Dec 0 0 | Some it \<Rightarrow> money (item_price it))
         in case dec_quantize2 (dec_mult price (dec_of_int (quantity ord))) of
              None \<Rightarrow> raise_exn InvalidOperation
            | Some amount \<Rightarrow> done_with (f item price amount movements))))
      (\<lambda>r. close_request env (service_outcome OrderDetailBody not_found_error r)))) own fresh_session t (Some reply)"
    (is "takes_place _ _ _ _ (settle _ (\<lambda>r. settle _ ?K)) _ _ _ _")
proof (rule lin_reads_on, goal_cases)
  case (1 v)
  note v = 1
  obtain r where r: "find_order oid (db v) = Some r" "order_evolves ord r"
    using undisturbedD(1) [OF v(3)] ord unfolding evolves_def by blast
  then have same: "order_item_id r = order_item_id ord" "quantity r = quantity ord" by (auto simp: order_evolves_def)
  obtain it where it: "find_item (order_item_id r) (db v) = Some it" using audited_item(1) [OF v(2) r(1)] by auto
  note amount = order_detail_sum [OF audited_butD(1) [OF v(2)] r(1) it, unfolded same]
  have "takes_place env C M (GetOrder oid) (?K (Inr (f item price total ms))) own fresh_session t' (Some reply)"
    for item price total ms t'
    using concludes_answered [OF concludes_close, where s = fresh_session and e = "GetOrder oid"
      and r = "Inr (OrderDetailBody (f item price total ms))" and own = own and t = t']
      f [of item price total ms] found_order_id [OF ord] by (simp add: reply order_summary_def)
  then have "takes_place env C M (GetOrder oid) (settle (await (and_then (list_movements_for_order oid) (\<lambda>movements.
      done_with (f item price total movements)))) ?K) own fresh_session (db v) (Some reply)" for item price total
    by (intro lin_reads_on) (simp add: list_movements_for_order_def wp_rules view_nothing)
  with v(1) it same amount show ?case by (simp add: wp_item_get_by_id view_nothing Let_def)
qed

lemma lin_detail:
  fixes env :: "'r env"
  shows "takes_place env C M (GetOrder oid) (settle (detail_proc oid) (\<lambda>r. close_request env
      (service_outcome OrderDetailBody not_found_error r))) own fresh_session t None"
  unfolding detail_proc_def proc_then_def settle_settle
proof (rule lin_reads, goal_cases)
  case (1 w)
  note w = 1
  show ?case
  proof (cases "find_order oid (db w)")
    case None
    then have "takes_effect env C M (GetOrder oid) (calls w) (db w) (404, NothingTold) (inventory_of (db w))"
      by (intro takes_effect_error) (simp_all add: found_def)
    with None w(1) show ?thesis by (simp add: wp_order_get_by_id view_nothing decides_close)
  next
    case (Some ord)
    have "takes_effect env C M (GetOrder oid) (calls w) (db w) (200, OrdersTold [oid \<mapsto> order_summary ord]) (inventory_of (db w))"
      using Some by (intro takes_effect_answer) (simp_all add: found_def tells_def restrict_single)
    note decided = decides_code [OF lin_detail_rest [OF Some refl] this]
    show ?thesis
      using Some w(1) by (simp add: wp_order_get_by_id view_nothing settle_settle) (rule decided, simp)
  qed
qed

lemma lin_movements:
  fixes env :: "'r env"
  shows "takes_place env C M (GetStockMovements iid) (settle (movements_proc iid limit) (\<lambda>r. close_request env
      (service_outcome (MovementsBody \<circ> f) not_found_error r))) own fresh_session t None"
  unfolding movements_proc_def proc_then_def settle_settle
proof (rule lin_reads, goal_cases)
  case (1 w)
  note w = 1
  show ?case
  proof (cases "find_item iid (db w)")
    case None
    then have "takes_effect env C M (GetStockMovements iid) (calls w) (db w) (404, NothingTold) (inventory_of (db w))"
      by (intro takes_effect_error) (simp_all add: found_def stock_of_def)
    with None w(1) show ?thesis by (simp add: wp_item_get_by_id view_nothing decides_close)
  next
    case (Some it)
    have "takes_place env C M (GetStockMovements iid) (settle (await (list_movements_for_item iid limit))
        (\<lambda>r. close_request env (service_outcome (MovementsBody \<circ> f) not_found_error r))) own fresh_session (db w) None"
    proof (rule lin_reads, goal_cases)
      case (1 v)
      have "find_item iid (db v) \<noteq> None" using evolves_find(1) [OF undisturbedD(1) [OF 1(3)]] Some by simp
      then have "takes_effect env C M (GetStockMovements iid) (calls v) (db v) (200, NothingTold) (inventory_of (db v))"
        by (intro takes_effect_answer) (simp_all add: found_def stock_of_def tells_def)
      with 1(1) show ?case by (simp add: list_movements_for_item_def wp_rules view_nothing decides_close)
    qed
    with Some w(1) show ?thesis by (simp add: wp_item_get_by_id view_nothing decides_going)
  qed
qed

text \<open>The rows of a selection, as maps.\<close>

lemma map_of_rows: "map_of (map (\<lambda>r. (key r, f r)) rows) k = map_option f (row_lookup key k rows)"
  by (induction rows) auto

lemma map_of_selection:
  assumes "distinct (map key rows)" and "set sel \<subseteq> set rows"
  shows "map_of (map (\<lambda>r. (key r, f r)) sel) \<subseteq>\<^sub>m (\<lambda>k. map_option f (row_lookup key k rows))"
  unfolding map_le_def
proof (rule ballI)
  fix k
  assume "k \<in> dom (map_of (map (\<lambda>r. (key r, f r)) sel))"
  then obtain x where x: "map_of (map (\<lambda>r. (key r, f r)) sel) k = Some x" by blast
  then obtain r where r: "r \<in> set rows" "key r = k" "x = f r" using assms(2) by (fastforce dest: map_of_SomeD)
  then show "map_of (map (\<lambda>r. (key r, f r)) sel) k = map_option f (row_lookup key k rows)"
    using x row_lookup_distinct [OF assms(1) r(1)] by simp
qed

lemma told_selection:
  assumes "schema_ok t"
  shows "set its \<subseteq> set (menu_items t) \<Longrightarrow>
      map_of (map (\<lambda>it. (item_id it, stock_quantity it)) its) \<subseteq>\<^sub>m inv_stock (inventory_of t)"
    and "set rs \<subseteq> set (order_rows t) \<Longrightarrow>
      map_of (map (\<lambda>r. (order_id r, order_summary r)) rs) \<subseteq>\<^sub>m inv_orders (inventory_of t)"
    and "map_of (map (\<lambda>it. (item_id it, stock_quantity it)) (all_items_by_name env t)) = inv_stock (inventory_of t)"
proof -
  have d: "distinct (map item_id (menu_items t))" "distinct (map order_id (order_rows t))"
    using assms by (simp_all add: schema_ok_def)
  have stock: "inv_stock (inventory_of t) = (\<lambda>k. map_option stock_quantity (row_lookup item_id k (menu_items t)))"
    by (simp add: fun_eq_iff stock_of_def find_item_def)
  have orders: "inv_orders (inventory_of t) = (\<lambda>k. map_option order_summary (row_lookup order_id k (order_rows t)))"
    by (simp add: fun_eq_iff find_order_def)
  show sel: "map_of (map (\<lambda>it. (item_id it, stock_quantity it)) its) \<subseteq>\<^sub>m inv_stock (inventory_of t)"
    if "set its \<subseteq> set (menu_items t)" for its
    unfolding stock by (rule map_of_selection [OF d(1) that])
  show "map_of (map (\<lambda>r. (order_id r, order_summary r)) rs) \<subseteq>\<^sub>m inv_orders (inventory_of t)"
    if "set rs \<subseteq> set (order_rows t)"
    unfolding orders by (rule map_of_selection [OF d(2) that])
  let ?m = "map_of (map (\<lambda>it. (item_id it, stock_quantity it)) (all_items_by_name env t))"
  show "?m = inv_stock (inventory_of t)"
  proof (rule map_le_antisym)
    show "?m \<subseteq>\<^sub>m inv_stock (inventory_of t)" by (rule sel) (simp add: all_items_by_name_def)
    have "distinct (map item_id (all_items_by_name env t))"
      using d(1) by (simp add: all_items_by_name_def distinct_map inj_on_def)
    moreover have "set (menu_items t) \<subseteq> set (all_items_by_name env t)" by (simp add: all_items_by_name_def)
    ultimately have "map_of (map (\<lambda>it. (item_id it, stock_quantity it)) (menu_items t)) \<subseteq>\<^sub>m ?m"
      unfolding map_of_rows [abs_def] by (rule map_of_selection [unfolded map_of_rows [abs_def]])
    then show "inv_stock (inventory_of t) \<subseteq>\<^sub>m ?m" by (simp only: stock map_of_rows [abs_def])
  qed
qed

lemma list_answered:
  assumes "schema_ok t"
  shows "decides env C M GetItems (await_on pending_row (end_request env
      (Inr (ItemsBody (map item_response (all_items_by_name env t)))))) own fresh_session n t"
    and "decides env C M (GetOrders q) (await_on pending_row (end_request env
      (Inr (OrdersBody (map order_response (orders_matching st d d' c t)))))) own fresh_session n t"
    and "decides env C M GetStockAlertsLow (await_on pending_row (end_request env
      (Inr (AlertsBody (map low_stock_alert (low_stock_items t)))))) own fresh_session n t"
  using told_selection [OF assms]
  by (intro decides_close takes_effect_answer;
      auto simp: tells_def comp_def orders_matching_def low_stock_items_def order_summary_def [symmetric])+

lemma report_answered:
  "days_valid days \<Longrightarrow> decides env C M (GetAnalyticsOrders days) (await_on pending_row (end_request env (Inr (OrderAnalyticsBody a)))) own fresh_session n t"
  "days_valid days \<Longrightarrow> decides env C M (GetAnalyticsSummary days) (await_on pending_row (end_request env (Inr (SummaryBody b)))) own fresh_session n t"
  "days_valid days \<Longrightarrow> decides env C M (GetAnalyticsMovements days) (await_on pending_row (end_request env (Inr (MovementAnalyticsBody c)))) own fresh_session n t"
  "decides env C M GetAnalyticsStock (await_on pending_row (end_request env (Inr (StockAnalyticsBody d)))) own fresh_session n t"
  by (intro decides_close takes_effect_answer; simp add: in_period_def tells_def)+

lemma days_refused:
  assumes "\<not> days_valid days" and "e = GetAnalyticsOrders days \<or> e = GetAnalyticsSummary days \<or> e = GetAnalyticsMovements days"
  shows "takes_place env C M e (await_on pending_row (end_request env (Inl RequestValidationError))) own fresh_session t None"
  using assms by (intro closes_now takes_effect_answer) (auto simp: in_period_def tells_def)

lemma lin_get_item:
  fixes env :: "'r env"
  shows "takes_place env C M (GetItem iid) (settle (await (get_item iid)) (\<lambda>r. close_request env
      (service_outcome (ItemBody \<circ> item_response) not_found_error r))) own fresh_session t None"
proof (rule lin_reads, goal_cases)
  case (1 w)
  have "takes_effect env C M (GetItem iid) (calls w) (db w) (case find_item iid (db w) of
      None \<Rightarrow> (404, NothingTold) | Some it \<Rightarrow> (200, StockTold [iid \<mapsto> stock_quantity it])) (inventory_of (db w))"
    by (cases "find_item iid (db w)"; intro takes_effect_answer)
       (simp_all add: stock_of_def found_def tells_def restrict_single)
  with 1(1) found_item_id [of iid "db w"] show ?case
    by (cases "find_item iid (db w)") (simp_all add: get_item_def wp_rules view_nothing decides_close)
qed

lemma lin_summary:
  fixes env :: "'r env"
  assumes "days_valid days"
  shows "takes_place env C M (GetAnalyticsSummary days) (settle (await get_stock_analytics) (\<lambda>r. settle (case r of
      Inl e \<Rightarrow> Finished (Inl e) | Inr s \<Rightarrow> proc_then (order_report_proc env days) (\<lambda>orders.
         proc_body (\<lambda>m. SummaryBody \<lparr>as_stock = s, as_orders = orders, as_movements = m\<rparr>)
           (await (get_movement_analytics env days)))) (close_request env))) own fresh_session t None"
proof (rule lin_report, goal_cases)
  case (1 w)
  have "takes_place env C M (GetAnalyticsSummary days) (settle (proc_body (\<lambda>m. SummaryBody (g m)) (await (get_movement_analytics env days)))
      (close_request env)) own fresh_session t' None" for g t'
    unfolding settle_service(2)
    by (rule lin_reads) (simp add: get_movement_analytics_def wp_rules view_nothing report_answered assms)
  then have "takes_place env C M (GetAnalyticsSummary days) (settle (proc_then (order_report_proc env days)
      (\<lambda>orders. proc_body (\<lambda>m. SummaryBody (g orders m)) (await (get_movement_analytics env days)))) (close_request env)) own fresh_session t' None" for g t'
    unfolding proc_then_def settle_settle by (intro lin_order_report) (simp_all add: decides_going)
  with 1(1) sums_refused(1) [OF audited_butD(1) [OF 1(2)]] show ?case
    by (auto simp: get_stock_analytics_def wp_rules view_nothing decides_going split: option.split)
qed simp_all

lemma lin_query:
  fixes env :: "'r env"
  shows "takes_place env C M (query_endpoint q) (settle (query_proc env q) (close_request env)) own fresh_session t None"
proof (cases q)
  case ListItems
  then show ?thesis
    by (simp add: settle_service(2)) (rule lin_reads; simp add: list_items_def wp_rules view_nothing list_answered audited_butD(1))
next
  case (ReadItem iid)
  with lin_get_item show ?thesis by (simp add: settle_service(1))
next
  case (ListOrders f)
  then show ?thesis
    by (simp add: settle_service(2)) (rule lin_reads; simp add: list_orders_def wp_rules view_nothing list_answered audited_butD(1))
next
  case (ReadOrder oid)
  with lin_detail show ?thesis by (simp add: settle_service(1))
next
  case ListAlerts
  then show ?thesis
    by (simp add: settle_service(2)) (rule lin_reads; simp add: get_low_stock_items_def wp_rules view_nothing list_answered audited_butD(1))
next
  case (ListMovements iid)
  with lin_movements show ?thesis by (simp add: settle_service(1))
next
  case (SummaryReport days)
  show ?thesis
  proof (cases "days_valid days")
    case True
    with lin_summary [OF True] show ?thesis
      by (simp only: SummaryReport query_proc.simps query_endpoint.simps proc_then_def settle_settle not_True_eq_False if_False)
  qed (simp add: SummaryReport days_refused)
next
  case StockReport
  have "takes_place env C M GetAnalyticsStock (settle (await get_stock_analytics) (\<lambda>r. close_request env
        (service_outcome StockAnalyticsBody id r))) own fresh_session t None"
  proof (rule lin_report, goal_cases)
    case (1 w)
    with sums_refused(1) [OF audited_butD(1) [OF 1(2)]] show ?case
      by (auto simp: get_stock_analytics_def wp_rules view_nothing report_answered split: option.split)
  qed simp_all
  then show ?thesis by (simp add: StockReport settle_service(2))
next
  case (OrderReport days)
  have "takes_place env C M (GetAnalyticsOrders days) (settle (order_report_proc env days) (\<lambda>r. close_request env
      (service_outcome OrderAnalyticsBody id r))) own fresh_session t None" if "days_valid days"
    by (rule lin_order_report) (simp_all add: report_answered that)
  then show ?thesis by (cases "days_valid days") (simp_all add: OrderReport settle_service(2) days_refused)
next
  case (MovementReport days)
  have "takes_place env C M (GetAnalyticsMovements days) (settle (await (get_movement_analytics env days)) (\<lambda>r. close_request env
      (service_outcome MovementAnalyticsBody id r))) own fresh_session t None" if "days_valid days"
    by (rule lin_reads) (simp add: get_movement_analytics_def wp_rules view_nothing report_answered that)
  then show ?thesis by (cases "days_valid days") (simp_all add: MovementReport settle_service(2) days_refused)
qed

section \<open>Every request\<close>

lemma body_refused:
  assumes "\<And>new s. endpoint_step True new e s = (422, s)"
  shows "takes_place env C M e (await_on pending_row (end_request env (Inl RequestValidationError))) own fresh_session t None"
  by (intro closes_now takes_effect_answer) (simp_all add: assms tells_def)

lemma concludes_service: "concludes env (\<lambda>r. close_request env (h r)) h"
  by (simp add: concludes_def)

lemma lin_request:
  fixes env :: "'r env"
  assumes q: "\<And>i. reads_through_cache env q i \<Longrightarrow> ItemRow i \<in> C" and own: "\<And>oid. acts_on q oid \<Longrightarrow> OrderRow oid \<in> C \<or> OrderRow oid \<in> own"
  shows "takes_place env C M (request_endpoint q) (request_proc env q) own fresh_session t None"
proof (cases q)
  case (TransitionOrder oid a)
  from lin_action [OF concludes_service, where env = env and oid = oid and own = own and a = a and cache = "get_cache env" and t = t] own TransitionOrder
  have "takes_place env C M (PostOrderAction oid a) (settle (action_proc env (get_cache env) a oid)
      (\<lambda>r. close_request env (transition_outcome r))) own fresh_session t None" by simp
  moreover have "(\<lambda>r. settle (case r of Inl e \<Rightarrow> Finished (Inl (transition_error e)) | Inr a \<Rightarrow> Finished (Inr a))
      (\<lambda>r. settle (case r of Inl e \<Rightarrow> Finished (Inl e) | Inr x \<Rightarrow> (case x of None \<Rightarrow> Finished (Inl ResponseValidationError)
        | Some y \<Rightarrow> Finished (Inr (OrderBody (order_response y))))) (close_request env))) =
      (\<lambda>r. close_request env (transition_outcome r))"
    by (rule ext) (simp add: transition_outcome_def split: sum.split option.split)
  ultimately show ?thesis
    by (simp only: TransitionOrder request_proc_def endpoint_proc.simps request_endpoint.simps proc_then_def proc_mapped_def
        settle_settle)
next
  case (AdjustStock iid b)
  with lin_adjust [OF concludes_service, where env = env and b = b and iid = iid and cache = "get_cache env" and own = own and t = t] show ?thesis
    by (cases "item_stock_adjust_valid b") (simp_all add: request_proc_def settle_service(1) body_refused)
next
  case (PlaceOrder b)
  with lin_place [OF concludes_service, where b = b and env = env and own = own and t = t] show ?thesis
    by (cases "order_create_valid b") (simp_all add: request_proc_def settle_service(1) body_refused)
next
  case (CreateItem b)
  with lin_create [OF concludes_service, where env = env and b = b and cache = "get_cache env" and own = own and t = t] show ?thesis
    by (cases "item_create_valid b") (simp_all add: request_proc_def settle_service(1) body_refused)
next
  case (ReadStock iid)
  have "get_cache env = None \<or> ItemRow iid \<in> C" using q [of iid] by (cases "get_cache env") (simp_all add: ReadStock)
  from lin_read_stock [OF concludes_service this, where own = own and t = t] show ?thesis
    by (simp add: ReadStock request_proc_def settle_service(1))
next
  case (Query rq)
  then show ?thesis using lin_query [where env = env and q = rq and own = own and t = t] by (simp add: request_proc_def)
qed

end
