(* ===== verification/Linearizability.thy ===== *)
theory Linearizability
  imports Linear_Items Concurrent_Properties
begin

text \<open>
  Requests that run at the same time are linearizable: every run of the system answers and
  commits what the abstract inventory answers and keeps when it takes the requests one after
  the other, except that a request which loses the race for an order takes effect as a
  conflict, and a stock read through the cache as a write of what it answers. What follows for
  customers who want the same stock.
\<close>

section \<open>Every run is a serial order\<close>

definition reply_to :: "client_request \<Rightarrow> ('r, body) client \<Rightarrow> (int \<times> told) option" where
  "reply_to q c = map_option (reply_of (request_endpoint q)) (answer_of c)"

definition answer_code :: "client_request \<Rightarrow> ('r, body) client \<Rightarrow> int option" where
  "answer_code q c = map_option (status_of (request_endpoint q)) (answer_of c)"

lemma reply_to_code: "reply_to q c = Some reply \<Longrightarrow> answer_code q c = Some (fst reply)"
  by (auto simp: reply_to_def answer_code_def reply_of_def)

abbreviation request_effect ::
  "'r env \<Rightarrow> client_request list \<Rightarrow> (nat \<times> tables \<times> 'r) set \<Rightarrow> nat \<Rightarrow> nat \<Rightarrow> tables \<Rightarrow> int \<times> told \<Rightarrow> inventory \<Rightarrow> bool"
  where "request_effect env qs M \<equiv> \<lambda>p. takes_effect env (contested_rows env qs) M (request_endpoint (qs ! p))"

lemma run_is_serial:
  assumes "audit_ok t" and "reaches (start t r n (map (request_proc env) qs)) s" and "all_finished s"
    and M: "M = run_moments (start t r n (map (request_proc env) qs)) s"
  shows "\<exists>H. distinct (map fst H) \<and> fst ` set H = {..<length qs} \<and>
    serial_order inventory_of (request_effect env qs M) M (inventory_of t) H (inventory_of (sys_db s)) \<and>
    (\<forall>(p, reply) \<in> set H. reply_to (qs ! p) (clients s ! p) = Some reply)"
proof -
  let ?start = "start t r n (map (request_proc env) qs)" and ?C = "contested_rows env qs"
  have len: "length (clients s) = length qs"
    using reaches_length [OF assms(2)] by (simp add: start_def)
  have rows: "OrderRow oid \<in> ?C \<or> OrderRow oid \<in> claimed_rows qs p" if "p < length qs" "acts_on (qs ! p) oid" for p oid
    using that by (auto simp: claimed_rows_def)
  have items: "ItemRow i \<in> ?C" if "p < length qs" "reads_through_cache env (qs ! p) i" for p i
    using that nth_mem [OF that(1)] by (auto simp: cached_reads_def)
  have "takes_place env ?C M (request_endpoint (qs ! p)) (map (request_proc env) qs ! p) (claimed_rows qs p)
      fresh_session t None" if "p < length (map (request_proc env) qs)" for p
    using that rows items by simp (rule lin_request, simp_all)
  moreover have "finished (client_proc (clients s ! p))" if "p < length (clients s)" for p
    using assms(3) that by (simp add: all_finished_def list_all_length)
  ultimately show ?thesis
    using lin.run_linearizes [OF assms(2) claimed_shared_out safe_requests [OF assms(1)] M, where step = "request_effect env qs M"
        and code = "\<lambda>p. reply_of (request_endpoint (qs ! p))"] len
    by (simp add: reply_to_def)
qed






section \<open>Customers who want the same stock\<close>

lemma stale_confirmation: "next_status ConfirmAction st \<noteq> None \<Longrightarrow> st = PENDING"
  by (cases st) simp_all

lemma confirm_effect:
  assumes "takes_effect env C M (PostOrderAction oid ConfirmAction) n t (code, a) s"
    and "inv_orders (inventory_of t) oid = Some (i, q, st)" and "inv_stock (inventory_of t) i = Some k"
  obtains "code = 200" and "st = PENDING" and "q \<le> k"
      and "s = (inventory_of t)\<lparr>inv_stock := (inv_stock (inventory_of t))(i \<mapsto> k - q),
                               inv_orders := (inv_orders (inventory_of t))(oid \<mapsto> (i, q, CONFIRMED))\<rparr>"
  | "code = 422" and "st = PENDING" and "k < q"
      and "s = (inventory_of t)\<lparr>inv_orders := (inv_orders (inventory_of t))(oid \<mapsto> (i, q, REJECTED))\<rparr>"
  | "code = 409" and "st \<noteq> PENDING" and "q \<le> k"
      and "s = (inventory_of t)\<lparr>inv_stock := (inv_stock (inventory_of t))(i \<mapsto> k - q)\<rparr>"
  | "s = inventory_of t" and "code = 500 \<or> st \<noteq> PENDING \<and> (code = 422 \<or> code = 409 \<and> k < q)"
proof -
  consider "act_on_order ConfirmAction oid (inventory_of t) = (code, s)"
    | "code = 500" "s = inventory_of t"
    | "code = 409" "conflict_on_order M ConfirmAction oid (inventory_of t) s"
    using assms(1) by (auto simp: takes_effect_def)
  then show thesis
  proof cases
    case 1
    show thesis
    proof (cases "st = PENDING")
      case True
      with 1 assms(2,3) that(1,2) show thesis
        by (cases "k < q") (auto simp: act_on_order_def)
    next
      case False
      then have "next_status ConfirmAction st = None" using stale_confirmation by blast
      with 1 assms(2,3) False that(4) show thesis by (auto simp: act_on_order_def)
    qed
  next
    case 2
    with that(4) show thesis by blast
  next
    case 3
    then obtain old where old: "old < st" "next_status ConfirmAction old \<noteq> None"
      "s = (if k + stock_delta ConfirmAction old q < 0 then inventory_of t
         else (inventory_of t)\<lparr>inv_stock := (inv_stock (inventory_of t))(i \<mapsto> k + stock_delta ConfirmAction old q)\<rparr>)"
      using assms(2,3) by (fastforce simp: conflict_on_order_def)
    have "st \<noteq> PENDING" using stale_confirmation [OF old(2)] old(1) by auto
    with 3(1) old(3) that(3,4) show thesis by (cases "k < q") auto
  qed
qed

abbreviation confirmations :: "uuid list \<Rightarrow> client_request list" where
  "confirmations oids \<equiv> map (\<lambda>oid. TransitionOrder oid ConfirmAction) oids"

definition twice :: "uuid list \<Rightarrow> nat \<Rightarrow> bool" where
  "twice oids p \<longleftrightarrow> (\<exists>p' < length oids. p' \<noteq> p \<and> oids ! p' = oids ! p)"

text \<open>
  Confirmations in order: what is left, what was taken, and who was refused. \<open>D\<close> are the
  conflicts that kept their deduction.
\<close>

definition fair :: "uuid list \<Rightarrow> (uuid \<Rightarrow> int) \<Rightarrow> nat set \<Rightarrow> int \<Rightarrow> nat \<Rightarrow> int \<Rightarrow> bool" where
  "fair oids q D k p code \<longleftrightarrow> code \<in> {200, 409, 422, 500} \<and>
     (code = 409 \<longrightarrow> twice oids p \<and> (p \<in> D \<or> k < q (oids ! p))) \<and>
     (code = 422 \<longrightarrow> twice oids p \<or> k < q (oids ! p))"

definition taken :: "uuid list \<Rightarrow> (uuid \<Rightarrow> int) \<Rightarrow> nat set \<Rightarrow> (nat \<times> int) list \<Rightarrow> int" where
  "taken oids q D H = (\<Sum>(p, code) \<leftarrow> H. if code = 200 \<or> p \<in> D then q (oids ! p) else 0)"

definition once :: "uuid list \<Rightarrow> (nat \<times> int) list \<Rightarrow> bool" where
  "once oids H \<longleftrightarrow> (\<forall>p p'. (p, 200) \<in> set H \<longrightarrow> (p', 200) \<in> set H \<longrightarrow> oids ! p = oids ! p' \<longrightarrow> p = p')"

definition shared :: "int \<Rightarrow> uuid list \<Rightarrow> (uuid \<Rightarrow> int) \<Rightarrow> nat set \<Rightarrow> (nat \<times> int) list \<Rightarrow> int \<Rightarrow> bool" where
  "shared k0 oids q D H k \<longleftrightarrow> 0 \<le> k \<and> D \<subseteq> {p. (p, 409) \<in> set H} \<and> k + taken oids q D H = k0 \<and>
     (\<forall>(p, code) \<in> set H. fair oids q D k p code) \<and> once oids H"

text \<open>The orders: moved on only by a request that has been taken, and away from PENDING by every success.\<close>

definition orders_follow :: "uuid list \<Rightarrow> uuid \<Rightarrow> (uuid \<Rightarrow> int) \<Rightarrow> (nat \<times> int) list \<Rightarrow> inventory \<Rightarrow> bool" where
  "orders_follow oids i q H v \<longleftrightarrow> (\<forall>p < length oids. \<exists>st. inv_orders v (oids ! p) = Some (i, q (oids ! p), st) \<and>
     (st \<noteq> PENDING \<longrightarrow> (\<exists>p' \<in> fst ` set H. oids ! p' = oids ! p)) \<and>
     (st = PENDING \<longrightarrow> (\<forall>p'. (p', 200) \<in> set H \<longrightarrow> oids ! p' \<noteq> oids ! p)))"

lemma fair_less: "fair oids q D k p code \<Longrightarrow> k' \<le> k \<Longrightarrow> D \<subseteq> D' \<Longrightarrow> fair oids q D' k' p code"
  unfolding fair_def by (meson order_le_less_trans subsetD)

lemma once_append:
  "once oids H \<Longrightarrow> (c = 200 \<Longrightarrow> \<forall>p'. (p', 200) \<in> set H \<longrightarrow> oids ! p' \<noteq> oids ! p) \<Longrightarrow> once oids (H @ [(p, c)])"
  unfolding once_def by auto

lemma taken_append:
  assumes "p \<notin> fst ` set H" and "D \<subseteq> fst ` set H" and "D' = D \<or> D' = insert p D"
  shows "taken oids q D' (H @ [(p, c)]) = taken oids q D H + (if c = 200 \<or> p \<in> D' then q (oids ! p) else 0)"
proof -
  have "x \<noteq> p" if "(x, y) \<in> set H" for x y using that assms(1) by force
  then have "taken oids q D' H = taken oids q D H"
    unfolding taken_def using assms(3)
    by (intro arg_cong [of _ _ sum_list] map_cong refl) auto
  then show ?thesis by (simp add: taken_def)
qed

lemma shared_step:
  assumes sh: "shared k0 oids q D H k" and new: "p \<notin> fst ` set H" and D': "D' = D \<or> c = 409 \<and> D' = insert p D"
    and k': "k' = k - (if c = 200 \<or> p \<in> D' then q (oids ! p) else 0)" "0 \<le> k'" "k' \<le> k"
    and fair: "fair oids q D' k' p c"
    and one: "c = 200 \<Longrightarrow> \<forall>p'. (p', 200) \<in> set H \<longrightarrow> oids ! p' \<noteq> oids ! p"
  shows "shared k0 oids q D' (H @ [(p, c)]) k'"
proof -
  have old: "D \<subseteq> {p. (p, 409) \<in> set H}" "k + taken oids q D H = k0" "once oids H"
    using sh unfolding shared_def by blast+
  have fine: "fair oids q D k x y" if "(x, y) \<in> set H" for x y
    using sh that unfolding shared_def by blast
  have D: "D \<subseteq> fst ` set H" using old(1) by force
  have either: "D' = D \<or> D' = insert p D" "D \<subseteq> D'" using D' by blast+
  have "k' + taken oids q D' (H @ [(p, c)]) = k0"
    using taken_append [OF new D either(1), of oids q c] k'(1) old(2) by simp
  moreover have "fair oids q D' k' x y" if "(x, y) \<in> set (H @ [(p, c)])" for x y
    using that fair fair_less [OF fine k'(3) either(2)] by auto
  moreover have "D' \<subseteq> {x. (x, 409) \<in> set (H @ [(p, c)])}" using old(1) D' by auto
  ultimately show ?thesis
    unfolding shared_def using k'(2) once_append [OF old(3) one] by blast
qed

lemma follow_keeps:
  assumes "orders_follow oids i q H v" and "inv_orders v' = inv_orders v"
    and "c = 200 \<Longrightarrow> False"
  shows "orders_follow oids i q (H @ [(p, c)]) v'"
  unfolding orders_follow_def
proof (intro allI impI)
  fix x
  assume x: "x < length oids"
  obtain st where "inv_orders v (oids ! x) = Some (i, q (oids ! x), st)"
    "st \<noteq> PENDING \<longrightarrow> (\<exists>p' \<in> fst ` set H. oids ! p' = oids ! x)"
    "st = PENDING \<longrightarrow> (\<forall>p'. (p', 200) \<in> set H \<longrightarrow> oids ! p' \<noteq> oids ! x)"
    using assms(1) x unfolding orders_follow_def by blast
  then show "\<exists>st. inv_orders v' (oids ! x) = Some (i, q (oids ! x), st) \<and>
      (st \<noteq> PENDING \<longrightarrow> (\<exists>p' \<in> fst ` set (H @ [(p, c)]). oids ! p' = oids ! x)) \<and>
      (st = PENDING \<longrightarrow> (\<forall>p'. (p', 200) \<in> set (H @ [(p, c)]) \<longrightarrow> oids ! p' \<noteq> oids ! x))"
    using assms(2,3) by (intro exI [of _ st]) auto
qed

lemma follow_moves:
  assumes "orders_follow oids i q H v" and "inv_orders v' = (inv_orders v)(oids ! p \<mapsto> (i, q (oids ! p), st))" and "st \<noteq> PENDING"
  shows "orders_follow oids i q (H @ [(p, c)]) v'"
  unfolding orders_follow_def
proof (intro allI impI)
  fix x
  assume x: "x < length oids"
  obtain s where s: "inv_orders v (oids ! x) = Some (i, q (oids ! x), s)"
    "s \<noteq> PENDING \<longrightarrow> (\<exists>p' \<in> fst ` set H. oids ! p' = oids ! x)"
    "s = PENDING \<longrightarrow> (\<forall>p'. (p', 200) \<in> set H \<longrightarrow> oids ! p' \<noteq> oids ! x)"
    using assms(1) x unfolding orders_follow_def by blast
  show "\<exists>st. inv_orders v' (oids ! x) = Some (i, q (oids ! x), st) \<and>
      (st \<noteq> PENDING \<longrightarrow> (\<exists>p' \<in> fst ` set (H @ [(p, c)]). oids ! p' = oids ! x)) \<and>
      (st = PENDING \<longrightarrow> (\<forall>p'. (p', 200) \<in> set (H @ [(p, c)]) \<longrightarrow> oids ! p' \<noteq> oids ! x))"
  proof (cases "oids ! x = oids ! p")
    case True
    with assms(2,3) show ?thesis by (intro exI [of _ st]) auto
  next
    case False
    with s assms(2) show ?thesis by (intro exI [of _ s]) auto
  qed
qed

lemma confirmations_in_order:
  assumes "serial_order inventory_of (\<lambda>p n t code s. \<exists>a. takes_effect env C M (request_endpoint (confirmations oids ! p)) n t (code, a) s) M v H v'"
    and "distinct (map fst H)" and "fst ` set H \<subseteq> {..<length oids}"
    and "\<And>p. p < length oids \<Longrightarrow> inv_orders v (oids ! p) = Some (i, q (oids ! p), PENDING) \<and> 0 < q (oids ! p)"
    and "inv_stock v i = Some k0" and "0 \<le> k0"
  shows "\<exists>D k. inv_stock v' i = Some k \<and> shared k0 oids q D H k \<and> orders_follow oids i q H v'"
  using assms(1-3)
proof (induction)
  case nobody_yet
  have "shared k0 oids q {} [] k0" using assms(6) by (simp add: shared_def taken_def once_def)
  moreover have "orders_follow oids i q [] v" using assms(4) by (simp add: orders_follow_def)
  ultimately show ?case using assms(5) by blast
next
  case (next_one H t n rd p c v')
  then obtain D k where k: "inv_stock (inventory_of t) i = Some k" and sh: "shared k0 oids q D H k"
    and follow: "orders_follow oids i q H (inventory_of t)"
    by auto
  have p: "p < length oids" "p \<notin> fst ` set H" and H: "fst ` set H \<subseteq> {..<length oids}" using next_one.prems by auto
  obtain st where st: "inv_orders (inventory_of t) (oids ! p) = Some (i, q (oids ! p), st)"
    "st \<noteq> PENDING \<longrightarrow> (\<exists>p' \<in> fst ` set H. oids ! p' = oids ! p)"
    "st = PENDING \<longrightarrow> (\<forall>p'. (p', 200) \<in> set H \<longrightarrow> oids ! p' \<noteq> oids ! p)"
    using follow p(1) unfolding orders_follow_def by blast
  have twice: "twice oids p" if "st \<noteq> PENDING" using that st(2) H p(2) unfolding twice_def by blast
  have pos: "0 < q (oids ! p)" and nonneg: "0 \<le> k" and "D \<subseteq> {p. (p, 409) \<in> set H}"
    using assms(4) [OF p(1)] sh by (simp_all add: shared_def)
  then have out: "p \<notin> D" using p(2) by force
  note step = shared_step [OF sh p(2)]
  obtain a where "takes_effect env C M (PostOrderAction (oids ! p) ConfirmAction) n t (c, a) v'"
    using next_one.hyps(3) p(1) by auto
  from this st(1) k show ?case
  proof (cases rule: confirm_effect)
    case 1
    have "shared k0 oids q D (H @ [(p, c)]) (k - q (oids ! p))"
      by (rule step) (use 1 st(3) pos in \<open>simp_all add: fair_def\<close>)
    moreover have "orders_follow oids i q (H @ [(p, c)]) v'"
      by (rule follow_moves [OF follow, where st = CONFIRMED]) (simp_all add: 1(4))
    ultimately show ?thesis using 1(4) by (intro exI [of _ D] exI [of _ "k - q (oids ! p)"]) simp
  next
    case 2
    have "shared k0 oids q D (H @ [(p, c)]) k"
      by (rule step) (use 2 nonneg out in \<open>simp_all add: fair_def\<close>)
    moreover have "orders_follow oids i q (H @ [(p, c)]) v'"
      by (rule follow_moves [OF follow, where st = REJECTED]) (simp_all add: 2(4))
    ultimately show ?thesis using 2(4) k by (intro exI [of _ D] exI [of _ k]) simp
  next
    case 3
    have "shared k0 oids q (insert p D) (H @ [(p, c)]) (k - q (oids ! p))"
      by (rule step) (use 3 twice pos in \<open>simp_all add: fair_def\<close>)
    moreover have "orders_follow oids i q (H @ [(p, c)]) v'"
      by (rule follow_keeps [OF follow]) (simp_all add: 3(1,4))
    ultimately show ?thesis using 3(4) by (intro exI [of _ "insert p D"] exI [of _ "k - q (oids ! p)"]) simp
  next
    case 4
    have "shared k0 oids q D (H @ [(p, c)]) k"
      by (rule step) (use 4 nonneg out twice in \<open>auto simp: fair_def\<close>)
    moreover have "orders_follow oids i q (H @ [(p, c)]) v'"
      by (rule follow_keeps [OF follow]) (use 4 in auto)
    ultimately show ?thesis using 4(1) k by (intro exI [of _ D] exI [of _ k]) simp
  qed
qed

lemma taken_over_order:
  assumes "distinct (map fst H)" and "fst ` set H = {..<length oids}" and "\<And>p c. (p, c) \<in> set H \<Longrightarrow> code p = Some c"
  shows "taken oids q D H = (\<Sum>p < length oids. if code p = Some 200 \<or> p \<in> D then q (oids ! p) else 0)"
proof -
  have "taken oids q D H = (\<Sum>p \<leftarrow> map fst H. if code p = Some 200 \<or> p \<in> D then q (oids ! p) else 0)"
    unfolding taken_def map_map comp_def by (intro arg_cong [of _ _ sum_list] map_cong) (auto dest: assms(3))
  also have "\<dots> = (\<Sum>p < length oids. if code p = Some 200 \<or> p \<in> D then q (oids ! p) else 0)"
    using sum.distinct_set_conv_list [OF assms(1), of "\<lambda>p. if code p = Some 200 \<or> p \<in> D then q (oids ! p) else 0"] assms(2)
    by (simp add: comp_def)
  finally show ?thesis .
qed

definition ordered_quantity :: "uuid \<Rightarrow> tables \<Rightarrow> int" where
  "ordered_quantity oid t = (case find_order oid t of None \<Rightarrow> 0 | Some r \<Rightarrow> quantity r)"

text \<open>
  C9. Confirmations of pending orders of one item that run at the same time, also several of
  the same order, share its stock. No interleaving oversells it, and it is accounted for:
  what is left, the quantities of the requests answered 200, and those of some requests \<open>D\<close>
  answered 409 add up to the stock before. An order is confirmed at most once; 409 is answered
  only when an order was confirmed by several requests, and keeps its deduction except when
  less than the order's quantity is left; a refused order wanted more than is left, or had been
  confirmed or refused through another request.
\<close>

theorem confirmations_share_stock:
  assumes "audit_ok t" and "find_item i t = Some it"
    and "\<forall>oid \<in> set oids. \<exists>r. find_order oid t = Some r \<and> status r = PENDING \<and> order_item_id r = i"
    and "reaches (start t rd n (map (request_proc env) (confirmations oids))) s"
    and "all_finished s"
    and "code = (\<lambda>p. answer_code (TransitionOrder (oids ! p) ConfirmAction) (clients s ! p))"
  shows "\<exists>left D. stock_of (sys_db s) i = Some left \<and> 0 \<le> left \<and> D \<subseteq> {p. p < length oids \<and> code p = Some 409} \<and>
    left + (\<Sum>p < length oids. if code p = Some 200 \<or> p \<in> D then ordered_quantity (oids ! p) t else 0) = stock_quantity it \<and>
    (\<forall>p < length oids. code p \<in> {Some 200, Some 409, Some 422, Some 500} \<and>
       (code p = Some 409 \<longrightarrow> twice oids p \<and> (p \<in> D \<or> left < ordered_quantity (oids ! p) t)) \<and>
       (code p = Some 422 \<longrightarrow> twice oids p \<or> left < ordered_quantity (oids ! p) t)) \<and>
    (\<forall>p < length oids. \<forall>p' < length oids.
       code p = Some 200 \<and> code p' = Some 200 \<and> oids ! p = oids ! p' \<longrightarrow> p = p')"
proof -
  let ?qs = "confirmations oids" and ?q = "\<lambda>oid. ordered_quantity oid t"
  let ?M = "run_moments (start t rd n (map (request_proc env) ?qs)) s" and ?C = "contested_rows env ?qs"
  obtain G where G: "distinct (map fst G)" "fst ` set G = {..<length ?qs}"
      "serial_order inventory_of (request_effect env ?qs ?M) ?M (inventory_of t) G (inventory_of (sys_db s))"
      "\<forall>(p, reply) \<in> set G. reply_to (?qs ! p) (clients s ! p) = Some reply"
    using run_is_serial [OF assms(1,4,5) refl] by blast
  define H where "H = map (\<lambda>(p, reply). (p, fst reply)) G"
  have fsts: "map fst H = map fst G" by (simp add: H_def case_prod_beta comp_def)
  have H: "distinct (map fst H)" "fst ` set H = {..<length ?qs}"
      "serial_order inventory_of (\<lambda>p n t code s. \<exists>a. takes_effect env ?C ?M (request_endpoint (?qs ! p)) n t (code, a) s)
        ?M (inventory_of t) H (inventory_of (sys_db s))"
      "\<forall>(p, c) \<in> set H. answer_code (?qs ! p) (clients s ! p) = Some c"
  proof -
    show "distinct (map fst H)" using G(1) by (simp only: fsts)
    show "fst ` set H = {..<length ?qs}" using G(2) fsts by (metis set_map)
    show "serial_order inventory_of (\<lambda>p n t code s. \<exists>a. takes_effect env ?C ?M (request_endpoint (?qs ! p)) n t (code, a) s)
        ?M (inventory_of t) H (inventory_of (sys_db s))"
      unfolding H_def by (rule serial_order_map [OF G(3)]) (metis prod.collapse)
    show "\<forall>(p, c) \<in> set H. answer_code (?qs ! p) (clients s ! p) = Some c"
      using G(4) reply_to_code by (fastforce simp: H_def)
  qed
  have codes: "code p = Some c" if "(p, c) \<in> set H" for p c
  proof -
    have "p < length oids" using that H(2) by force
    with that H(4) show ?thesis by (auto simp: assms(6))
  qed
  have taken: "\<exists>c. (p, c) \<in> set H \<and> code p = Some c" if "p < length oids" for p
  proof -
    have "p \<in> fst ` set H" using that H(2) by simp
    then show ?thesis using codes by force
  qed
  have orders: "inv_orders (inventory_of t) (oids ! p) = Some (i, ?q (oids ! p), PENDING) \<and> 0 < ?q (oids ! p)"
    if p: "p < length oids" for p
  proof -
    obtain r where r: "find_order (oids ! p) t = Some r" "status r = PENDING" "order_item_id r = i"
      using assms(3) nth_mem [OF p] by blast
    have "0 < quantity r" by (rule audit_find [OF assms(1) r(1)])
    with r show ?thesis by (simp add: order_summary_def ordered_quantity_def)
  qed
  obtain D left where left: "inv_stock (inventory_of (sys_db s)) i = Some left" "shared (stock_quantity it) oids ?q D H left"
    using confirmations_in_order [OF H(3,1) _ orders, of "stock_quantity it"] H(2) assms(2)
      audited_stock_bounds(1) [OF assms(1,2)]
    by (auto simp: stock_of_def)
  then have sh: "0 \<le> left" "D \<subseteq> {p. (p, 409) \<in> set H}" "left + taken oids ?q D H = stock_quantity it"
      "\<And>p c. (p, c) \<in> set H \<Longrightarrow> fair oids ?q D left p c" "once oids H"
    unfolding shared_def by blast+
  have "code p \<in> {Some 200, Some 409, Some 422, Some 500} \<and>
      (code p = Some 409 \<longrightarrow> twice oids p \<and> (p \<in> D \<or> left < ?q (oids ! p))) \<and>
      (code p = Some 422 \<longrightarrow> twice oids p \<or> left < ?q (oids ! p))" if "p < length oids" for p
    using taken [OF that] sh(4) unfolding fair_def by fastforce
  moreover have "p = p'" if "p < length oids" "p' < length oids" "code p = Some 200" "code p' = Some 200" "oids ! p = oids ! p'" for p p'
    using taken [OF that(1)] taken [OF that(2)] that(3-5) sh(5) unfolding once_def by auto
  moreover have "D \<subseteq> {p. p < length oids \<and> code p = Some 409}" using sh(2) codes H(2) by force
  moreover have "taken oids ?q D H = (\<Sum>p < length oids. if code p = Some 200 \<or> p \<in> D then ?q (oids ! p) else 0)"
    by (rule taken_over_order [OF H(1) _ codes]) (use H(2) in simp_all)
  ultimately show ?thesis
    using left(1) sh(1,3) by (intro exI [of _ left] exI [of _ D]) simp
qed

text \<open>Two orders on the ten burgers of the sample, of eight and of seven.\<close>

definition second_order :: order where
  "second_order = (sample_order 7)\<lparr>order_id := 6\<rparr>"

definition two_orders :: tables where
  "two_orders = apply_statement (InsertOrder second_order) (sample_tables 8)"

lemma two_orders_simps [simp]:
  "find_item i two_orders = (if i = 1 then Some sample_item else None)"
  "find_order i two_orders = (if i = 5 then Some (sample_order 8) else if i = 6 then Some second_order else None)"
  "status second_order = PENDING" "order_item_id second_order = 1" "quantity second_order = 7"
  by (simp_all add: two_orders_def second_order_def table_simps)

lemma audit_two_orders: "audit_ok two_orders"
proof -
  have "audited_but {} two_orders"
    unfolding two_orders_def
    using audit_ok_sample [of 8]
    by (intro audited_place)
       (simp_all add: audited_but_empty second_order_def statement_fault.simps order_types_ok_def order_checks_ok_def
          int4_def)
  then show ?thesis by (simp add: audited_but_empty)
qed

text \<open>Both orders are confirmed at the same time, one of them by two requests: at most one request succeeds.\<close>

theorem confirmations_share_stock_witness:
  "\<exists>s. reaches (start two_orders Map.empty 0 (map (request_proc sample_env) (confirmations [5, 6, 5]))) s \<and>
     all_finished s \<and>
     (\<forall>p < 3. \<forall>p' < 3. answer_code (TransitionOrder ([5, 6, 5] ! p) ConfirmAction) (clients s ! p) = Some 200 \<and>
        answer_code (TransitionOrder ([5, 6, 5] ! p') ConfirmAction) (clients s ! p') = Some 200 \<longrightarrow> p = p')"
proof -
  obtain s where s: "reaches (start two_orders Map.empty 0 (map (request_proc sample_env) (confirmations [5, 6, 5]))) s"
      "all_finished s"
    using can_finish [OF orderly_start [of two_orders Map.empty 0 sample_env "confirmations [5, 6, 5]"]] by (elim exE conjE)
  define code where "code = (\<lambda>p. answer_code (TransitionOrder ([5, 6, 5] ! p) ConfirmAction) (clients s ! p))"
  have pending: "\<forall>oid \<in> set [5, 6, 5]. \<exists>r. find_order oid two_orders = Some r \<and> status r = PENDING \<and> order_item_id r = 1"
    by simp
  have item: "find_item 1 two_orders = Some sample_item" by simp
  obtain left D where left: "0 \<le> left"
      "left + (\<Sum>p < length [5, 6, 5 :: uuid]. if code p = Some 200 \<or> p \<in> D then ordered_quantity ([5, 6, 5] ! p) two_orders
         else 0) = stock_quantity sample_item"
      "\<forall>p < length [5, 6, 5 :: uuid]. \<forall>p' < length [5, 6, 5 :: uuid].
         code p = Some 200 \<and> code p' = Some 200 \<and> [5, 6, 5 :: uuid] ! p = [5, 6, 5] ! p' \<longrightarrow> p = p'"
    using confirmations_share_stock [OF audit_two_orders item pending s code_def] by blast
  have "\<not> (code 0 = Some 200 \<and> code 1 = Some 200)" "\<not> (code 2 = Some 200 \<and> code 1 = Some 200)"
      "\<not> (code 0 = Some 200 \<and> code 2 = Some 200)"
    using left(1,2) left(3) [rule_format, of 0 2]
    by (auto simp: ordered_quantity_def numeral_2_eq_2 split: if_splits)
  then have "\<forall>p < 3. \<forall>p' < 3. code p = Some 200 \<and> code p' = Some 200 \<longrightarrow> p = p'"
    by (auto simp: less_Suc_eq numeral_3_eq_3 numeral_2_eq_2)
  with s show ?thesis by (auto simp: code_def)
qed

end
