(* ===== verification/Migrations.thy ===== *)
theory Migrations
  imports Ledger
begin

text \<open>
  The schema as the program declares it, twice: the migration
  \<open>migrations/versions/0001_initial_schema.py\<close> and the mapped classes of \<open>app/domain/models\<close>.
  A catalog holds table definitions and indexes; the migration operations change it and fail as
  the database does. Table definitions have a meaning, the constraints they put on the rows,
  and the lemmas show that this meaning is \<open>schema_ok\<close>, the constraints of the model. The
  migration environment and the startup check are in \<open>Deployment\<close>.
\<close>

section \<open>Table definitions\<close>

datatype sql_type = UUID_Type | Varchar nat | Text_Type | Numeric_Type nat nat | Integer_Type | Timestamptz

datatype check = At_Least_Zero string | Above_Zero string

record column =
  col_name :: string
  col_type :: sql_type
  col_primary_key :: bool
  col_nullable :: bool
  col_foreign_key :: "(string \<times> string) option"
  col_server_default :: "string option"

record table_def =
  table_name :: string
  columns :: "column list"
  checks :: "(string \<times> check) list"
  uniques :: "(string \<times> string list) list"

definition sa_column :: "string \<Rightarrow> sql_type \<Rightarrow> column" where
  "sa_column name ty =
     \<lparr>col_name = name, col_type = ty, col_primary_key = False, col_nullable = True,
      col_foreign_key = None, col_server_default = None\<rparr>"

definition primary_key :: "column \<Rightarrow> column" where
  "primary_key c = c\<lparr>col_primary_key := True, col_nullable := False\<rparr>"

definition not_null :: "column \<Rightarrow> column" where
  "not_null c = c\<lparr>col_nullable := False\<rparr>"

definition references_id :: "string \<Rightarrow> column \<Rightarrow> column" where
  "references_id t c = c\<lparr>col_foreign_key := Some (t, ''id'')\<rparr>"

definition server_default :: "string \<Rightarrow> column \<Rightarrow> column" where
  "server_default d c = c\<lparr>col_server_default := Some d\<rparr>"

section \<open>The migration\<close>

datatype ddl =
    CreateTable table_def
  | DropTable string
  | CreateIndex string string "string list"
  | DropIndex string string

definition menu_items_created :: table_def where
  "menu_items_created =
     \<lparr>table_name = ''menu_items'',
      columns =
        [primary_key (sa_column ''id'' UUID_Type),
         not_null (sa_column ''name'' (Varchar 255)),
         sa_column ''description'' Text_Type,
         not_null (sa_column ''price'' (Numeric_Type 10 2)),
         server_default ''0'' (not_null (sa_column ''stock_quantity'' Integer_Type)),
         server_default ''10'' (not_null (sa_column ''low_stock_threshold'' Integer_Type)),
         server_default ''1'' (not_null (sa_column ''version'' Integer_Type)),
         server_default ''now()'' (not_null (sa_column ''created_at'' Timestamptz)),
         server_default ''now()'' (not_null (sa_column ''updated_at'' Timestamptz))],
      checks =
        [(''ck_menu_items_stock_non_negative'', At_Least_Zero ''stock_quantity''),
         (''ck_menu_items_price_positive'', Above_Zero ''price''),
         (''ck_menu_items_threshold_non_negative'', At_Least_Zero ''low_stock_threshold'')],
      uniques = [(''uq_menu_items_name'', [''name''])]\<rparr>"

definition orders_created :: table_def where
  "orders_created =
     \<lparr>table_name = ''orders'',
      columns =
        [primary_key (sa_column ''id'' UUID_Type),
         not_null (references_id ''menu_items'' (sa_column ''item_id'' UUID_Type)),
         not_null (sa_column ''quantity'' Integer_Type),
         server_default ''PENDING'' (not_null (sa_column ''status'' (Varchar 20))),
         sa_column ''customer_ref'' (Varchar 255),
         server_default ''1'' (not_null (sa_column ''version'' Integer_Type)),
         server_default ''now()'' (not_null (sa_column ''created_at'' Timestamptz)),
         server_default ''now()'' (not_null (sa_column ''updated_at'' Timestamptz))],
      checks = [(''ck_orders_quantity_positive'', Above_Zero ''quantity'')],
      uniques = []\<rparr>"

definition stock_movements_created :: table_def where
  "stock_movements_created =
     \<lparr>table_name = ''stock_movements'',
      columns =
        [primary_key (sa_column ''id'' UUID_Type),
         not_null (references_id ''menu_items'' (sa_column ''item_id'' UUID_Type)),
         references_id ''orders'' (sa_column ''order_id'' UUID_Type),
         not_null (sa_column ''movement_type'' Text_Type),
         not_null (sa_column ''quantity_delta'' Integer_Type),
         not_null (sa_column ''stock_before'' Integer_Type),
         not_null (sa_column ''stock_after'' Integer_Type),
         sa_column ''reason'' Text_Type,
         server_default ''now()'' (not_null (sa_column ''created_at'' Timestamptz))],
      checks = [], uniques = []\<rparr>"

definition upgrade :: "ddl list" where
  "upgrade =
     [CreateTable menu_items_created, CreateTable orders_created, CreateTable stock_movements_created,
      CreateIndex ''ix_orders_item_id'' ''orders'' [''item_id''],
      CreateIndex ''ix_orders_status'' ''orders'' [''status''],
      CreateIndex ''ix_stock_movements_item_id'' ''stock_movements'' [''item_id''],
      CreateIndex ''ix_stock_movements_order_id'' ''stock_movements'' [''order_id'']]"

definition downgrade :: "ddl list" where
  "downgrade =
     [DropIndex ''ix_stock_movements_order_id'' ''stock_movements'',
      DropIndex ''ix_stock_movements_item_id'' ''stock_movements'',
      DropIndex ''ix_orders_status'' ''orders'',
      DropIndex ''ix_orders_item_id'' ''orders'',
      DropTable ''stock_movements'', DropTable ''orders'', DropTable ''menu_items'']"

section \<open>The mapped classes\<close>

definition timestamp_columns :: "column list" where
  "timestamp_columns =
     [not_null (sa_column ''created_at'' Timestamptz), not_null (sa_column ''updated_at'' Timestamptz)]"

definition menu_items_mapped :: table_def where
  "menu_items_mapped =
     \<lparr>table_name = ''menu_items'',
      columns =
        [primary_key (sa_column ''id'' UUID_Type),
         not_null (sa_column ''name'' (Varchar 255)),
         sa_column ''description'' Text_Type,
         not_null (sa_column ''price'' (Numeric_Type 10 2)),
         not_null (sa_column ''stock_quantity'' Integer_Type),
         not_null (sa_column ''low_stock_threshold'' Integer_Type),
         not_null (sa_column ''version'' Integer_Type)] @ timestamp_columns,
      checks =
        [(''ck_menu_items_stock_non_negative'', At_Least_Zero ''stock_quantity''),
         (''ck_menu_items_price_positive'', Above_Zero ''price''),
         (''ck_menu_items_threshold_non_negative'', At_Least_Zero ''low_stock_threshold'')],
      uniques = [(''uq_menu_items_name'', [''name''])]\<rparr>"

text \<open>\<open>Enum(OrderStatus, native_enum=False, length=20)\<close> is a \<open>VARCHAR(20)\<close>.\<close>

definition orders_mapped :: table_def where
  "orders_mapped =
     \<lparr>table_name = ''orders'',
      columns =
        [primary_key (sa_column ''id'' UUID_Type),
         not_null (references_id ''menu_items'' (sa_column ''item_id'' UUID_Type)),
         not_null (sa_column ''quantity'' Integer_Type),
         not_null (sa_column ''status'' (Varchar 20)),
         sa_column ''customer_ref'' (Varchar 255),
         not_null (sa_column ''version'' Integer_Type)] @ timestamp_columns,
      checks = [(''ck_orders_quantity_positive'', Above_Zero ''quantity'')],
      uniques = []\<rparr>"

definition stock_movements_mapped :: table_def where
  "stock_movements_mapped =
     \<lparr>table_name = ''stock_movements'',
      columns =
        [primary_key (sa_column ''id'' UUID_Type),
         not_null (references_id ''menu_items'' (sa_column ''item_id'' UUID_Type)),
         references_id ''orders'' (sa_column ''order_id'' UUID_Type),
         not_null (sa_column ''movement_type'' Text_Type),
         not_null (sa_column ''quantity_delta'' Integer_Type),
         not_null (sa_column ''stock_before'' Integer_Type),
         not_null (sa_column ''stock_after'' Integer_Type),
         sa_column ''reason'' Text_Type,
         not_null (sa_column ''created_at'' Timestamptz)],
      checks = [], uniques = []\<rparr>"

definition target_metadata :: "table_def list" where
  "target_metadata = [menu_items_mapped, orders_mapped, stock_movements_mapped]"

section \<open>What a table definition demands of the rows\<close>

datatype sql_value =
    Null
  | UUID_Value uuid
  | Text_Value string
  | Integer_Value int
  | Numeric_Value int nat
  | Time_Value int

type_synonym sql_row = "(string \<times> sql_value) list"

text \<open>The value \<open>Numeric_Value n s\<close> is \<open>n\<close> in units of ten to the power of minus \<open>s\<close>.\<close>

fun fits :: "sql_type \<Rightarrow> sql_value \<Rightarrow> bool" where
  "fits UUID_Type (UUID_Value u) \<longleftrightarrow> True"
| "fits (Varchar n) (Text_Value s) \<longleftrightarrow> length s \<le> n"
| "fits Text_Type (Text_Value s) \<longleftrightarrow> True"
| "fits Integer_Type (Integer_Value i) \<longleftrightarrow> int4 i"
| "fits (Numeric_Type p s) (Numeric_Value n s') \<longleftrightarrow> s' = s \<and> \<bar>n\<bar> < 10 ^ p"
| "fits Timestamptz (Time_Value x) \<longleftrightarrow> True"
| "fits _ _ \<longleftrightarrow> False"

definition value_in :: "sql_row \<Rightarrow> string \<Rightarrow> sql_value" where
  "value_in row c = (case map_of row c of None \<Rightarrow> Null | Some v \<Rightarrow> v)"

definition column_ok :: "sql_row \<Rightarrow> column \<Rightarrow> bool" where
  "column_ok row c \<longleftrightarrow>
     (if value_in row (col_name c) = Null then col_nullable c
      else fits (col_type c) (value_in row (col_name c)))"

text \<open>A CHECK passes unless it is false; on \<open>NULL\<close> it is not.\<close>

fun check_ok :: "sql_row \<Rightarrow> check \<Rightarrow> bool" where
  "check_ok row (At_Least_Zero c) \<longleftrightarrow>
     (case value_in row c of Integer_Value i \<Rightarrow> 0 \<le> i | Numeric_Value n s \<Rightarrow> 0 \<le> n | _ \<Rightarrow> True)"
| "check_ok row (Above_Zero c) \<longleftrightarrow>
     (case value_in row c of Integer_Value i \<Rightarrow> 0 < i | Numeric_Value n s \<Rightarrow> 0 < n | _ \<Rightarrow> True)"

definition row_ok :: "table_def \<Rightarrow> sql_row \<Rightarrow> bool" where
  "row_ok d row \<longleftrightarrow> list_all (column_ok row) (columns d) \<and> list_all (\<lambda>(n, c). check_ok row c) (checks d)"

definition unique_ok :: "string list \<Rightarrow> sql_row list \<Rightarrow> bool" where
  "unique_ok cs rows \<longleftrightarrow> distinct (filter (\<lambda>vs. Null \<notin> set vs) (map (\<lambda>row. map (value_in row) cs) rows))"

definition foreign_key_ok :: "(string \<Rightarrow> sql_row list) \<Rightarrow> sql_row list \<Rightarrow> column \<Rightarrow> bool" where
  "foreign_key_ok rows_of rows c \<longleftrightarrow>
     (case col_foreign_key c of
        None \<Rightarrow> True
      | Some (t, k) \<Rightarrow> list_all (\<lambda>row. value_in row (col_name c) = Null \<or>
          list_ex (\<lambda>row'. value_in row' k = value_in row (col_name c)) (rows_of t)) rows)"

definition table_ok :: "(string \<Rightarrow> sql_row list) \<Rightarrow> table_def \<Rightarrow> bool" where
  "table_ok rows_of d \<longleftrightarrow>
     list_all (row_ok d) (rows_of (table_name d)) \<and>
     unique_ok (map col_name (filter col_primary_key (columns d))) (rows_of (table_name d)) \<and>
     list_all (\<lambda>(n, cs). unique_ok cs (rows_of (table_name d))) (uniques d) \<and>
     list_all (foreign_key_ok rows_of (rows_of (table_name d))) (columns d)"

definition satisfies :: "table_def list \<Rightarrow> (string \<Rightarrow> sql_row list) \<Rightarrow> bool" where
  "satisfies ds rows_of \<longleftrightarrow> list_all (table_ok rows_of) ds"

section \<open>The rows of the model\<close>

definition text_or_null :: "string option \<Rightarrow> sql_value" where
  "text_or_null x = (case x of None \<Rightarrow> Null | Some s \<Rightarrow> Text_Value s)"

definition item_values :: "menu_item \<Rightarrow> sql_row" where
  "item_values it =
     [(''id'', UUID_Value (item_id it)), (''name'', Text_Value (item_name it)),
      (''description'', text_or_null (item_description it)), (''price'', Numeric_Value (item_price it) 2),
      (''stock_quantity'', Integer_Value (stock_quantity it)),
      (''low_stock_threshold'', Integer_Value (low_stock_threshold it)),
      (''version'', Integer_Value (item_version it)), (''created_at'', Time_Value (item_created_at it)),
      (''updated_at'', Time_Value (item_updated_at it))]"

definition order_values :: "order \<Rightarrow> sql_row" where
  "order_values r =
     [(''id'', UUID_Value (order_id r)), (''item_id'', UUID_Value (order_item_id r)),
      (''quantity'', Integer_Value (quantity r)), (''status'', Text_Value (order_status_value (status r))),
      (''customer_ref'', text_or_null (customer_ref r)), (''version'', Integer_Value (order_version r)),
      (''created_at'', Time_Value (order_created_at r)), (''updated_at'', Time_Value (order_updated_at r))]"

definition movement_values :: "stock_movement \<Rightarrow> sql_row" where
  "movement_values m =
     [(''id'', UUID_Value (mv_id m)), (''item_id'', UUID_Value (mv_item_id m)),
      (''order_id'', case mv_order_id m of None \<Rightarrow> Null | Some oid \<Rightarrow> UUID_Value oid),
      (''movement_type'', Text_Value (movement_kind_value (movement_type m))),
      (''quantity_delta'', Integer_Value (quantity_delta m)), (''stock_before'', Integer_Value (stock_before m)),
      (''stock_after'', Integer_Value (stock_after m)), (''reason'', text_or_null (reason m)),
      (''created_at'', Time_Value (mv_created_at m))]"

definition database_rows :: "tables \<Rightarrow> string \<Rightarrow> sql_row list" where
  "database_rows t name =
     (if name = ''menu_items'' then map item_values (menu_items t)
      else if name = ''orders'' then map order_values (order_rows t)
      else if name = ''stock_movements'' then map movement_values (stock_movements t)
      else [])"

lemmas column_simps = sa_column_def primary_key_def not_null_def references_id_def server_default_def

lemma item_row_ok: "row_ok menu_items_mapped (item_values it) \<longleftrightarrow> item_types_ok it \<and> item_checks_ok it"
  by (auto simp: row_ok_def menu_items_mapped_def timestamp_columns_def column_simps column_ok_def value_in_def
      item_values_def text_or_null_def item_types_ok_def item_checks_ok_def split: option.splits)

lemma order_row_ok: "row_ok orders_mapped (order_values r) \<longleftrightarrow> order_types_ok r \<and> order_checks_ok r"
proof -
  have "length (order_status_value (status r)) \<le> 20" by (cases "status r") simp_all
  then show ?thesis
    by (auto simp: row_ok_def orders_mapped_def timestamp_columns_def column_simps column_ok_def value_in_def
        order_values_def text_or_null_def order_types_ok_def order_checks_ok_def split: option.splits)
qed

lemma movement_row_ok: "row_ok stock_movements_mapped (movement_values m) \<longleftrightarrow> movement_types_ok m"
  by (auto simp: row_ok_def stock_movements_mapped_def column_simps column_ok_def value_in_def
      movement_values_def text_or_null_def movement_types_ok_def split: option.splits)

lemma unique_column:
  assumes "\<And>x. value_in (f x) c = V (g x)" and "inj V" and "\<And>y. V y \<noteq> Null"
  shows "unique_ok [c] (map f xs) \<longleftrightarrow> distinct (map g xs)"
proof -
  have "unique_ok [c] (map f xs) \<longleftrightarrow> distinct (map ((\<lambda>y. [V y]) \<circ> g) xs)"
    using assms(1) assms(3) [symmetric] by (simp add: unique_ok_def comp_def filter_map)
  also have "map ((\<lambda>y. [V y]) \<circ> g) xs = map (\<lambda>y. [V y]) (map g xs)" by simp
  also have "distinct (map (\<lambda>y. [V y]) (map g xs)) \<longleftrightarrow> distinct (map g xs)"
    using assms(2) by (simp only: distinct_map) (auto simp: inj_on_def dest: injD)
  finally show ?thesis .
qed

lemma value_names:
  "value_in (item_values it) ''id'' = UUID_Value (item_id it)"
  "value_in (item_values it) ''name'' = Text_Value (item_name it)"
  "value_in (order_values r) ''id'' = UUID_Value (order_id r)"
  "value_in (order_values r) ''item_id'' = UUID_Value (order_item_id r)"
  "value_in (movement_values m) ''id'' = UUID_Value (mv_id m)"
  "value_in (movement_values m) ''item_id'' = UUID_Value (mv_item_id m)"
  "value_in (movement_values m) ''order_id'' = (case mv_order_id m of None \<Rightarrow> Null | Some oid \<Rightarrow> UUID_Value oid)"
  by (simp_all add: value_in_def item_values_def order_values_def movement_values_def)

lemma unique_names:
  "unique_ok [''id''] (map item_values its) \<longleftrightarrow> distinct (map item_id its)"
  "unique_ok [''name''] (map item_values its) \<longleftrightarrow> distinct (map item_name its)"
  "unique_ok [''id''] (map order_values rs) \<longleftrightarrow> distinct (map order_id rs)"
  "unique_ok [''id''] (map movement_values ms) \<longleftrightarrow> distinct (map mv_id ms)"
  by (rule unique_column, rule value_names; simp add: inj_def)+

lemma foreign_keys:
  "foreign_key_ok (database_rows t) (map order_values rs) (not_null (references_id ''menu_items'' (sa_column ''item_id'' UUID_Type))) \<longleftrightarrow>
     (\<forall>r \<in> set rs. find_item (order_item_id r) t \<noteq> None)"
  "foreign_key_ok (database_rows t) (map movement_values ms) (not_null (references_id ''menu_items'' (sa_column ''item_id'' UUID_Type))) \<longleftrightarrow>
     (\<forall>m \<in> set ms. find_item (mv_item_id m) t \<noteq> None)"
  "foreign_key_ok (database_rows t) (map movement_values ms) (references_id ''orders'' (sa_column ''order_id'' UUID_Type)) \<longleftrightarrow>
     (\<forall>m \<in> set ms. case mv_order_id m of None \<Rightarrow> True | Some oid \<Rightarrow> find_order oid t \<noteq> None)"
  unfolding find_item_None_iff find_order_None_iff
  by (auto simp: foreign_key_ok_def column_simps database_rows_def list_all_iff list_ex_iff value_names image_iff eq_commute
      split: option.splits)

lemma menu_items_ok:
  "table_ok (database_rows t) menu_items_mapped \<longleftrightarrow>
     distinct (map item_id (menu_items t)) \<and> distinct (map item_name (menu_items t)) \<and>
     (\<forall>it \<in> set (menu_items t). item_types_ok it \<and> item_checks_ok it)"
proof -
  have "map col_name (filter col_primary_key (columns menu_items_mapped)) = [''id'']"
    and "list_all (foreign_key_ok (database_rows t) rows) (columns menu_items_mapped)" for rows
    by (simp_all add: menu_items_mapped_def timestamp_columns_def column_simps foreign_key_ok_def)
  moreover have "uniques menu_items_mapped = [(''uq_menu_items_name'', [''name''])]"
    and "database_rows t (table_name menu_items_mapped) = map item_values (menu_items t)"
    by (simp_all add: menu_items_mapped_def database_rows_def)
  ultimately show ?thesis by (auto simp: table_ok_def unique_names item_row_ok list_all_iff)
qed

lemma orders_ok:
  "table_ok (database_rows t) orders_mapped \<longleftrightarrow> distinct (map order_id (order_rows t)) \<and>
     (\<forall>r \<in> set (order_rows t). order_types_ok r \<and> order_checks_ok r \<and> find_item (order_item_id r) t \<noteq> None)"
proof -
  have "map col_name (filter col_primary_key (columns orders_mapped)) = [''id'']"
    and "uniques orders_mapped = []"
    and "database_rows t (table_name orders_mapped) = map order_values (order_rows t)"
    by (simp_all add: orders_mapped_def timestamp_columns_def column_simps database_rows_def)
  moreover have "list_all (foreign_key_ok (database_rows t) rows) (columns orders_mapped) \<longleftrightarrow>
      foreign_key_ok (database_rows t) rows (not_null (references_id ''menu_items'' (sa_column ''item_id'' UUID_Type)))"
    for rows by (simp add: orders_mapped_def timestamp_columns_def column_simps foreign_key_ok_def)
  ultimately show ?thesis by (auto simp: table_ok_def unique_names foreign_keys order_row_ok list_all_iff)
qed

lemma stock_movements_ok:
  "table_ok (database_rows t) stock_movements_mapped \<longleftrightarrow> distinct (map mv_id (stock_movements t)) \<and>
     (\<forall>m \<in> set (stock_movements t). movement_types_ok m \<and> find_item (mv_item_id m) t \<noteq> None \<and>
        (case mv_order_id m of None \<Rightarrow> True | Some oid \<Rightarrow> find_order oid t \<noteq> None))"
proof -
  have "map col_name (filter col_primary_key (columns stock_movements_mapped)) = [''id'']"
    and "uniques stock_movements_mapped = []"
    and "database_rows t (table_name stock_movements_mapped) = map movement_values (stock_movements t)"
    by (simp_all add: stock_movements_mapped_def column_simps database_rows_def)
  moreover have "list_all (foreign_key_ok (database_rows t) rows) (columns stock_movements_mapped) \<longleftrightarrow>
      foreign_key_ok (database_rows t) rows (not_null (references_id ''menu_items'' (sa_column ''item_id'' UUID_Type))) \<and>
      foreign_key_ok (database_rows t) rows (references_id ''orders'' (sa_column ''order_id'' UUID_Type))"
    for rows by (simp add: stock_movements_mapped_def column_simps foreign_key_ok_def)
  ultimately show ?thesis by (auto simp: table_ok_def unique_names foreign_keys movement_row_ok list_all_iff)
qed

lemma metadata_meaning: "satisfies target_metadata (database_rows t) \<longleftrightarrow> schema_ok t"
  by (auto simp: satisfies_def target_metadata_def menu_items_ok orders_ok stock_movements_ok schema_ok_def)

section \<open>The operations on a catalog\<close>

record catalog =
  cat_tables :: "table_def list"
  cat_indexes :: "(string \<times> string \<times> string list) list"

datatype ddl_error =
    DuplicateTable string
  | UndefinedTable string
  | UndefinedColumn string
  | DuplicateIndex string
  | UndefinedIndex string
  | DependentObjects string

definition empty_catalog :: catalog where
  "empty_catalog = \<lparr>cat_tables = [], cat_indexes = []\<rparr>"

definition referenced_tables :: "table_def \<Rightarrow> string list" where
  "referenced_tables d = List.map_filter (\<lambda>c. map_option fst (col_foreign_key c)) (columns d)"

fun apply_ddl :: "ddl \<Rightarrow> catalog \<Rightarrow> ddl_error + catalog" where
  "apply_ddl (CreateTable d) c =
     (if table_name d \<in> table_name ` set (cat_tables c) then Inl (DuplicateTable (table_name d))
      else case filter (\<lambda>t. t \<noteq> table_name d \<and> t \<notin> table_name ` set (cat_tables c)) (referenced_tables d) of
             t # ts \<Rightarrow> Inl (UndefinedTable t)
           | [] \<Rightarrow> Inr (c\<lparr>cat_tables := cat_tables c @ [d]\<rparr>))"
| "apply_ddl (DropTable t) c =
     (if t \<notin> table_name ` set (cat_tables c) then Inl (UndefinedTable t)
      else if list_ex (\<lambda>d. table_name d \<noteq> t \<and> t \<in> set (referenced_tables d)) (cat_tables c)
      then Inl (DependentObjects t)
      else Inr \<lparr>cat_tables = filter (\<lambda>d. table_name d \<noteq> t) (cat_tables c),
                cat_indexes = filter (\<lambda>(i, t', cs). t' \<noteq> t) (cat_indexes c)\<rparr>)"
| "apply_ddl (CreateIndex i t cs) c =
     (if i \<in> fst ` set (cat_indexes c) then Inl (DuplicateIndex i)
      else case List.find (\<lambda>d. table_name d = t) (cat_tables c) of
             None \<Rightarrow> Inl (UndefinedTable t)
           | Some d \<Rightarrow>
               (case filter (\<lambda>n. n \<notin> col_name ` set (columns d)) cs of
                  n # ns \<Rightarrow> Inl (UndefinedColumn n)
                | [] \<Rightarrow> Inr (c\<lparr>cat_indexes := cat_indexes c @ [(i, t, cs)]\<rparr>)))"
| "apply_ddl (DropIndex i t) c =
     (if i \<notin> fst ` set (cat_indexes c) then Inl (UndefinedIndex i)
      else Inr (c\<lparr>cat_indexes := filter (\<lambda>(i', t', cs). i' \<noteq> i) (cat_indexes c)\<rparr>))"

fun apply_all :: "ddl list \<Rightarrow> catalog \<Rightarrow> ddl_error + catalog" where
  "apply_all [] c = Inr c"
| "apply_all (x # xs) c = (case apply_ddl x c of Inl e \<Rightarrow> Inl e | Inr c' \<Rightarrow> apply_all xs c')"

text \<open>A catalog in which the names of the migration are free and no foreign key dangles.\<close>

definition migration_indexes :: "(string \<times> string \<times> string list) list" where
  "migration_indexes =
     [(''ix_orders_item_id'', ''orders'', [''item_id'']), (''ix_orders_status'', ''orders'', [''status'']),
      (''ix_stock_movements_item_id'', ''stock_movements'', [''item_id'']),
      (''ix_stock_movements_order_id'', ''stock_movements'', [''order_id''])]"

definition migration_tables :: "table_def list" where
  "migration_tables = [menu_items_created, orders_created, stock_movements_created]"

definition room_for_migration :: "catalog \<Rightarrow> bool" where
  "room_for_migration c \<longleftrightarrow>
     list_all (\<lambda>d. table_name d \<notin> table_name ` set migration_tables \<and>
        set (referenced_tables d) \<subseteq> table_name ` set (cat_tables c)) (cat_tables c) \<and>
     list_all (\<lambda>(i, t, cs). i \<notin> fst ` set migration_indexes \<and> t \<in> table_name ` set (cat_tables c)) (cat_indexes c)"

definition migrated :: "catalog \<Rightarrow> catalog" where
  "migrated c = \<lparr>cat_tables = cat_tables c @ migration_tables, cat_indexes = cat_indexes c @ migration_indexes\<rparr>"

lemma created_names [simp]:
  "table_name menu_items_created = ''menu_items''" "table_name orders_created = ''orders''"
  "table_name stock_movements_created = ''stock_movements''"
  "referenced_tables menu_items_created = []" "referenced_tables orders_created = [''menu_items'']"
  "referenced_tables stock_movements_created = [''menu_items'', ''orders'']"
  "col_name ` set (columns orders_created) = {''id'', ''item_id'', ''quantity'', ''status'', ''customer_ref'',
     ''version'', ''created_at'', ''updated_at''}"
  "col_name ` set (columns stock_movements_created) = {''id'', ''item_id'', ''order_id'', ''movement_type'',
     ''quantity_delta'', ''stock_before'', ''stock_after'', ''reason'', ''created_at''}"
  by (auto simp: menu_items_created_def orders_created_def stock_movements_created_def referenced_tables_def
      column_simps List.map_filter_simps)

lemma find_after:
  "n \<notin> table_name ` set xs \<Longrightarrow>
     List.find (\<lambda>d. table_name d = n) (xs @ ys) = List.find (\<lambda>d. table_name d = n) ys"
  by (induction xs) auto

lemma room_names:
  assumes "room_for_migration c" and "n \<in> table_name ` set migration_tables"
  shows "n \<notin> table_name ` set (cat_tables c)"
    and "filter (\<lambda>d. table_name d \<noteq> n) (cat_tables c) = cat_tables c"
    and "list_all (\<lambda>d. n \<notin> set (referenced_tables d)) (cat_tables c)"
    and "filter (\<lambda>(i, t, cs). t \<noteq> n) (cat_indexes c) = cat_indexes c"
proof -
  show n: "n \<notin> table_name ` set (cat_tables c)"
    using assms unfolding room_for_migration_def list_all_iff by blast
  then show "filter (\<lambda>d. table_name d \<noteq> n) (cat_tables c) = cat_tables c"
    by (intro filter_True) blast
  have "\<forall>d \<in> set (cat_tables c). set (referenced_tables d) \<subseteq> table_name ` set (cat_tables c)"
    using assms(1) unfolding room_for_migration_def list_all_iff by blast
  with n show "list_all (\<lambda>d. n \<notin> set (referenced_tables d)) (cat_tables c)"
    unfolding list_all_iff by blast
  have "\<forall>(i, t, cs) \<in> set (cat_indexes c). t \<in> table_name ` set (cat_tables c)"
    using assms(1) unfolding room_for_migration_def list_all_iff by blast
  with n show "filter (\<lambda>(i, t, cs). t \<noteq> n) (cat_indexes c) = cat_indexes c"
    by (intro filter_True) blast
qed

lemma room_indexes:
  assumes "room_for_migration c" and "k \<in> fst ` set migration_indexes"
  shows "k \<notin> fst ` set (cat_indexes c)"
    and "filter (\<lambda>(i, t, cs). i \<noteq> k) (cat_indexes c) = cat_indexes c"
proof -
  have "\<forall>(i, t, cs) \<in> set (cat_indexes c). i \<notin> fst ` set migration_indexes"
    using assms(1) unfolding room_for_migration_def list_all_iff by blast
  with assms(2) show k: "k \<notin> fst ` set (cat_indexes c)" by fastforce
  then show "filter (\<lambda>(i, t, cs). i \<noteq> k) (cat_indexes c) = cat_indexes c"
    by (intro filter_True) force
qed

lemma migration_names:
  "table_name ` set migration_tables = {''menu_items'', ''orders'', ''stock_movements''}"
  "fst ` set migration_indexes = {''ix_orders_item_id'', ''ix_orders_status'', ''ix_stock_movements_item_id'',
     ''ix_stock_movements_order_id''}"
  by (simp_all add: migration_tables_def migration_indexes_def)

lemma upgrade_applies:
  assumes "room_for_migration c"
  shows "apply_all upgrade c = Inr (migrated c)"
proof -
  note t = room_names(1) [OF assms] and i = room_indexes(1) [OF assms]
  have "''menu_items'' \<notin> table_name ` set (cat_tables c)" "''orders'' \<notin> table_name ` set (cat_tables c)"
    "''stock_movements'' \<notin> table_name ` set (cat_tables c)"
    by (rule t; simp add: migration_names)+
  moreover have "''ix_orders_item_id'' \<notin> fst ` set (cat_indexes c)" "''ix_orders_status'' \<notin> fst ` set (cat_indexes c)"
    "''ix_stock_movements_item_id'' \<notin> fst ` set (cat_indexes c)" "''ix_stock_movements_order_id'' \<notin> fst ` set (cat_indexes c)"
    by (rule i; simp add: migration_names)+
  ultimately show ?thesis
    by (simp add: upgrade_def migrated_def migration_tables_def migration_indexes_def find_after)
qed

lemma filter_append_tables:
  assumes "room_for_migration c" and "n \<in> table_name ` set migration_tables"
  shows "filter (\<lambda>d. table_name d \<noteq> n) (cat_tables c @ ds) = cat_tables c @ filter (\<lambda>d. table_name d \<noteq> n) ds"
    and "list_ex (\<lambda>d. table_name d \<noteq> n \<and> n \<in> set (referenced_tables d)) (cat_tables c @ ds) \<longleftrightarrow>
      list_ex (\<lambda>d. table_name d \<noteq> n \<and> n \<in> set (referenced_tables d)) ds"
    and "filter (\<lambda>(i, t, cs). t \<noteq> n) (cat_indexes c @ xs) = cat_indexes c @ filter (\<lambda>(i, t, cs). t \<noteq> n) xs"
  using room_names [OF assms] by (auto simp: list_ex_iff list_all_iff)

lemma filter_append_indexes:
  assumes "room_for_migration c" and "k \<in> fst ` set migration_indexes"
  shows "filter (\<lambda>(i, t, cs). i \<noteq> k) (cat_indexes c @ xs) = cat_indexes c @ filter (\<lambda>(i, t, cs). i \<noteq> k) xs"
  using room_indexes(2) [OF assms] by simp

lemma downgrade_applies:
  assumes "room_for_migration c"
  shows "apply_all downgrade (migrated c) = Inr c"
  using assms
  by (simp add: downgrade_def migrated_def migration_tables_def migration_indexes_def filter_append_tables
      filter_append_indexes room_names(4) migration_names image_Un del: filter_append list_ex_append filter_filter)

section \<open>The migration and the mapped classes\<close>

text \<open>Server defaults do not constrain rows; without them the two declarations are the same.\<close>

definition without_defaults :: "table_def \<Rightarrow> table_def" where
  "without_defaults d = d\<lparr>columns := map (\<lambda>c. c\<lparr>col_server_default := None\<rparr>) (columns d)\<rparr>"

lemma migration_metadata: "map without_defaults migration_tables = target_metadata"
  by (simp add: migration_tables_def target_metadata_def without_defaults_def menu_items_created_def
      orders_created_def stock_movements_created_def menu_items_mapped_def orders_mapped_def
      stock_movements_mapped_def timestamp_columns_def column_simps)

lemma column_without_default:
  "column_ok row (c\<lparr>col_server_default := x\<rparr>) = column_ok row c"
  "foreign_key_ok rows_of rows (c\<lparr>col_server_default := x\<rparr>) = foreign_key_ok rows_of rows c"
  unfolding column_ok_def foreign_key_ok_def by (simp_all cong: option.case_cong)

lemma table_ok_without_defaults: "table_ok rows_of (without_defaults d) \<longleftrightarrow> table_ok rows_of d"
  by (simp add: table_ok_def without_defaults_def row_ok_def column_without_default list_all_iff
      filter_map comp_def)

lemma migration_meaning: "satisfies migration_tables (database_rows t) \<longleftrightarrow> schema_ok t"
proof -
  have "satisfies migration_tables (database_rows t) \<longleftrightarrow> satisfies (map without_defaults migration_tables) (database_rows t)"
    by (simp add: satisfies_def list_all_iff table_ok_without_defaults)
  then show ?thesis by (simp add: migration_metadata metadata_meaning)
qed

end
