(* ===== verification/Deployment.thy ===== *)
theory Deployment
  imports Migrations
begin

text \<open>
  How the service is put on a database and started: the revision script and the migration
  environment (\<open>migrations/env.py\<close>), the check of the applied revisions and the lifespan of
  the application (\<open>app/main.py\<close>), and the configuration of the log (\<open>app/core/logging.py\<close>).
  What Alembic and SQLAlchemy are asked to do here is modelled as documented: a transaction is
  applied as a whole, the revisions not yet applied are run in the order of their chain.
\<close>

section \<open>Revisions\<close>

record migration =
  revision :: string
  down_revision :: "string option"
  mig_upgrade :: "ddl list"
  mig_downgrade :: "ddl list"

definition revision_0001 :: migration where
  "revision_0001 =
     \<lparr>revision = ''0001'', down_revision = None, mig_upgrade = upgrade, mig_downgrade = downgrade\<rparr>"

definition versions :: "migration list" where
  "versions = [revision_0001]"

definition script_heads :: "migration list \<Rightarrow> string list" where
  "script_heads ms =
     map revision (filter (\<lambda>m. \<not> list_ex (\<lambda>m'. down_revision m' = Some (revision m)) ms) ms)"

record database =
  db_catalog :: catalog
  db_heads :: "string list"

datatype startup_error =
    MigrationFailed ddl_error
  | CantLocateRevision string
  | NotUpToDate "string set"

fun run_scripts :: "migration list \<Rightarrow> database \<Rightarrow> startup_error + database" where
  "run_scripts [] d = Inr d"
| "run_scripts (m # ms) d =
     (case apply_all (mig_upgrade m) (db_catalog d) of
        Inl e \<Rightarrow> Inl (MigrationFailed e)
      | Inr c \<Rightarrow> run_scripts ms \<lparr>db_catalog = c, db_heads = [revision m]\<rparr>)"

fun pending_scripts :: "migration list \<Rightarrow> string list \<Rightarrow> startup_error + migration list" where
  "pending_scripts ms [] = Inr ms"
| "pending_scripts ms (r # rs) =
     (if r \<in> revision ` set ms then Inr (tl (dropWhile (\<lambda>m. revision m \<noteq> r) ms))
      else Inl (CantLocateRevision r))"

text \<open>\<open>alembic upgrade head\<close> through \<open>env.py\<close>, against a database and as a script of statements.\<close>

definition do_run_migrations :: "database \<Rightarrow> (startup_error + unit) \<times> database" where
  "do_run_migrations d =
     (case pending_scripts versions (db_heads d) of
        Inl e \<Rightarrow> (Inl e, d)
      | Inr ms \<Rightarrow>
          (case run_scripts ms d of
             Inl e \<Rightarrow> (Inl e, d)
           | Inr d' \<Rightarrow> (Inr (), d')))"

text \<open>The engine is disposed after the migrations, and not when they raise.\<close>

definition run_migrations_online :: "database \<Rightarrow> (startup_error + unit) \<times> bool \<times> database" where
  "run_migrations_online d =
     (case do_run_migrations d of
        (Inl e, d') \<Rightarrow> (Inl e, False, d')
      | (Inr u, d') \<Rightarrow> (Inr u, True, d'))"

datatype script_line = Begin_Transaction | Statement ddl | Stamp string | Commit_Transaction

definition run_migrations_offline :: "script_line list" where
  "run_migrations_offline =
     Begin_Transaction # concat (map (\<lambda>m. map Statement (mig_upgrade m) @ [Stamp (revision m)]) versions)
       @ [Commit_Transaction]"

fun execute_script :: "script_line list \<Rightarrow> database \<Rightarrow> startup_error + database" where
  "execute_script [] d = Inr d"
| "execute_script (Statement x # ls) d =
     (case apply_ddl x (db_catalog d) of
        Inl e \<Rightarrow> Inl (MigrationFailed e)
      | Inr c \<Rightarrow> execute_script ls (d\<lparr>db_catalog := c\<rparr>))"
| "execute_script (Stamp r # ls) d = execute_script ls (d\<lparr>db_heads := [r]\<rparr>)"
| "execute_script (Begin_Transaction # ls) d = execute_script ls d"
| "execute_script (Commit_Transaction # ls) d = execute_script ls d"

section \<open>The migration environment\<close>

text \<open>
  \<open>env.py\<close> stores the URL of the settings in the Alembic configuration, a \<open>ConfigParser\<close>, and
  reads it back: both interpret percent signs, as the documentation of Alembic warns. A
  reference \<open>%(name)s\<close> stands for another option, \<open>%%\<close> for a percent sign, and any other percent
  sign is an error. Options by lower-case name; \<open>reference\<close> matches what follows \<open>%(\<close> and answers
  the name and the rest of the text.
\<close>

definition reference :: "string \<Rightarrow> (string \<times> string) option" where
  "reference s =
     (let name = takeWhile (\<lambda>c. c \<noteq> CHR '')'') s; after = drop (length name) s
      in if name \<noteq> [] \<and> py_startswith after '')s'' then Some (name, drop 2 after) else None)"

lemma reference_shorter: "reference s = Some (name, rest) \<Longrightarrow> length rest < length s"
  by (cases s) (auto simp: reference_def Let_def split: if_splits)

fun without_doubled :: "string \<Rightarrow> string" where
  "without_doubled (c # d # s) =
     (if c = CHR ''%'' \<and> d = CHR ''%'' then without_doubled s else c # without_doubled (d # s))"
| "without_doubled s = s"

function without_references :: "string \<Rightarrow> string" where
  "without_references [] = []"
| "without_references (c # s) =
     (if c = CHR ''%'' \<and> py_startswith s ''('' then
        (case reference (tl s) of
           Some (name, rest) \<Rightarrow> without_references rest
         | None \<Rightarrow> c # without_references s)
      else c # without_references s)"
  by pat_completeness auto
termination
  by (relation "measure length") (auto dest!: reference_shorter)

datatype env_error =
    ValueError
  | InterpolationError
  | MigrationError startup_error

definition set_main_option :: "string \<Rightarrow> env_error + string" where
  "set_main_option value =
     (if CHR ''%'' \<in> set (without_references (without_doubled value)) then Inl ValueError else Inr value)"

text \<open>The first argument is the number of nested references that are still followed.\<close>

function interpolate :: "nat \<Rightarrow> (string \<rightharpoonup> string) \<Rightarrow> string \<Rightarrow> string option" where
  "interpolate n options [] = Some []"
| "interpolate n options (c # s) =
     (if c \<noteq> CHR ''%'' then map_option (Cons c) (interpolate n options s)
      else if py_startswith s ''%'' then map_option (Cons c) (interpolate n options (tl s))
      else if py_startswith s ''('' then
        (case reference (tl s) of
           None \<Rightarrow> None
         | Some (name, rest) \<Rightarrow>
             (case options (map lower_char name) of
                None \<Rightarrow> None
              | Some v \<Rightarrow>
                  (case (if CHR ''%'' \<notin> set v then Some v
                         else case n of 0 \<Rightarrow> None | Suc m \<Rightarrow> interpolate m options v) of
                     None \<Rightarrow> None
                   | Some text \<Rightarrow> map_option (\<lambda>t. text @ t) (interpolate n options rest))))
      else None)"
  by pat_completeness auto
termination
  by (relation "inv_image (less_than <*lex*> less_than) (\<lambda>(n, options, s). (n, length s))")
     (auto dest!: reference_shorter)

definition max_interpolation_depth :: nat where
  "max_interpolation_depth = 10"

text \<open>
  The environment over the databases of all URLs: offline it prints the script, online it
  migrates the database of the URL.
\<close>

definition migration_env ::
  "settings \<Rightarrow> (string \<rightharpoonup> string) \<Rightarrow> bool \<Rightarrow> (string \<Rightarrow> database) \<Rightarrow>
     (env_error + script_line list) \<times> (string \<Rightarrow> database)" where
  "migration_env s options offline servers =
     (case set_main_option (database_url s) of
        Inl e \<Rightarrow> (Inl e, servers)
      | Inr value \<Rightarrow>
          (case interpolate (max_interpolation_depth - 1) options value of
             None \<Rightarrow> (Inl InterpolationError, servers)
           | Some url \<Rightarrow>
               if offline then (Inr run_migrations_offline, servers)
               else (case run_migrations_online (servers url) of
                       (Inl e, disposed, d) \<Rightarrow> (Inl (MigrationError e), servers(url := d))
                     | (Inr u, disposed, d) \<Rightarrow> (Inr [], servers(url := d)))))"

text \<open>A URL without percent signs is read back as it is, and so is one with its percent signs doubled.\<close>

definition double_percents :: "string \<Rightarrow> string" where
  "double_percents s = concat (map (\<lambda>c. if c = CHR ''%'' then [c, c] else [c]) s)"

lemma without_doubled_plain: "CHR ''%'' \<notin> set s \<Longrightarrow> without_doubled s = s"
  by (induction s rule: without_doubled.induct) auto

lemma without_references_plain: "CHR ''%'' \<notin> set s \<Longrightarrow> without_references s = s"
  by (induction s) auto

lemma without_doubled_cons: "c \<noteq> CHR ''%'' \<Longrightarrow> without_doubled (c # s) = c # without_doubled s"
  by (cases s) auto

lemma without_doubled_escaped: "without_doubled (double_percents s) = filter (\<lambda>c. c \<noteq> CHR ''%'') s"
  by (induction s) (simp_all add: double_percents_def without_doubled_cons)

lemma interpolate_escaped: "interpolate n options (double_percents s) = Some s"
  by (induction s) (simp_all add: double_percents_def py_startswith_def)

lemma double_percents_plain: "CHR ''%'' \<notin> set s \<Longrightarrow> double_percents s = s"
  by (induction s) (auto simp: double_percents_def)

lemma interpolate_plain: "CHR ''%'' \<notin> set s \<Longrightarrow> interpolate n options s = Some s"
  using interpolate_escaped [of n options s] by (simp add: double_percents_plain)

lemma escaped_url_roundtrip:
  "set_main_option (double_percents url) = Inr (double_percents url) \<and>
   interpolate n options (double_percents url) = Some url"
  by (simp add: set_main_option_def without_doubled_escaped without_references_plain interpolate_escaped)

lemma plain_url_stored: "CHR ''%'' \<notin> set url \<Longrightarrow> set_main_option url = Inr url"
  by (simp add: set_main_option_def without_doubled_plain without_references_plain)

text \<open>
  The URL is not escaped: with a percent sign that begins neither a pair nor a reference, as in
  a percent-encoded password, the environment fails before it reaches the database.
\<close>

definition bare_percents :: "string \<Rightarrow> bool" where
  "bare_percents s \<longleftrightarrow> CHR ''%'' \<in> set s \<and>
     (\<forall>u v. s = u @ CHR ''%'' # v \<longrightarrow> \<not> py_startswith v ''%'' \<and> \<not> py_startswith v ''('')"

lemma without_doubled_bare:
  "\<forall>u v. s = u @ CHR ''%'' # v \<longrightarrow> \<not> py_startswith v ''%'' \<Longrightarrow> without_doubled s = s"
proof (induction s rule: without_doubled.induct)
  case (1 c d s)
  have "\<not> (c = CHR ''%'' \<and> d = CHR ''%'')"
    using 1(3) [rule_format, of "[]" "d # s"] by (auto simp: py_startswith_def)
  moreover from this have "without_doubled (d # s) = d # s"
    using 1(2,3) by (metis append_Cons)
  ultimately show ?case by auto
qed simp_all

lemma without_references_bare:
  "\<forall>u v. s = u @ CHR ''%'' # v \<longrightarrow> \<not> py_startswith v ''('' \<Longrightarrow> without_references s = s"
proof (induction s)
  case (Cons c s)
  have "\<not> (c = CHR ''%'' \<and> py_startswith s ''('')" using Cons.prems [rule_format, of "[]" s] by auto
  moreover have "without_references s = s" using Cons by (metis append_Cons)
  ultimately show ?case by auto
qed simp

lemma bare_percents_unmigratable:
  assumes "bare_percents (database_url s)"
  shows "migration_env s options offline servers = (Inl ValueError, servers)"
proof -
  have "without_references (without_doubled (database_url s)) = database_url s"
    using assms without_doubled_bare without_references_bare unfolding bare_percents_def by metis
  then show ?thesis using assms by (simp add: migration_env_def set_main_option_def bare_percents_def)
qed

section \<open>Startup and shutdown\<close>

definition validate_migrations :: "database \<Rightarrow> startup_error + unit" where
  "validate_migrations d =
     (let expected_heads = set (script_heads versions); current_heads = set (db_heads d)
      in if current_heads \<noteq> expected_heads then Inl (NotUpToDate (expected_heads - current_heads))
         else Inr ())"

record application =
  serving_requests :: bool
  engine_open :: bool
  redis_open :: bool

text \<open>The engine and the Redis client exist from the import on.\<close>

definition imported :: application where
  "imported = \<lparr>serving_requests = False, engine_open = True, redis_open = True\<rparr>"

definition lifespan_startup :: "database \<Rightarrow> application \<Rightarrow> (startup_error + unit) \<times> application" where
  "lifespan_startup d app =
     (case validate_migrations d of
        Inl e \<Rightarrow> (Inl e, app)
      | Inr u \<Rightarrow> (Inr u, app\<lparr>serving_requests := True\<rparr>))"

definition close_engine :: "application \<Rightarrow> application" where
  "close_engine app = app\<lparr>engine_open := False\<rparr>"

definition close_redis :: "application \<Rightarrow> application" where
  "close_redis app = app\<lparr>redis_open := False\<rparr>"

definition lifespan_shutdown :: "application \<Rightarrow> application" where
  "lifespan_shutdown app = close_redis (close_engine (app\<lparr>serving_requests := False\<rparr>))"

section \<open>The log\<close>

datatype log_level_number = NOTSET | DEBUG | INFO | WARNING | ERROR | CRITICAL

text \<open>\<open>getattr(logging, name.upper(), logging.INFO)\<close>, for the names that are levels.\<close>

definition log_level_of :: "string \<Rightarrow> log_level_number" where
  "log_level_of name =
     (let n = py_upper name
      in if n = ''NOTSET'' then NOTSET
         else if n = ''DEBUG'' then DEBUG
         else if n = ''WARNING'' \<or> n = ''WARN'' then WARNING
         else if n = ''ERROR'' then ERROR
         else if n = ''CRITICAL'' \<or> n = ''FATAL'' then CRITICAL
         else INFO)"

datatype log_processor =
    Merge_Contextvars
  | Add_Logger_Name
  | Add_Log_Level
  | Time_Stamper string
  | Stack_Info_Renderer
  | JSON_Renderer
  | Console_Renderer bool

record logging_config =
  log_processors :: "log_processor list"
  log_minimum :: log_level_number
  log_format :: string

definition configure_logging :: "settings \<Rightarrow> logging_config" where
  "configure_logging s =
     (let shared_processors =
            [Merge_Contextvars, Add_Logger_Name, Add_Log_Level, Time_Stamper ''iso'', Stack_Info_Renderer]
      in \<lparr>log_processors = shared_processors @ (if is_production s then [JSON_Renderer] else [Console_Renderer True]),
          log_minimum = log_level_of (log_level s),
          log_format = ''%(message)s''\<rparr>)"

text \<open>The message of an entry is text when the last processor is a renderer and none before it is.\<close>

fun renders :: "log_processor \<Rightarrow> bool" where
  "renders JSON_Renderer \<longleftrightarrow> True"
| "renders (Console_Renderer c) \<longleftrightarrow> True"
| "renders _ \<longleftrightarrow> False"

lemma log_rendered_once:
  "list_all (\<lambda>p. \<not> renders p) (butlast (log_processors (configure_logging s))) \<and>
   renders (last (log_processors (configure_logging s)))"
  by (simp add: configure_logging_def Let_def)

lemma default_log_level: "log_minimum (configure_logging default_settings) = INFO"
  by code_simp

section \<open>Migrating and starting\<close>

lemma script_heads_versions: "script_heads versions = [''0001'']"
  by (simp add: script_heads_def versions_def revision_0001_def)

lemma startup_iff:
  "fst (lifespan_startup d app) = Inr () \<longleftrightarrow> set (db_heads d) = {''0001''}"
  by (auto simp: lifespan_startup_def validate_migrations_def script_heads_versions Let_def)

lemma migrate_fresh:
  assumes "room_for_migration (db_catalog d)" and "db_heads d = []"
  shows "do_run_migrations d = (Inr (), \<lparr>db_catalog = migrated (db_catalog d), db_heads = [''0001'']\<rparr>)"
  using assms upgrade_applies [OF assms(1)]
  by (simp add: do_run_migrations_def versions_def revision_0001_def)

lemma migrate_again:
  assumes "db_heads d = [''0001'']"
  shows "do_run_migrations d = (Inr (), d)"
  using assms by (simp add: do_run_migrations_def versions_def revision_0001_def)

lemma execute_statements:
  "execute_script (map Statement xs @ ls) d =
     (case apply_all xs (db_catalog d) of
        Inl e \<Rightarrow> Inl (MigrationFailed e)
      | Inr c \<Rightarrow> execute_script ls (d\<lparr>db_catalog := c\<rparr>))"
  by (induction xs arbitrary: d) (auto split: sum.split)

lemma offline_script:
  assumes "room_for_migration (db_catalog d)"
  shows "execute_script run_migrations_offline d = Inr \<lparr>db_catalog = migrated (db_catalog d), db_heads = [''0001'']\<rparr>"
  using upgrade_applies [OF assms]
  by (simp add: run_migrations_offline_def versions_def revision_0001_def execute_statements)

text \<open>
  C34. The migration creates the schema that the services rely on: on the empty database it
  succeeds, its tables are those of the mapped classes up to the server defaults, and a
  database satisfies every declared type, NOT NULL, CHECK, UNIQUE, primary and foreign key
  exactly when the model's tables satisfy \<open>schema_ok\<close>.
\<close>

theorem migration_declares_schema:
  "\<exists>c. apply_all upgrade empty_catalog = Inr c \<and> map without_defaults (cat_tables c) = target_metadata \<and>
     (\<forall>t. satisfies (cat_tables c) (database_rows t) \<longleftrightarrow> schema_ok t)"
proof -
  have "room_for_migration empty_catalog" by (simp add: room_for_migration_def empty_catalog_def)
  from upgrade_applies [OF this] show ?thesis
    by (auto simp: migrated_def empty_catalog_def migration_metadata migration_meaning)
qed

lemma migration_env_plain:
  assumes "CHR ''%'' \<notin> set (database_url s)"
  shows "migration_env s options True servers = (Inr run_migrations_offline, servers)"
    and "migration_env s options False servers =
      (case do_run_migrations (servers (database_url s)) of
         (Inl e, d) \<Rightarrow> (Inl (MigrationError e), servers(database_url s := d))
       | (Inr u, d) \<Rightarrow> (Inr [], servers(database_url s := d)))"
  using assms
  by (simp_all add: migration_env_def plain_url_stored interpolate_plain run_migrations_online_def
      split: sum.splits prod.splits)

text \<open>
  C35. Round trip of a deployment, for settings whose URL has no percent sign and a database
  there with room for the tables: the service refuses to start and names the missing revision;
  the migration environment brings this database, and no other, to the state that its offline
  script gives, from which the service starts and a second run changes nothing; the downgrade
  restores the catalog exactly.
\<close>

theorem migrate_start_downgrade:
  assumes "CHR ''%'' \<notin> set (database_url s)"
    and "room_for_migration (db_catalog (servers (database_url s)))" and "db_heads (servers (database_url s)) = []"
    and "migration_env s options False servers = (res, servers')"
    and "migration_env s options True servers = (Inr script, servers'')"
  shows "lifespan_startup (servers (database_url s)) app = (Inl (NotUpToDate {''0001''}), app) \<and>
    res = Inr [] \<and> servers'' = servers \<and> (\<forall>url. url \<noteq> database_url s \<longrightarrow> servers' url = servers url) \<and>
    execute_script script (servers (database_url s)) = Inr (servers' (database_url s)) \<and>
    lifespan_startup (servers' (database_url s)) app = (Inr (), app\<lparr>serving_requests := True\<rparr>) \<and>
    migration_env s options False servers' = (Inr [], servers') \<and>
    apply_all downgrade (db_catalog (servers' (database_url s))) = Inr (db_catalog (servers (database_url s)))"
proof -
  let ?d = "servers (database_url s)" and ?d' = "servers' (database_url s)"
  note env = migration_env_plain [OF assms(1)]
  have res: "res = Inr []" "servers' = servers(database_url s := \<lparr>db_catalog = migrated (db_catalog ?d), db_heads = [''0001'']\<rparr>)"
    using migrate_fresh [OF assms(2,3)] assms(4) by (simp_all add: env)
  moreover have "script = run_migrations_offline" "servers'' = servers" using assms(5) by (simp_all add: env)
  moreover from res have "do_run_migrations ?d' = (Inr (), ?d')" by (intro migrate_again) simp
  then have "migration_env s options False servers' = (Inr [], servers')" by (simp add: env)
  ultimately show ?thesis
    using assms(3) offline_script [OF assms(2)] downgrade_applies [OF assms(2)]
    by (simp add: lifespan_startup_def validate_migrations_def script_heads_versions)
qed

lemma py_str_int_plain: "CHR ''%'' \<notin> set (py_str_int i)"
proof -
  have "\<not> is_digit (CHR ''%'')" by (simp add: is_digit_def)
  then show ?thesis using nat_digits_digits by (auto simp: py_str_int_def)
qed

theorem migrate_start_downgrade_witness:
  "\<exists>servers'. migration_env default_settings Map.empty False (\<lambda>url. \<lparr>db_catalog = empty_catalog, db_heads = []\<rparr>) =
       (Inr [], servers') \<and>
     serving_requests (snd (lifespan_startup (servers' (database_url default_settings)) imported))"
proof -
  let ?servers = "\<lambda>url :: string. \<lparr>db_catalog = empty_catalog, db_heads = []\<rparr>"
  have plain: "CHR ''%'' \<notin> set (database_url default_settings)"
    by (simp add: database_url_def default_settings_def py_str_int_plain)
  have room: "room_for_migration (db_catalog (?servers (database_url default_settings)))"
    by (simp add: room_for_migration_def empty_catalog_def)
  obtain res servers' where m: "migration_env default_settings Map.empty False ?servers = (res, servers')"
    by (rule prod.exhaust)
  from migrate_start_downgrade [OF plain room _ m migration_env_plain(1) [OF plain], where app = imported] m
  show ?thesis by (simp add: imported_def)
qed

text \<open>A percent-encoded password keeps the migrations from running, on a service that starts with it.\<close>

lemma percent_encoded_password:
  "migration_env (default_settings\<lparr>db_password := ''p%40ss''\<rparr>) options offline servers = (Inl ValueError, servers)"
proof -
  have "CHR ''%'' \<in> set (without_references (without_doubled (database_url (default_settings\<lparr>db_password := ''p%40ss''\<rparr>))))"
    by (simp add: database_url_def default_settings_def py_str_int_def nat_digits.simps digit_char_def py_startswith_def)
  then show ?thesis by (simp add: migration_env_def set_main_option_def)
qed

end
