(* ===== verification/Postman.thy ===== *)
theory Postman
  imports Py_Text "HOL-Library.List_Lexorder" "HOL-Library.Char_ord"
begin

text \<open>
  \<open>scripts/generate_postman.py\<close>: the conversion of an OpenAPI specification to a Postman
  collection, and \<open>json.dumps\<close> with an indent of two, which writes both. The specification is
  taken with the fields that the script looks up; a field that \<open>dict.get\<close> gives a default for
  is optional. \<open>json.dumps\<close> is for text of Latin-1 characters; a \<open>float\<close> carries its \<open>repr\<close>.
\<close>

section \<open>JSON\<close>

datatype json =
    JNull
  | JBool bool
  | JInt int
  | JFloat string
  | JStr string
  | JArr "json list"
  | JObj "(string \<times> json) list"

fun truthy :: "json \<Rightarrow> bool" where
  "truthy JNull \<longleftrightarrow> False"
| "truthy (JBool b) \<longleftrightarrow> b"
| "truthy (JInt i) \<longleftrightarrow> i \<noteq> 0"
| "truthy (JFloat s) \<longleftrightarrow> s \<noteq> ''0.0'' \<and> s \<noteq> ''-0.0''"
| "truthy (JStr s) \<longleftrightarrow> s \<noteq> []"
| "truthy (JArr xs) \<longleftrightarrow> xs \<noteq> []"
| "truthy (JObj d) \<longleftrightarrow> d \<noteq> []"

definition newline :: string where
  "newline = [char_of (10 :: nat)]"

definition escape_char :: "char \<Rightarrow> string" where
  "escape_char c =
     (let n = (of_char c :: nat); slash = CHR 0x5C
      in if n = 34 then [slash, c]
         else if n = 92 then [slash, c]
         else if n = 10 then [slash, CHR ''n'']
         else if n = 13 then [slash, CHR ''r'']
         else if n = 9 then [slash, CHR ''t'']
         else if n = 12 then [slash, CHR ''f'']
         else if n = 8 then [slash, CHR ''b'']
         else if 32 \<le> n \<and> n \<le> 126 then [c]
         else slash # ''u00'' @ [hex_char (n div 16), hex_char (n mod 16)])"

definition quoted :: "string \<Rightarrow> string" where
  "quoted s = CHR 0x22 # concat (map escape_char s) @ [CHR 0x22]"

definition indented :: "nat \<Rightarrow> string" where
  "indented n = newline @ replicate (2 * n) (CHR '' '')"

fun dumps :: "nat \<Rightarrow> json \<Rightarrow> string"
  and dumps_values :: "nat \<Rightarrow> json list \<Rightarrow> string list"
  and dumps_fields :: "nat \<Rightarrow> (string \<times> json) list \<Rightarrow> string list" where
  "dumps n JNull = ''null''"
| "dumps n (JBool b) = (if b then ''true'' else ''false'')"
| "dumps n (JInt i) = py_str_int i"
| "dumps n (JFloat s) = s"
| "dumps n (JStr s) = quoted s"
| "dumps n (JArr xs) =
     (if xs = [] then ''[]''
      else ''['' @ indented (Suc n) @ py_join ('','' @ indented (Suc n)) (dumps_values (Suc n) xs)
           @ indented n @ '']'')"
| "dumps n (JObj d) =
     (if d = [] then [CHR 0x7B, CHR 0x7D]
      else CHR 0x7B # indented (Suc n) @ py_join ('','' @ indented (Suc n)) (dumps_fields (Suc n) d)
           @ indented n @ [CHR 0x7D])"
| "dumps_values n [] = []"
| "dumps_values n (x # xs) = dumps n x # dumps_values n xs"
| "dumps_fields n [] = []"
| "dumps_fields n ((k, v) # d) = (quoted k @ '': '' @ dumps n v) # dumps_fields n d"

section \<open>The specification\<close>

record oa_parameter =
  par_name :: string
  par_in :: "string option"
  par_description :: "string option"
  par_required :: "bool option"

record oa_property =
  prop_type :: "string option"
  prop_example :: "json option"

record oa_schema =
  sch_ref :: "string option"
  sch_example :: "json option"
  sch_properties :: "(string \<times> oa_property) list"
  sch_required :: "string list"

text \<open>
  \<open>op_request_body\<close> is the schema of the body's \<open>application/json\<close> content: \<open>None\<close> when
  there is no body, the empty schema when it has no such content.
\<close>

record oa_operation =
  op_tags :: "string list"
  op_summary :: "string option"
  op_description :: "string option"
  op_parameters :: "oa_parameter list"
  op_request_body :: "oa_schema option"

record openapi_spec =
  info_title :: "string option"
  info_description :: "string option"
  server_urls :: "string list option"
  oa_paths :: "(string \<times> (string \<times> oa_operation) list) list"
  component_schemas :: "(string \<times> oa_schema) list"

definition empty_schema :: oa_schema where
  "empty_schema = \<lparr>sch_ref = None, sch_example = None, sch_properties = [], sch_required = []\<rparr>"

definition empty_property :: oa_property where
  "empty_property = \<lparr>prop_type = None, prop_example = None\<rparr>"

section \<open>Examples of request bodies\<close>

definition example_value :: "string \<Rightarrow> oa_property \<Rightarrow> json" where
  "example_value field prop =
     (let ptype = (case prop_type prop of None \<Rightarrow> ''string'' | Some t \<Rightarrow> t);
          example_or = (\<lambda>d. case prop_example prop of None \<Rightarrow> d | Some e \<Rightarrow> e)
      in if ptype = ''string'' then example_or (JStr (''example_'' @ field))
         else if ptype = ''integer'' then example_or (JInt 1)
         else if ptype = ''number'' then example_or (JFloat ''9.99'')
         else if ptype = ''boolean'' then example_or (JBool False)
         else JNull)"

definition resolved :: "openapi_spec \<Rightarrow> oa_schema \<Rightarrow> oa_schema" where
  "resolved spec schema =
     (case sch_ref schema of
        None \<Rightarrow> schema
      | Some r \<Rightarrow> dict_get (component_schemas spec) (last (py_split (CHR ''/'') r)) empty_schema)"

definition extract_example :: "openapi_spec \<Rightarrow> oa_schema \<Rightarrow> json" where
  "extract_example spec content_schema =
     (let schema = resolved spec content_schema; props = sch_properties schema; required = sch_required schema
      in case sch_example schema of
           Some e \<Rightarrow> e
         | None \<Rightarrow>
             if props = [] then JNull
             else JObj (fold (\<lambda>field example.
                    dict_set field (example_value field (dict_get props field empty_property)) example)
                  (if required = [] then map fst props else required) []))"

section \<open>The items of the collection\<close>

definition path_variable :: "oa_parameter \<Rightarrow> json" where
  "path_variable v =
     JObj [(''key'', JStr (par_name v)), (''value'', JStr ('':'' @ par_name v)),
           (''description'', JStr (case par_description v of None \<Rightarrow> [] | Some d \<Rightarrow> d))]"

definition query_param :: "oa_parameter \<Rightarrow> json" where
  "query_param v =
     JObj [(''key'', JStr (par_name v)), (''value'', JStr []),
           (''description'', JStr (case par_description v of None \<Rightarrow> [] | Some d \<Rightarrow> d)),
           (''disabled'', JBool (par_required v \<noteq> Some True))]"

text \<open>A segment holds no slash, so that \<open>lstrip('/')\<close> leaves it as it is.\<close>

definition url_obj :: "string \<Rightarrow> string \<Rightarrow> oa_operation \<Rightarrow> json" where
  "url_obj base_url path op =
     (let path_vars = map path_variable (filter (\<lambda>v. par_in v = Some ''path'') (op_parameters op));
          query_params = map query_param (filter (\<lambda>v. par_in v = Some ''query'') (op_parameters op))
      in JObj ([(''raw'', JStr (base_url @ path)), (''host'', JArr [JStr base_url]),
                (''path'', JArr (map JStr (filter (\<lambda>seg. seg \<noteq> []) (py_split (CHR ''/'') path))))]
           @ (if path_vars = [] then [] else [(''variable'', JArr path_vars)])
           @ (if query_params = [] then [] else [(''query'', JArr query_params)])))"

definition postman_headers :: json where
  "postman_headers =
     JArr [JObj [(''key'', JStr ''Content-Type''), (''value'', JStr ''application/json'')],
           JObj [(''key'', JStr ''X-API-Key''), (''value'', JStr ([CHR 0x7B, CHR 0x7B] @ ''api_key'' @ [CHR 0x7D, CHR 0x7D])),
                 (''description'', JStr ''Required when REQUIRE_AUTH=true''), (''disabled'', JBool True)]]"

definition postman_body :: "openapi_spec \<Rightarrow> oa_schema \<Rightarrow> json" where
  "postman_body spec schema =
     (let example = extract_example spec schema
      in JObj [(''mode'', JStr ''raw''),
               (''raw'', JStr (if truthy example then dumps 0 example else [CHR 0x7B, CHR 0x7D])),
               (''options'', JObj [(''raw'', JObj [(''language'', JStr ''json'')])])])"

definition postman_item :: "openapi_spec \<Rightarrow> string \<Rightarrow> string \<Rightarrow> string \<Rightarrow> oa_operation \<Rightarrow> json" where
  "postman_item spec base_url path verb op =
     JObj [(''name'', JStr (case op_summary op of None \<Rightarrow> py_upper verb @ '' '' @ path | Some s \<Rightarrow> s)),
           (''request'', JObj ([(''method'', JStr (py_upper verb)), (''header'', postman_headers),
              (''url'', url_obj base_url path op),
              (''description'', JStr (case op_description op of None \<Rightarrow> [] | Some d \<Rightarrow> d))]
              @ (case op_request_body op of None \<Rightarrow> [] | Some schema \<Rightarrow> [(''body'', postman_body spec schema)]))),
           (''response'', JArr [])]"

section \<open>The folders\<close>

definition allowed_verbs :: "string list" where
  "allowed_verbs = [''GET'', ''POST'', ''PUT'', ''PATCH'', ''DELETE'']"

definition first_tag :: "oa_operation \<Rightarrow> string" where
  "first_tag op = (case op_tags op of [] \<Rightarrow> ''default'' | t # ts \<Rightarrow> t)"

text \<open>\<open>setdefault\<close> and \<open>append\<close>.\<close>

fun add_to_folder :: "string \<Rightarrow> 'i \<Rightarrow> (string \<times> 'i list) list \<Rightarrow> (string \<times> 'i list) list" where
  "add_to_folder tag item [] = [(tag, [item])]"
| "add_to_folder tag item ((t, xs) # fs) =
     (if t = tag then (t, xs @ [item]) # fs else (t, xs) # add_to_folder tag item fs)"

fun add_operations ::
  "openapi_spec \<Rightarrow> string \<Rightarrow> string \<Rightarrow> (string \<times> oa_operation) list \<Rightarrow> (string \<times> json list) list
     \<Rightarrow> (string \<times> json list) list" where
  "add_operations spec base_url path [] folders = folders"
| "add_operations spec base_url path ((verb, op) # ops) folders =
     (if py_upper verb \<notin> set allowed_verbs then add_operations spec base_url path ops folders
      else add_operations spec base_url path ops
             (add_to_folder (first_tag op) (postman_item spec base_url path verb op) folders))"

fun add_paths ::
  "openapi_spec \<Rightarrow> string \<Rightarrow> (string \<times> (string \<times> oa_operation) list) list \<Rightarrow> (string \<times> json list) list
     \<Rightarrow> (string \<times> json list) list" where
  "add_paths spec base_url [] folders = folders"
| "add_paths spec base_url ((path, ops) # paths) folders =
     add_paths spec base_url paths (add_operations spec base_url path ops folders)"

definition base_url_of :: "openapi_spec \<Rightarrow> string option" where
  "base_url_of spec =
     (case server_urls spec of
        None \<Rightarrow> Some (py_rstrip (CHR ''/'') ''http://localhost:8000'')
      | Some [] \<Rightarrow> None
      | Some (u # us) \<Rightarrow> Some (py_rstrip (CHR ''/'') u))"

definition folder_json :: "string \<times> json list \<Rightarrow> json" where
  "folder_json f =
     JObj [(''name'', JStr (py_title (fst f))), (''item'', JArr (snd f)), (''_postman_isSubFolder'', JBool False)]"

text \<open>\<open>None\<close> is the \<open>IndexError\<close> of an empty list of servers.\<close>

definition openapi_to_postman :: "openapi_spec \<Rightarrow> json option" where
  "openapi_to_postman spec =
     (case base_url_of spec of
        None \<Rightarrow> None
      | Some base_url \<Rightarrow>
          let folders = add_paths spec base_url (oa_paths spec) []
          in Some (JObj
               [(''info'', JObj
                  [(''name'', JStr (case info_title spec of None \<Rightarrow> ''Nova Inventory Service'' | Some t \<Rightarrow> t)),
                   (''description'', JStr (case info_description spec of None \<Rightarrow> [] | Some d \<Rightarrow> d)),
                   (''schema'', JStr ''https://schema.getpostman.com/json/collection/v2.1.0/collection.json''),
                   (''_postman_id'', JStr ''nova-inventory-v0.1.0'')]),
                (''item'', JArr (map folder_json (sort_key fst folders))),
                (''variable'', JArr
                  [JObj [(''key'', JStr ''base_url''), (''value'', JStr ''http://localhost:8000''), (''type'', JStr ''string'')],
                   JObj [(''key'', JStr ''api_key''), (''value'', JStr ''your-api-key-here''), (''type'', JStr ''string'')]]),
                (''event'', JArr [])]))"

section \<open>The two files\<close>

text \<open>
  The script: the collection and the specification itself, written under the \<open>docs\<close> directory
  beside the directory of the script, and the lines on standard error. \<open>spec_json\<close> is the
  specification as the application gives it; a failed conversion writes nothing.
\<close>

definition path_parent :: "string \<Rightarrow> string" where
  "path_parent p = rev (tl (dropWhile (\<lambda>c. c \<noteq> CHR ''/'') (rev p)))"

definition write_exports ::
  "string \<Rightarrow> json \<Rightarrow> openapi_spec \<Rightarrow> (string \<rightharpoonup> string) \<Rightarrow> ((string \<rightharpoonup> string) \<times> string list) option" where
  "write_exports script_file spec_json spec files =
     (case openapi_to_postman spec of
        None \<Rightarrow> None
      | Some collection \<Rightarrow>
          let docs_dir = path_parent (path_parent script_file) @ ''/docs'';
              postman_path = docs_dir @ ''/postman_collection.json'';
              openapi_path = docs_dir @ ''/openapi.json''
          in Some (files(postman_path \<mapsto> dumps 0 collection, openapi_path \<mapsto> dumps 0 spec_json),
                   [''Postman collection written to '' @ postman_path, ''OpenAPI spec written to '' @ openapi_path]))"

lemma write_exports_writes:
  assumes "write_exports script_file spec_json spec files = Some (files', shown)"
    and "openapi_to_postman spec = Some collection"
    and "docs_dir = path_parent (path_parent script_file) @ ''/docs''"
  shows "files' (docs_dir @ ''/postman_collection.json'') = Some (dumps 0 collection)"
    and "files' (docs_dir @ ''/openapi.json'') = Some (dumps 0 spec_json)"
    and "path \<noteq> docs_dir @ ''/postman_collection.json'' \<Longrightarrow> path \<noteq> docs_dir @ ''/openapi.json'' \<Longrightarrow> files' path = files path"
  using assms by (auto simp: write_exports_def Let_def)

lemma docs_beside_scripts: "path_parent (path_parent ''/app/scripts/generate_postman.py'') = ''/app''"
  by (simp add: path_parent_def)

section \<open>What the loops collect\<close>

text \<open>The operations of the specification that are converted, in its order, with their tags.\<close>

definition converted_operations :: "openapi_spec \<Rightarrow> string \<Rightarrow> (string \<times> json) list" where
  "converted_operations spec base_url =
     concat (map (\<lambda>(path, ops).
       map (\<lambda>(verb, op). (first_tag op, postman_item spec base_url path verb op))
         (filter (\<lambda>(verb, op). py_upper verb \<in> set allowed_verbs) ops)) (oa_paths spec))"

lemma add_operations_fold:
  "add_operations spec base_url path ops folders =
     fold (\<lambda>(t, i). add_to_folder t i)
       (map (\<lambda>(verb, op). (first_tag op, postman_item spec base_url path verb op))
         (filter (\<lambda>(verb, op). py_upper verb \<in> set allowed_verbs) ops)) folders"
  by (induction ops arbitrary: folders) (auto simp del: set_simps)

lemma add_paths_fold:
  "add_paths spec base_url paths folders =
     fold (\<lambda>(t, i). add_to_folder t i)
       (concat (map (\<lambda>(path, ops).
         map (\<lambda>(verb, op). (first_tag op, postman_item spec base_url path verb op))
           (filter (\<lambda>(verb, op). py_upper verb \<in> set allowed_verbs) ops)) paths)) folders"
  by (induction paths arbitrary: folders) (auto simp: add_operations_fold)

lemma add_to_folder_keys:
  fixes fs :: "(string \<times> 'b list) list"
  shows
  "fst ` set (add_to_folder t i fs) = insert t (fst ` set fs)"
  "distinct (map fst fs) \<Longrightarrow> distinct (map fst (add_to_folder t i fs))"
proof -
  show keys: "fst ` set (add_to_folder t i fs) = insert t (fst ` set fs)" for t i and fs :: "(string \<times> 'b list) list"
    by (induction t i fs rule: add_to_folder.induct) auto
  show "distinct (map fst fs) \<Longrightarrow> distinct (map fst (add_to_folder t i fs))"
    by (induction t i fs rule: add_to_folder.induct) (simp_all add: keys, blast)
qed

lemma map_of_add_to_folder:
  "map_of (add_to_folder t i fs) k =
     (if k = t then Some ((case map_of fs t of None \<Rightarrow> [] | Some xs \<Rightarrow> xs) @ [i]) else map_of fs k)"
  by (induction fs) auto

lemma folded_folders:
  fixes xs :: "(string \<times> 'i) list" and fs :: "(string \<times> 'i list) list"
  assumes "distinct (map fst fs)"
  defines "fs' \<equiv> fold (\<lambda>(t, i). add_to_folder t i) xs fs"
  shows "distinct (map fst fs')" and "set (map fst fs') = set (map fst fs) \<union> set (map fst xs)"
    and "k \<in> set (map fst fs') \<Longrightarrow> map_of fs' k =
      Some ((case map_of fs k of None \<Rightarrow> [] | Some ys \<Rightarrow> ys) @ map snd (filter (\<lambda>(t, i). t = k) xs))"
proof -
  have "distinct (map fst (fold (\<lambda>(t, i). add_to_folder t i) xs fs)) \<and>
    set (map fst (fold (\<lambda>(t, i). add_to_folder t i) xs fs)) = set (map fst fs) \<union> set (map fst xs) \<and>
    (k \<in> set (map fst fs) \<union> set (map fst xs) \<longrightarrow> map_of (fold (\<lambda>(t, i). add_to_folder t i) xs fs) k =
      Some ((case map_of fs k of None \<Rightarrow> [] | Some ys \<Rightarrow> ys) @ map snd (filter (\<lambda>(t, i). t = k) xs)))"
    using assms(1)
  proof (induction xs arbitrary: fs)
    case Nil
    then show ?case by (auto simp: map_of_eq_None_iff split: option.split)
  next
    case (Cons x xs)
    obtain t i where x: "x = (t, i)" by (rule prod.exhaust)
    have "distinct (map fst (add_to_folder t i fs))" by (rule add_to_folder_keys(2)) (rule Cons.prems)
    from Cons.IH [OF this] show ?case
      using add_to_folder_keys(1) [of t i fs]
      by (auto simp: x map_of_add_to_folder)
  qed
  then show "distinct (map fst fs')" "set (map fst fs') = set (map fst fs) \<union> set (map fst xs)"
    "k \<in> set (map fst fs') \<Longrightarrow> map_of fs' k =
      Some ((case map_of fs k of None \<Rightarrow> [] | Some ys \<Rightarrow> ys) @ map snd (filter (\<lambda>(t, i). t = k) xs))"
    unfolding fs'_def by blast+
qed

lemma sorted_by_key:
  fixes fs :: "('k :: linorder \<times> 'v) list"
  assumes "distinct (map fst fs)" and "set (map fst fs) = set ks"
    and "\<And>k. k \<in> set (map fst fs) \<Longrightarrow> map_of fs k = Some (g k)"
  shows "sort_key fst fs = map (\<lambda>k. (k, g k)) (sort (remdups ks))"
proof -
  have "map fst (sort_key fst fs) = sort (remdups ks)"
  proof (rule sorted_distinct_set_unique)
    show "distinct (map fst (sort_key fst fs))" using assms(1) by (simp add: distinct_map)
  qed (use assms(2) in simp_all)
  moreover have "snd f = g (fst f)" if "f \<in> set fs" for f
    using that assms(3) [of "fst f"] map_of_eq_Some_iff [OF assms(1), of "fst f" "snd f"] by simp
  then have "sort_key fst fs = map (\<lambda>k. (k, g k)) (map fst (sort_key fst fs))"
    by (simp add: comp_def) (metis (no_types, lifting) map_idI prod.collapse set_sort)
  ultimately show ?thesis by simp
qed

text \<open>
  C36. The loops of the Postman generator group the operations: the collection has one folder per
  tag, in the order of the tags, and a folder holds exactly the converted operations whose first
  tag it is, each once and in the order of the specification.
\<close>

theorem postman_groups_operations:
  assumes "base_url_of spec = Some base_url" and "openapi_to_postman spec = Some (JObj d)"
  shows "map_of d ''item'' = Some (JArr (map
    (\<lambda>tag. folder_json (tag, map snd (filter (\<lambda>(t, item). t = tag) (converted_operations spec base_url))))
    (sort (remdups (map fst (converted_operations spec base_url))))))"
proof -
  let ?xs = "converted_operations spec base_url"
  have p: "add_paths spec base_url (oa_paths spec) [] = fold (\<lambda>(t, i). add_to_folder t i) ?xs []"
    by (simp add: add_paths_fold converted_operations_def)
  have "sort_key fst (add_paths spec base_url (oa_paths spec) []) =
      map (\<lambda>k. (k, map snd (filter (\<lambda>(t, item). t = k) ?xs))) (sort (remdups (map fst ?xs)))"
    unfolding p by (rule sorted_by_key) (use folded_folders [where fs = "[]" and xs = ?xs] in simp_all)
  then show ?thesis
    using assms by (auto simp: openapi_to_postman_def Let_def comp_def)
qed

definition sample_operation :: "string \<Rightarrow> oa_operation" where
  "sample_operation tag =
     \<lparr>op_tags = [tag], op_summary = Some tag, op_description = None, op_parameters = [], op_request_body = None\<rparr>"

definition sample_spec :: openapi_spec where
  "sample_spec =
     \<lparr>info_title = None, info_description = None, server_urls = None,
      oa_paths = [(''/stock'', [(''get'', sample_operation ''stock'')]),
                  (''/items'', [(''post'', sample_operation ''items''), (''head'', sample_operation ''items'')])],
      component_schemas = []\<rparr>"

theorem postman_groups_operations_witness:
  "\<exists>d a b. openapi_to_postman sample_spec = Some (JObj d) \<and>
     map_of d ''item'' = Some (JArr [folder_json (''items'', [a]), folder_json (''stock'', [b])])"
proof -
  have base: "base_url_of sample_spec = Some ''http://localhost:8000''" by code_simp
  then obtain d where d: "openapi_to_postman sample_spec = Some (JObj d)"
    by (simp add: openapi_to_postman_def Let_def)
  have verbs: "py_upper ''get'' = ''GET''" "py_upper ''post'' = ''POST''" "py_upper ''head'' = ''HEAD''" by code_simp+
  have xs: "converted_operations sample_spec u =
      [(''stock'', postman_item sample_spec u ''/stock'' ''get'' (sample_operation ''stock'')),
       (''items'', postman_item sample_spec u ''/items'' ''post'' (sample_operation ''items''))]" for u
    by (simp add: converted_operations_def sample_spec_def sample_operation_def first_tag_def allowed_verbs_def verbs)
  have "sort (remdups [''stock'', ''items'']) = [''items'', ''stock'']" by code_simp
  with postman_groups_operations [OF base d] show ?thesis by (auto simp: xs d)
qed

end
