(* ===== verification/Copyright_Check.thy ===== *)
theory Copyright_Check
  imports Py_Text
begin

text \<open>
  \<open>scripts/check_copyright.py\<close>, the pre-commit hook: the exit code and the printed lines for the
  files named on the command line, over a file system given as the text of every file.
\<close>

definition COPYRIGHT_HEADER :: string where
  "COPYRIGHT_HEADER = CHR 0x23 # '' Copyright (c) 2026 Nova Inventory Service. All Rights Reserved.''"

definition missing_header :: "(string \<rightharpoonup> string) \<Rightarrow> string list \<Rightarrow> string list" where
  "missing_header texts files =
     filter (\<lambda>f. case texts f of None \<Rightarrow> False | Some content \<Rightarrow> \<not> py_startswith content COPYRIGHT_HEADER) files"

definition check_copyright :: "(string \<rightharpoonup> string) \<Rightarrow> string list \<Rightarrow> int \<times> string list" where
  "check_copyright texts files =
     (if files = [] then (0, [])
      else let missing = missing_header texts files
           in if missing \<noteq> [] then
                (1, ''ERROR: Missing copyright header in the following files:'' # map (\<lambda>f. ''  '' @ f) missing
                    @ [[], ''Add this as the first line of each file:'', ''  '' @ COPYRIGHT_HEADER])
              else (0, []))"

text \<open>The hook passes exactly when every named file that exists begins with the header.\<close>

lemma check_copyright_passes:
  "fst (check_copyright texts files) = 0 \<longleftrightarrow>
     (\<forall>f \<in> set files. \<forall>content. texts f = Some content \<longrightarrow> (\<exists>rest. content = COPYRIGHT_HEADER @ rest))"
  by (auto simp: check_copyright_def missing_header_def Let_def filter_empty_conv py_startswith_iff
      split: option.splits)

lemma check_copyright_names:
  assumes "f \<in> set (missing_header texts files)"
  shows "''  '' @ f \<in> set (snd (check_copyright texts files))"
proof -
  have "missing_header texts files \<noteq> []" using assms by (cases "missing_header texts files") simp_all
  moreover from this have "files \<noteq> []" by (auto simp: missing_header_def)
  ultimately show ?thesis using assms by (simp add: check_copyright_def Let_def)
qed

end
