(* ===== verification/Seed.thy ===== *)
theory Seed
  imports Serial_Runs Sample_State
begin

text \<open>
  \<open>scripts/seed.py\<close>: a client of the running service. It lists the items, creates those of its
  list that are missing, places orders and moves them through the state machine, and prints a
  summary. Every request goes through \<open>serve\<close>, without an API key; what the script prints is
  kept as a list of the printed values, their wording left out.
\<close>

section \<open>The client\<close>

datatype printed =
    Server_Health body
  | Post_Failed string int body
  | Action_Failed string uuid int body
  | Item_Skipped string
  | Item_Created string uuid int
  | Total_Items nat
  | Item_Not_Found string
  | Order_Line string int string string
  | Rejected_Line int string string "string + int"
  | Summary_Count string nat
  | Summary_Amount string decimal
  | Alert_Line string int int
  | No_Alerts

datatype script_error = TypeError | KeyError string | JSONDecodeError

record 'r seed_run =
  service :: "'r world"
  shown :: "printed list"

type_synonym ('r, 'a) script = "('r seed_run, script_error, 'a) action"

definition send :: "'r env \<Rightarrow> endpoint \<Rightarrow> ('r, http_response) script" where
  "send env e = (\<lambda>s.
     case serve env True \<lparr>req_endpoint = e, req_api_key = None\<rparr> (service s) of
       (response, w) \<Rightarrow> (Inr response, s\<lparr>service := w\<rparr>))"

definition show_line :: "printed \<Rightarrow> ('r, unit) script" where
  "show_line l = (\<lambda>s. (Inr (), s\<lparr>shown := shown s @ [l]\<rparr>))"

definition succeeded :: "http_response \<Rightarrow> bool" where
  "succeeded r \<longleftrightarrow> resp_status r = 200 \<or> resp_status r = 201"

text \<open>\<open>r.json()\<close>: only the plain text of the outermost handler is not JSON.\<close>

definition json_of :: "http_response \<Rightarrow> ('r, body) script" where
  "json_of r = (if resp_status r = 500 then raise_exn JSONDecodeError else done_with (resp_body r))"

text \<open>\<open>{}\<close>, which is false, is \<open>None\<close>; the JSON of a success is never empty.\<close>

definition post :: "'r env \<Rightarrow> endpoint \<Rightarrow> ('r, body option) script" where
  "post env e =
     and_then (send env e) (\<lambda>r.
     if \<not> succeeded r
     then and_then (show_line (Post_Failed (endpoint_path e) (resp_status r) (resp_body r))) (\<lambda>_. done_with None)
     else done_with (Some (resp_body r)))"

definition seed_transition :: "'r env \<Rightarrow> uuid \<Rightarrow> order_action \<Rightarrow> ('r, body option) script" where
  "seed_transition env oid a =
     and_then (send env (PostOrderAction oid a)) (\<lambda>r.
     if \<not> succeeded r
     then and_then (show_line (Action_Failed (action_value a) oid (resp_status r) (resp_body r))) (\<lambda>_. done_with None)
     else done_with (Some (resp_body r)))"

section \<open>The data\<close>

definition ITEMS :: "ItemCreate list" where
  "ITEMS =
     [item_create_body ''Pepperoni Pizza'' (Some ''Spicy pepperoni with extra cheese'') (Dec 1499 (- 2)) 40 (Some 10),
      item_create_body ''Caesar Salad'' (Some ''Romaine lettuce, parmesan, croutons'') (Dec 899 (- 2)) 7 (Some 8),
      item_create_body ''Chicken Burger'' (Some ''Crispy fried chicken with coleslaw'') (Dec 1150 (- 2)) 25 (Some 5),
      item_create_body ''Veggie Wrap'' (Some ''Grilled vegetables with hummus'') (Dec 999 (- 2)) 18 (Some 5),
      item_create_body ''Fish & Chips'' (Some ''Beer-battered cod with thick-cut chips'') (Dec 1350 (- 2)) 3 (Some 10),
      item_create_body ''Chocolate Lava Cake'' (Some ''Warm chocolate cake with vanilla ice cream'') (Dec 699 (- 2)) 20 (Some 5),
      item_create_body ''Beef Steak'' (Some ''250g prime ribeye, medium rare'') (Dec 2499 (- 2)) 12 (Some 5),
      item_create_body ''Garlic Bread'' (Some ''Toasted sourdough with garlic butter'') (Dec 450 (- 2)) 0 (Some 5),
      item_create_body ''Sparkling Water'' (Some ''500ml chilled sparkling water'') (Dec 299 (- 2)) 100 (Some 20),
      item_create_body ''Craft Beer'' (Some ''Local IPA, 330ml'') (Dec 599 (- 2)) 6 (Some 10),
      item_create_body ''Premium Coffee'' (Some ''Single-origin espresso, served hot or iced'') (Dec 349 (- 2)) 50 (Some 10)]"

type_synonym order_spec = "string \<times> int \<times> string"

definition delivered_orders :: "order_spec list" where
  "delivered_orders =
     [(''Pepperoni Pizza'', 3, ''CUST-101''), (''Chicken Burger'', 2, ''CUST-102''), (''Beef Steak'', 1, ''CUST-103''),
      (''Premium Coffee'', 4, ''CUST-104''), (''Sparkling Water'', 6, ''CUST-105'')]"

definition shipped_orders :: "order_spec list" where
  "shipped_orders = [(''Chocolate Lava Cake'', 2, ''CUST-201''), (''Veggie Wrap'', 3, ''CUST-202'')]"

definition confirmed_orders :: "order_spec list" where
  "confirmed_orders = [(''Pepperoni Pizza'', 2, ''CUST-301''), (''Craft Beer'', 2, ''CUST-302'')]"

definition pending_orders :: "order_spec list" where
  "pending_orders = [(''Caesar Salad'', 2, ''CUST-401''), (''Fish & Chips'', 1, ''CUST-402'')]"

definition cancelled_orders :: "order_spec list" where
  "cancelled_orders = [(''Chicken Burger'', 3, ''CUST-501''), (''Premium Coffee'', 2, ''CUST-502'')]"

definition rejected_orders :: "order_spec list" where
  "rejected_orders = [(''Garlic Bread'', 5, ''CUST-601''), (''Fish & Chips'', 99, ''CUST-602'')]"

section \<open>The run\<close>

type_synonym item_map = "(string \<times> uuid) list"

text \<open>The items that are there already; the later entry of a name wins.\<close>

definition existing_items :: "'r env \<Rightarrow> ('r, item_map) script" where
  "existing_items env =
     and_then (send env GetItems) (\<lambda>r.
     and_then (json_of r) (\<lambda>b.
     case b of
       ItemsBody items \<Rightarrow> done_with (fold (\<lambda>i m. dict_set (ir_name i) (ir_id i) m) items [])
     | _ \<Rightarrow> raise_exn TypeError))"

fun seed_items :: "'r env \<Rightarrow> ItemCreate list \<Rightarrow> item_map \<Rightarrow> ('r, item_map) script" where
  "seed_items env [] m = done_with m"
| "seed_items env (b # bs) m =
     (if map_of m (ic_name b) \<noteq> None then
        and_then (show_line (Item_Skipped (ic_name b))) (\<lambda>_. seed_items env bs m)
      else
        and_then (post env (PostItem b)) (\<lambda>result.
        case result of
          None \<Rightarrow> seed_items env bs m
        | Some (ItemBody i) \<Rightarrow>
            and_then (show_line (Item_Created (ir_name i) (ir_id i) (ir_stock_quantity i))) (\<lambda>_.
            seed_items env bs (dict_set (ir_name i) (ir_id i) m))
        | Some _ \<Rightarrow> raise_exn (KeyError ''name'')))"

definition seed_order :: "'r env \<Rightarrow> item_map \<Rightarrow> order_spec \<Rightarrow> ('r, uuid option) script" where
  "seed_order env m spec =
     (case spec of (name, qty, ref) \<Rightarrow>
        (case map_of m name of
           None \<Rightarrow> and_then (show_line (Item_Not_Found name)) (\<lambda>_. done_with None)
         | Some iid \<Rightarrow>
             and_then (post env (PostOrder \<lparr>oc_item_id = iid, oc_quantity = qty, oc_customer_ref = Some ref\<rparr>)) (\<lambda>r.
             done_with (case r of Some (OrderBody p) \<Rightarrow> Some (or_id p) | _ \<Rightarrow> None))))"

fun transitions :: "'r env \<Rightarrow> uuid \<Rightarrow> order_action list \<Rightarrow> ('r, unit) script" where
  "transitions env oid [] = done_with ()"
| "transitions env oid (a # as) = and_then (seed_transition env oid a) (\<lambda>_. transitions env oid as)"

text \<open>One of the loops: place each order of a list and send it through some transitions.\<close>

fun seed_stage ::
  "'r env \<Rightarrow> item_map \<Rightarrow> string \<Rightarrow> order_action list \<Rightarrow> order_spec list \<Rightarrow> ('r, unit) script" where
  "seed_stage env m label as [] = done_with ()"
| "seed_stage env m label as (spec # specs) =
     and_then (seed_order env m spec) (\<lambda>placed.
     case placed of
       None \<Rightarrow> seed_stage env m label as specs
     | Some oid \<Rightarrow>
         and_then (transitions env oid as) (\<lambda>_.
         and_then (show_line (Order_Line label (fst (snd spec)) (fst spec) (snd (snd spec)))) (\<lambda>_.
         seed_stage env m label as specs)))"

fun seed_rejected :: "'r env \<Rightarrow> item_map \<Rightarrow> order_spec list \<Rightarrow> ('r, unit) script" where
  "seed_rejected env m [] = done_with ()"
| "seed_rejected env m (spec # specs) =
     and_then (seed_order env m spec) (\<lambda>placed.
     case placed of
       None \<Rightarrow> seed_rejected env m specs
     | Some oid \<Rightarrow>
         and_then (send env (PostOrderAction oid ConfirmAction)) (\<lambda>r.
         and_then (json_of r) (\<lambda>b.
         and_then (show_line (Rejected_Line (fst (snd spec)) (fst spec) (snd (snd spec))
           (case b of DetailBody d \<Rightarrow> Inl d | _ \<Rightarrow> Inr (resp_status r)))) (\<lambda>_.
         seed_rejected env m specs))))"

definition summary_lines :: "AnalyticsSummary \<Rightarrow> printed list" where
  "summary_lines summary =
     (let s = as_stock summary; ord = as_orders summary
      in [Summary_Count ''Items'' (total_items s), Summary_Count ''out-of-stock'' (out_of_stock_count s),
          Summary_Count ''low-stock'' (low_stock_count s), Summary_Amount ''Stock value'' (total_value s),
          Summary_Count ''Orders'' (total_orders ord), Summary_Count ''Delivered'' (delivered_count ord),
          Summary_Count ''Shipped'' (shipped_count ord), Summary_Count ''Confirmed'' (confirmed_count ord),
          Summary_Count ''Pending'' (pending_count ord), Summary_Count ''Cancelled'' (cancelled_count ord),
          Summary_Count ''Rejected'' (rejected_count ord), Summary_Amount ''Revenue'' (revenue ord),
          Summary_Amount ''Refunds'' (refund_value ord)])"

fun show_lines :: "printed list \<Rightarrow> ('r, unit) script" where
  "show_lines [] = done_with ()"
| "show_lines (l # ls) = and_then (show_line l) (\<lambda>_. show_lines ls)"

definition show_summary :: "'r env \<Rightarrow> ('r, unit) script" where
  "show_summary env =
     and_then (send env (GetAnalyticsSummary 30)) (\<lambda>r.
     and_then (json_of r) (\<lambda>b.
     case b of
       SummaryBody summary \<Rightarrow> show_lines (summary_lines summary)
     | _ \<Rightarrow> raise_exn (KeyError ''stock'')))"

definition show_alerts :: "'r env \<Rightarrow> ('r, unit) script" where
  "show_alerts env =
     and_then (send env GetStockAlertsLow) (\<lambda>r.
     and_then (json_of r) (\<lambda>b.
     case b of
       AlertsBody alerts \<Rightarrow>
         show_lines (if alerts = [] then [No_Alerts]
                     else map (\<lambda>a. Alert_Line (la_name a) (la_stock_quantity a) (la_low_stock_threshold a)) alerts)
     | _ \<Rightarrow> raise_exn TypeError))"

definition seed_orders :: "'r env \<Rightarrow> item_map \<Rightarrow> ('r, unit) script" where
  "seed_orders env m =
     and_then (seed_stage env m ''DELIVERED'' [ConfirmAction, ShipAction, DeliverAction] delivered_orders) (\<lambda>_.
     and_then (seed_stage env m ''SHIPPED'' [ConfirmAction, ShipAction] shipped_orders) (\<lambda>_.
     and_then (seed_stage env m ''CONFIRMED'' [ConfirmAction] confirmed_orders) (\<lambda>_.
     and_then (seed_stage env m ''PENDING'' [] pending_orders) (\<lambda>_.
     and_then (seed_stage env m ''CANCELLED'' [ConfirmAction, CancelAction] cancelled_orders) (\<lambda>_.
     seed_rejected env m rejected_orders)))))"

definition seed :: "'r env \<Rightarrow> ('r, unit) script" where
  "seed env =
     and_then (send env GetHealth) (\<lambda>r.
     and_then (json_of r) (\<lambda>health.
     and_then (show_line (Server_Health health)) (\<lambda>_.
     and_then (existing_items env) (\<lambda>existing.
     and_then (seed_items env ITEMS existing) (\<lambda>m.
     and_then (show_line (Total_Items (length m))) (\<lambda>_.
     and_then (seed_orders env m) (\<lambda>_.
     and_then (show_summary env) (\<lambda>_.
     show_alerts env))))))))"

end
