(* ===== verification/Schema_Examples.thy ===== *)
theory Schema_Examples
  imports Report_Properties
begin

text \<open>
  The examples that the schemas publish in the OpenAPI document (\<open>json_schema_extra\<close> of the
  classes in \<open>app/schemas\<close>), as values of the schemas. An instant is in microseconds since the
  epoch. The lemmas say which of them the service accepts and which it can answer.
\<close>

section \<open>Identifiers and instants of the examples\<close>

text \<open>\<open>3fa85f64-5717-4562-b3fc-2c963f66afa6\<close>, \<open>123e4567-e89b-12d3-a456-426614174000\<close> and
  \<open>987fbc97-4bed-5078-af07-9141ba07c9f3\<close>.\<close>

definition example_id :: uuid where
  "example_id = 0x3fa85f6457174562b3fc2c963f66afa6"

definition example_item_id :: uuid where
  "example_item_id = 0x123e4567e89b12d3a456426614174000"

definition example_order_id :: uuid where
  "example_order_id = 0x987fbc974bed5078af079141ba07c9f3"

definition ten_o_clock :: int where
  "ten_o_clock = 1772618400000000"

definition half_past_ten :: int where
  "half_past_ten = 1772620200000000"

lemma hex_char_values:
  "hex_char 0 = CHR ''0''"
  "hex_char (Suc 0) = CHR ''1''"
  "hex_char 2 = CHR ''2''"
  "hex_char 3 = CHR ''3''"
  "hex_char 4 = CHR ''4''"
  "hex_char 5 = CHR ''5''"
  "hex_char 6 = CHR ''6''"
  "hex_char 7 = CHR ''7''"
  "hex_char 8 = CHR ''8''"
  "hex_char 9 = CHR ''9''"
  "hex_char 10 = CHR ''a''"
  "hex_char 11 = CHR ''b''"
  "hex_char 12 = CHR ''c''"
  "hex_char 13 = CHR ''d''"
  "hex_char 14 = CHR ''e''"
  "hex_char 15 = CHR ''f''"
  by code_simp+

lemma hex_digits_numeral:
  "hex_digits (numeral k) n = hex_digits (pred_numeral k) (n div 16) @ [hex_char (n mod 16)]"
  by (rule hex_digits.simps(2) [of "pred_numeral k" n, folded numeral_eq_Suc])

lemma example_uuids:
  "uuid_str example_id = ''3fa85f64-5717-4562-b3fc-2c963f66afa6''"
  "uuid_str example_item_id = ''123e4567-e89b-12d3-a456-426614174000''"
  "uuid_str example_order_id = ''987fbc97-4bed-5078-af07-9141ba07c9f3''"
  by (simp_all add: uuid_str_def example_id_def example_item_id_def example_order_id_def Let_def
      hex_digits_numeral hex_char_values)

section \<open>Items and stock\<close>

definition item_create_example :: ItemCreate where
  "item_create_example =
     \<lparr>ic_name = ''Classic Burger'', ic_description = Some ''200g beef patty with lettuce and tomato'',
      ic_price = Dec 1299 (- 2), ic_stock_quantity = 50, ic_low_stock_threshold = 10\<rparr>"

definition item_stock_adjust_example :: ItemStockAdjust where
  "item_stock_adjust_example = \<lparr>sa_delta = - 5, sa_reason = ''Damaged goods removed from stock''\<rparr>"

definition item_response_example :: ItemResponse where
  "item_response_example =
     \<lparr>ir_id = example_id, ir_name = ''Classic Burger'',
      ir_description = Some ''200g beef patty with lettuce and tomato'', ir_price = Dec 1299 (- 2),
      ir_stock_quantity = 50, ir_low_stock_threshold = 10, ir_is_low_stock = False, ir_version = 1,
      ir_created_at = ten_o_clock, ir_updated_at = ten_o_clock\<rparr>"

definition stock_response_example :: StockResponse where
  "stock_response_example =
     \<lparr>sr_item_id = example_id, sr_stock_quantity = 45, sr_low_stock_threshold = 10, sr_is_low_stock = False\<rparr>"

definition stock_movement_example :: StockMovementResponse where
  "stock_movement_example =
     \<lparr>smr_id = example_id, smr_item_id = example_item_id, smr_order_id = Some example_order_id,
      smr_movement_type = DEDUCTION, smr_quantity_delta = - 5, smr_stock_before = 50, smr_stock_after = 45,
      smr_reason = Some ''Stock deducted for order 987fbc97-4bed-5078-af07-9141ba07c9f3'',
      smr_created_at = ten_o_clock\<rparr>"

definition low_stock_alert_example :: LowStockAlert where
  "low_stock_alert_example =
     \<lparr>la_id = example_id, la_name = ''Classic Burger'', la_stock_quantity = 3, la_low_stock_threshold = 10\<rparr>"

section \<open>Orders\<close>

definition order_create_example :: OrderCreate where
  "order_create_example =
     \<lparr>oc_item_id = example_item_id, oc_quantity = 2, oc_customer_ref = Some ''CUST-001''\<rparr>"

definition order_response_example :: OrderResponse where
  "order_response_example =
     \<lparr>or_id = example_id, or_item_id = example_item_id, or_quantity = 2, or_status = PENDING,
      or_customer_ref = Some ''CUST-001'', or_version = 1, or_created_at = ten_o_clock, or_updated_at = ten_o_clock\<rparr>"

definition order_detail_example :: order_detail where
  "order_detail_example =
     \<lparr>od_id = example_id, od_item_id = example_item_id, od_item_name = ''Classic Burger'',
      od_item_price = Dec 1299 (- 2), od_quantity = 2, od_total_value = Dec 2598 (- 2), od_status = DELIVERED,
      od_customer_ref = Some ''CUST-001'', od_version = 3, od_created_at = ten_o_clock,
      od_updated_at = half_past_ten, od_movements = []\<rparr>"

section \<open>Analytics\<close>

definition stock_analytics_example :: StockAnalytics where
  "stock_analytics_example =
     \<lparr>total_items = 12, total_units = 285, total_value = Dec 245875 (- 2), low_stock_count = 3, out_of_stock_count = 1\<rparr>"

definition order_analytics_example :: OrderAnalytics where
  "order_analytics_example =
     \<lparr>total_orders = 17, pending_count = 2, confirmed_count = 2, shipped_count = 2, delivered_count = 5,
      cancelled_count = 2, rejected_count = 2, revenue = Dec 18981 (- 2), refund_value = Dec 4699 (- 2)\<rparr>"

definition movement_analytics_example :: MovementAnalytics where
  "movement_analytics_example =
     \<lparr>total_deductions = 7, total_restorations = 2, total_adjustments = 12, net_stock_change = - 15\<rparr>"

definition analytics_summary_example :: AnalyticsSummary where
  "analytics_summary_example =
     \<lparr>as_stock = \<lparr>total_items = 12, total_units = 285, total_value = Dec 245875 (- 2), low_stock_count = 3,
         out_of_stock_count = 1\<rparr>,
      as_orders = \<lparr>total_orders = 17, pending_count = 2, confirmed_count = 2, shipped_count = 2,
         delivered_count = 5, cancelled_count = 2, rejected_count = 2, revenue = Dec 18981 (- 2),
         refund_value = Dec 4699 (- 2)\<rparr>,
      as_movements = \<lparr>total_deductions = 7, total_restorations = 2, total_adjustments = 12,
         net_stock_change = - 15\<rparr>\<rparr>"

section \<open>Examples that hold\<close>

lemma request_examples_valid:
  "item_create_valid item_create_example" "item_stock_adjust_valid item_stock_adjust_example"
  "order_create_valid order_create_example"
  by (simp_all add: item_create_valid_def item_create_example_def dec_cents_def item_stock_adjust_valid_def
      item_stock_adjust_example_def order_create_valid_def order_create_example_def)

text \<open>The response examples of items, orders, stock and alerts are answers for some row.\<close>

lemma response_examples_answered:
  "\<exists>it. item_types_ok it \<and> item_checks_ok it \<and> item_response it = item_response_example"
  "\<exists>it. item_types_ok it \<and> item_checks_ok it \<and> stock_response it = stock_response_example"
  "\<exists>it. item_types_ok it \<and> item_checks_ok it \<and> is_low_stock it \<and> low_stock_alert it = low_stock_alert_example"
  "\<exists>r. order_types_ok r \<and> order_checks_ok r \<and> order_response r = order_response_example"
proof -
  let ?it = "\<lparr>item_id = example_id, item_name = ''Classic Burger'',
      item_description = Some ''200g beef patty with lettuce and tomato'', item_price = 1299, stock_quantity = 50,
      low_stock_threshold = 10, item_version = 1, item_created_at = ten_o_clock, item_updated_at = ten_o_clock\<rparr>"
  note simps = item_types_ok_def item_checks_ok_def int4_def
  show "\<exists>it. item_types_ok it \<and> item_checks_ok it \<and> item_response it = item_response_example"
    by (rule exI [of _ ?it])
       (simp add: simps item_response_def item_response_example_def money_def is_low_stock_def)
  show "\<exists>it. item_types_ok it \<and> item_checks_ok it \<and> stock_response it = stock_response_example"
    by (rule exI [of _ "?it\<lparr>stock_quantity := 45\<rparr>"])
       (simp add: simps stock_response_def stock_response_example_def is_low_stock_def)
  show "\<exists>it. item_types_ok it \<and> item_checks_ok it \<and> is_low_stock it \<and> low_stock_alert it = low_stock_alert_example"
    by (rule exI [of _ "?it\<lparr>stock_quantity := 3\<rparr>"])
       (simp add: simps low_stock_alert_def low_stock_alert_example_def is_low_stock_def)
  show "\<exists>r. order_types_ok r \<and> order_checks_ok r \<and> order_response r = order_response_example"
    by (rule exI [of _ "\<lparr>order_id = example_id, order_item_id = example_item_id, quantity = 2, status = PENDING,
          customer_ref = Some ''CUST-001'', order_version = 1, order_created_at = ten_o_clock,
          order_updated_at = ten_o_clock\<rparr>"])
       (simp add: order_types_ok_def order_checks_ok_def int4_def order_response_def order_response_example_def)
qed

text \<open>The example of a movement is the deduction of an order of five from a stock of fifty.\<close>

lemma movement_example_deduction:
  assumes "order_id r = example_order_id" and "quantity r = 5" and "item_id it = example_item_id"
    and "stock_quantity it = 50"
  shows "stock_movement_response (deduction example_order_id r it example_id ten_o_clock) = stock_movement_example"
  using assms example_uuids(3)
  by (simp add: deduction_def change_record_def stock_movement_init_def stock_movement_response_def
      stock_movement_example_def deduction_reason_def)

section \<open>Examples that no answer matches\<close>

lemma get_db_value: "fst (get_db env h w) = Inr b \<Longrightarrow> fst (h (open_session w)) = Inr b"
  by (auto simp: get_db_def open_session_def Let_def and_then_def catching_def raise_exn_def done_with_def
      split: prod.splits sum.splits if_splits)

lemma get_db_answers:
  assumes "wp h (\<lambda>r w'. \<forall>b. r = Inr b \<longrightarrow> P b) (open_session w)" and "fst (get_db env h w) = Inr b"
  shows "P b"
  using assms get_db_value [of env h w b] by (simp add: wp_result)

text \<open>The counts of an order summary add up to its total.\<close>

definition counts_add_up :: "OrderAnalytics \<Rightarrow> bool" where
  "counts_add_up a \<longleftrightarrow> total_orders a = pending_count a + confirmed_count a + shipped_count a
     + delivered_count a + cancelled_count a + rejected_count a"

lemma order_analytics_counts:
  assumes "fst (get_db env (api_order_analytics env days) w) = Inr (OrderAnalyticsBody a)"
  shows "counts_add_up a"
proof -
  have "wp (api_order_analytics env days)
      (\<lambda>r w'. \<forall>b. r = Inr b \<longrightarrow> (\<forall>a. b = OrderAnalyticsBody a \<longrightarrow> counts_add_up a)) (open_session w)"
    by (simp add: api_order_analytics_def validated_def wp_as_body get_order_analytics_def wp_rules
        counts_add_up_def count_rows_status split: option.split)
  from get_db_answers [OF this assms] show ?thesis by simp
qed

lemma summary_counts:
  assumes "fst (get_db env (api_analytics_summary env days) w) = Inr (SummaryBody s)"
  shows "counts_add_up (as_orders s)"
proof -
  have "wp (api_analytics_summary env days)
      (\<lambda>r w'. \<forall>b. r = Inr b \<longrightarrow> (\<forall>s. b = SummaryBody s \<longrightarrow> counts_add_up (as_orders s))) (open_session w)"
    by (simp add: api_analytics_summary_def validated_def get_order_analytics_def get_stock_analytics_def
        get_movement_analytics_def wp_rules Let_def counts_add_up_def count_rows_status split: option.split)
  from get_db_answers [OF this assms] show ?thesis by simp
qed

lemma order_detail_row:
  assumes "fst (get_db env (api_get_order oid) w) = Inr (OrderDetailBody d)"
  shows "\<exists>r. find_order oid (db w) = Some r \<and> od_status d = status r \<and> od_version d = order_version r"
proof -
  have "wp (api_get_order oid) (\<lambda>r w'. \<forall>b. r = Inr b \<longrightarrow> (\<forall>d. b = OrderDetailBody d \<longrightarrow>
      (\<exists>r. find_order oid (db w) = Some r \<and> od_status d = status r \<and> od_version d = order_version r)))
    (open_session w)"
    by (simp add: api_get_order_def wp_as_body wp_mapped get_order_detail_def wp_rules Let_def split: option.split)
  from get_db_answers [OF this assms] show ?thesis by simp
qed

lemma delivered_version:
  assumes "audit_ok t" and "find_order oid t = Some r" and "status r = DELIVERED"
  shows "order_version r = 4"
proof -
  have "trail_for (status r) (quantity r) (order_version r) (order_trail (order_id r) t)"
    using audit_okD(3) [OF assms(1)] order_table.fetch_in [OF assms(2)] by (simp add: trail_ok_def)
  with assms(3) show ?thesis by simp
qed

text \<open>
  Three of the published examples are answers the service never gives while the audit of
  the tables holds. The example of an order detail is DELIVERED with version 3, but a delivered
  order has been transitioned three times and has version 4. The examples of the order
  analytics, alone and inside the summary, total seventeen orders with counts per status that
  add up to fifteen.
\<close>

theorem examples_never_answered:
  assumes "audit_ok (db w)"
  shows "fst (get_db env (handler env lim (GetOrder oid)) w) \<noteq> Inr (OrderDetailBody order_detail_example) \<and>
    fst (get_db env (handler env lim (GetAnalyticsOrders days)) w) \<noteq>
      Inr (OrderAnalyticsBody order_analytics_example) \<and>
    fst (get_db env (handler env lim (GetAnalyticsSummary days)) w) \<noteq>
      Inr (SummaryBody analytics_summary_example)"
proof (intro conjI notI)
  assume "fst (get_db env (handler env lim (GetOrder oid)) w) = Inr (OrderDetailBody order_detail_example)"
  then obtain r where r: "find_order oid (db w) = Some r" "status r = DELIVERED" "order_version r = 3"
    using order_detail_row [of env oid w] by (auto simp: order_detail_example_def)
  with delivered_version [OF assms r(1)] show False by simp
next
  assume "fst (get_db env (handler env lim (GetAnalyticsOrders days)) w) =
    Inr (OrderAnalyticsBody order_analytics_example)"
  with order_analytics_counts [of env days w] show False
    by (auto simp: counts_add_up_def order_analytics_example_def)
next
  assume "fst (get_db env (handler env lim (GetAnalyticsSummary days)) w) = Inr (SummaryBody analytics_summary_example)"
  with summary_counts [of env days w] show False
    by (auto simp: counts_add_up_def analytics_summary_example_def)
qed

theorem examples_never_answered_witness:
  "fst (get_db sample_env (handler sample_env False (GetOrder 5)) (sample_world 4)) \<noteq>
     Inr (OrderDetailBody order_detail_example)"
  using examples_never_answered [of "sample_world 4"] audit_ok_sample [of 4] by simp

end
