(* ===== verification/Spec2Isabelle.thy ===== *)
theory Spec2Isabelle
  imports Nova_Prelude Py_Text Py_Decimal Domain Settings Store Cache Repositories
    Item_Service Order_Service Ledger Services_Correct Service_Contracts Conservation
    Schemas Analytics_Service Http Auth_Middleware Api Serial_Runs Sample_State
    Request_Properties Run_Properties Item_Properties Report_Properties
    Cache_Transparency Inventory_Spec Inventory_Handlers Inventory_Refinement Routing Configuration
    Interleaving Concurrent_System Read_Requests Stock_Interference Stock_Robust Stock_Transactions Lock_Order
    Races Concurrent_Properties Linear_System Linear_Requests Linear_Items Linearizability
    Migrations Deployment Postman Copyright_Check Seed Schema_Examples
begin

text \<open>
  Nova Inventory Service: a verification development.

  The program. A FastAPI application keeps the stock of menu items and the orders on them in
  three tables: items with a stock quantity, orders with a status, and an append-only log of
  stock movements. Requests pass the request-id middleware, the API-key guard and the router,
  reach an endpoint (\<open>src/app/api/v1\<close>) that runs inside the database dependency \<open>get_db\<close>
  (\<open>src/app/db/session.py\<close>), and the endpoint calls one service method (\<open>src/app/services\<close>),
  which loads rows through the repositories (\<open>src/app/repositories\<close>), checks the guards of the
  order state machine (\<open>src/app/domain/enums.py\<close>), writes stock, movement, cache and status in
  that order, and raises a domain exception when a guard fails. The endpoint maps domain
  exceptions to HTTP errors; \<open>get_db\<close> commits after a value and after an HTTP error and rolls
  back after anything else.

  How it is modelled. A method is a function from the world to a result, either an exception
  or a value, and the next world (type \<open>io\<close> of \<open>Nova_Prelude\<close>). The world holds the committed
  tables, the session (statements executed in the open transaction, attributes assigned and
  not yet flushed, whether a flush has failed), the state of the Redis server, and how many
  identifiers and instants have been drawn. Every definition is executable for a concrete
  environment.

  Theories and the code they translate:
  \<^item> \<open>Nova_Prelude\<close>: rows by key, signed sums over rows, methods, exceptions and \<open>wp\<close>.
  \<^item> \<open>Py_Text\<close>, \<open>Py_Decimal\<close>: what the service uses of \<open>str\<close>, \<open>int\<close>, \<open>uuid\<close> and \<open>decimal\<close>.
  \<^item> \<open>Domain\<close>: \<open>domain/enums.py\<close>, \<open>domain/models\<close>, \<open>core/exceptions.py\<close>.
  \<^item> \<open>Settings\<close>: the fields, checks and properties of \<open>core/config.py\<close>. \<open>Configuration\<close>: how the
    settings are read from the environment and \<open>.env\<close>, \<open>core/constants.py\<close>, and the options that
    \<open>db/session.py\<close>, \<open>core/cache.py\<close>, \<open>core/rate_limit.py\<close>, \<open>app/main.py\<close> and \<open>src/main.py\<close> hand
    to the engine, Redis, the limiter, FastAPI and uvicorn.
  \<^item> \<open>Store\<close>: the schema and its constraints, statements with the exception of a refused one,
    the session, and \<open>get_db\<close> of \<open>db/session.py\<close>.
  \<^item> \<open>Cache\<close>: \<open>core/cache.py\<close>, over a Redis client that may answer or raise at every call.
  \<^item> \<open>Repositories\<close>: \<open>repositories/*.py\<close>. \<open>Item_Service\<close>: \<open>services/item_service.py\<close> and
    \<open>stock_service.py\<close>. \<open>Order_Service\<close>: \<open>services/order_service.py\<close>. \<open>Analytics_Service\<close>:
    \<open>services/analytics_service.py\<close>. \<open>Schemas\<close>: \<open>schemas/*.py\<close>.
  \<^item> \<open>Http\<close>: requests, paths and responses. \<open>Auth_Middleware\<close>: \<open>middleware/auth.py\<close>. \<open>Api\<close>:
    \<open>api/v1/*.py\<close> and the middleware stack of \<open>main.py\<close>, ending in \<open>serve\<close>, one whole request.
    \<open>Routing\<close>: the routes as the decorators and \<open>include_router\<close> register them, in order, with the
    functions they register, and the way of a request from its method and path to one of them.
  \<^item> \<open>Interleaving\<close>: the services and endpoints once more, as processes that stop at every call of
    a repository or of the cache, where the event loop may run another request, with the locks of
    their statements: FOR UPDATE and FOR NO KEY UPDATE on rows, FOR KEY SHARE of the foreign key of
    an order, and the entries of the unique indexes.
    \<open>Concurrent_System\<close>: all running requests, their sessions and the locks they hold; one step
    is one call of one of them, on the tables committed at that moment (READ COMMITTED).

  \<^item> \<open>Migrations\<close>: the revision script of \<open>migrations/versions\<close> statement by statement, the tables
    that \<open>domain/models\<close> map, and what both say of rows. \<open>Deployment\<close>: \<open>migrations/env.py\<close>
    with the percent signs of the URL in the Alembic configuration, the startup check and the lifespan of \<open>main.py\<close>, \<open>core/logging.py\<close>.
  \<^item> \<open>Schema_Examples\<close>: the examples that \<open>schemas/*.py\<close> publish. \<open>Seed\<close>: \<open>scripts/seed.py\<close> as a
    client of \<open>serve\<close>. \<open>Postman\<close>: \<open>scripts/generate_postman.py\<close>, with \<open>json.dumps\<close>.
    \<open>Copyright_Check\<close>: \<open>scripts/check_copyright.py\<close>.

  Invariants and abstract specifications (\<open>Ledger\<close>, \<open>Conservation\<close>):
  \<^item> \<open>schema_ok\<close>: column types, CHECK, UNIQUE, primary and foreign keys.
  \<^item> \<open>ledger_ok\<close>: the movements of an item, replayed from zero, chain up to its stock.
  \<^item> \<open>trail_ok\<close>: which movements and which version an order has in each status.
  \<^item> \<open>audit_ok\<close>: the three together, and \<open>cache_coherent\<close>: a cached quantity is the committed one.
  \<^item> \<open>evolves\<close>: the abstract life of the tables: items keep identity, name and price and their
    version grows, orders move along the state machine with one version per transition, the
    movement log only grows at its end.
  \<^item> \<open>stock_balance\<close>: stock plus the quantities that orders hold is what adjustments brought in.
  \<^item> \<open>inventory\<close> (\<open>Inventory_Spec\<close>): the promise of the service without sessions, cache, versions
    and identifiers of movements: items with a quantity, orders with a status, one partial step
    per operation that says either the next inventory or the code of its refusal. \<open>fits\<close> says that
    the new values fit the columns. \<open>Inventory_Handlers\<close> shows each endpoint to meet its step and
    \<open>Inventory_Refinement\<close> lifts it to \<open>serve\<close> and to runs, overflow included.
  \<^item> the service without a cache (\<open>Cache_Transparency\<close>): a run against a coherent cache, and a run
    against a Redis server whose every call fails, answer and commit as the run without one.

  Lemmas. \<open>Services_Correct\<close> executes each method symbolically and gives its branches;
  \<open>Service_Contracts\<close> gives every method the contract \<open>method_ok\<close>. Interfaces are locales:
  \<open>stock_cache\<close> in \<open>Cache\<close> (what the services rely on when they write the cache, interpreted
  on the cache over a client that obeys \<open>redis_laws\<close>) and \<open>request_server\<close> in \<open>Serial_Runs\<close>
  (a server whose steps keep an invariant, interpreted on \<open>serve\<close>).

  Interference. The locale \<open>interference\<close> of \<open>Concurrent_System\<close> is the contract of a request
  towards the others: what it may rely on between two calls while it holds its locks, and what
  every commit of it owes them. \<open>Stock_Interference\<close> interprets it on the stock service,
  \<open>Read_Requests\<close>, \<open>Stock_Robust\<close> and \<open>Stock_Transactions\<close> prove every request robust under it. \<open>Lock_Order\<close>:
  requests take their locks on new items and orders, names, rows of items, new movements and
  rows of orders in this order, so that they never deadlock. \<open>Races\<close> executes the three
  interleavings whose outcome no serial order has.

  Linearization. The locale \<open>linearization\<close> of \<open>Linear_System\<close> extends \<open>interference\<close> by what is
  visible of the tables: a request is \<open>linear\<close> when exactly one of its calls takes effect, as a
  step that the specification allows there and with the reply it will give, and \<open>serial_order\<close>
  collects these steps over a run; the moments of the run (\<open>run_moments\<close>: draws, tables and Redis
  at each) are what an exception may refer to. \<open>Linear_Requests\<close> (transitions) and \<open>Linear_Items\<close>
  (the rest) prove every request linear towards the abstract inventory, whatever else runs. A
  reply is the status code with the stocks or orders that the body tells (\<open>told\<close>). Two effects
  have no place in a serial order of the inventory's steps. A request that finds its order moved
  on by another takes effect as \<open>conflict_on_order\<close>: 409, with the change of stock that the
  order's status at an earlier moment called for. A stock read that answers from the cache may
  take effect as \<open>cached_read\<close>: the stock becomes what the cache held at a moment of the run.
  \<open>Linearizability\<close> draws the conclusions for all runs.

  Properties. \<open>Run_Properties\<close>: whole runs of requests (audit, conservation, evolution, no
  conflict), reads and the API-key guard. \<open>Request_Properties\<close> and \<open>Item_Properties\<close>: what each
  operation commits and answers, branch by branch. \<open>Inventory_Refinement\<close>: a request answers and
  commits what the abstract inventory says. \<open>Cache_Transparency\<close>: the cache never changes an answer.
  \<open>Routing\<close>: every request reaches the function registered for it, and none has two routes.
  \<open>Configuration\<close>: a service without keys changes nothing. \<open>Report_Properties\<close>: the stock read, order detail,
  date filter and the aggregates. \<open>Concurrent_Properties\<close>: what every interleaving keeps, and the
  races that keep less. \<open>Linearizability\<close>: concurrent requests answer and commit as some serial
  order of them, lost races on an order included, and confirmations share the stock of an item.
  \<open>Deployment\<close>: the revision script, the mapped models and \<open>schema_ok\<close> agree, and a deployment can
  be migrated, started and downgraded, unless its URL has a bare percent sign. \<open>Seed\<close>,
  \<open>Postman\<close>, \<open>Schema_Examples\<close>: what the scripts keep and build, and which published examples no
  answer matches. \<open>Sample_State\<close> is the concrete deployment on which the properties are instantiated.

  Parameters and hypotheses. The Redis client, the sources of identifiers and of the clock,
  and the collation of item names are fields of the environment. \<open>cache_ok\<close> asks that the
  client, when the cache is enabled, obeys the documented behaviour of GET, SETEX and DEL and
  that the time to live is positive; entries that expire are not modelled, as an absent entry
  is always coherent. Properties of single requests that promise success also ask that new
  identifiers are fresh and that the new values fit the 32-bit columns; properties of runs
  do not, since a refused statement is rolled back. \<open>cache_ok\<close> also asks that after a SETEX that
  raises no older entry is read for the key, which Redis does not promise of a lost connection;
  \<open>cache_faults_invisible\<close> and \<open>stale_read_overwrites_stock\<close> say what holds and what fails without
  it, and the properties of interleavings ask nothing of Redis. The lookup of a setting in the
  environment and in \<open>.env\<close> is that of \<open>pydantic-settings\<close>, taken as a union of two maps; its
  conversion from text (integers and booleans) is an argument of \<open>load_settings\<close>.

  Bounds. No definition uses fuel. Column integers are mathematical integers with the range
  of the column checked by each statement, as the driver does; identifiers are 128-bit words;
  amounts are whole cents within \<open>NUMERIC(10, 2)\<close>, and \<open>decimal\<close> arithmetic rounds to the 28
  digits of the default context, which the properties show to be exact here. Text is a list of
  characters: that PostgreSQL refuses a NUL character is not modelled, nor that \<open>pydantic\<close> rounds
  a price of more than 28 digits before it counts its places.

  Concurrency. Every endpoint that uses the database is also a process (\<open>client_request\<close>), the
  stock read with its cache included. A step is one call of a repository or of the cache, or the
  end of the transaction; an INSERT that enters two locks is two steps. The statements of one call,
  a flush and the refresh after it, are not taken apart: they concern rows that the transaction
  has locked or inserted. An UPDATE that waits reads the row again when it gets the lock, as
  PostgreSQL does under READ COMMITTED. The INSERT of an order shares the row of its item (FOR
  KEY SHARE), which excludes FOR UPDATE; that of a movement takes no lock of its own for its
  foreign keys: its transaction has locked or inserted the item, and no statement of the service
  conflicts with a share of the row of an order. The stock read can write a stock without a
  movement, from a cache entry that another request has outrun: the ledger and the balance of
  interleavings leave out the items that are read so (\<open>cached_reads\<close>), the trail of orders leaves
  out those that several requests act on (\<open>contested_orders\<close>), and the races show both to be
  needed. Whether the cache agrees with the database is not claimed of interleavings.

  Not modelled. The effect of CORS and the counting of the rate limiter (third-party code: their
  options are modelled, and the verdict of the limiter is an argument of the request), logging
  calls, the parsing of JSON, queries and bodies, the pools of connections, the effect of
  indexes, the descriptions in the published API document, the arguments on the command line of
  the seed script, and the wording of what it prints are left out. The response is built inside the
  dependency, which commits before the answer is sent; the order of the two is not
  observable in a serial run.
\<close>

end
